theory Spec2Isabelle
  imports Complex_Main "HOL-Library.Word" "HOL-Library.Signed_Division" "HOL-Library.Sublist"
    "HOL-Library.Log_Nat"
begin

unbundle bit_operations_syntax

section \<open>Water softener salt level monitor: main/salt_level_monitor.c\<close>

text \<open>
  The firmware has two callback handlers (Wi-Fi events, MQTT events) and one task
  (\<open>sensor_task\<close>). They communicate through three file-level variables:
  \<open>s_retry_num\<close>, the event group \<open>s_wifi_event_group\<close> and the flag \<open>mqtt_connected\<close>.
  Each handler and each stretch of the task between two reads of \<open>mqtt_connected\<close>
  is a function from the state to the new state and the list of calls it makes
  on the platform (log lines, \<open>esp_wifi_connect\<close>, \<open>esp_mqtt_client_publish\<close>,
  \<open>vTaskDelay\<close>), in program order.

  C \<open>int\<close> values are 32-bit words read with \<open>sint\<close>. C \<open>float\<close> values are binary32
  values: every arithmetic operation rounds its exact result to the nearest value
  of the format, a tie to the one with an even significand, and the zeros, the
  infinities and NaN are values of their own.
\<close>

subsection \<open>Build configuration (sdkconfig)\<close>

text \<open>
  The \<open>CONFIG_*\<close> macros come from the project's Kconfig, which is not part of the
  C file; they are the fields of a record that every function takes.
\<close>

record config =
  CONFIG_WIFI_MAXIMUM_RETRY :: "32 word"
  CONFIG_MQTT_CLIENT_ID :: string
  CONFIG_TANK_HEIGHT_CM :: "32 word"
  CONFIG_READING_INTERVAL_SEC :: "32 word"

subsection \<open>The type \<open>float\<close>\<close>

text \<open>
  \<open>Val r\<close> is the finite value \<open>r\<close>, \<open>Val 0\<close> the positive zero and \<open>NegZero\<close> the
  negative one. An operation never returns \<open>Val r\<close> with \<open>r\<close> outside the format.
\<close>

datatype float32 = Val real | NegZero | PInf | NInf | NaN

definition float_value :: "float32 \<Rightarrow> real" where
  "float_value a = (case a of Val r \<Rightarrow> r | _ \<Rightarrow> 0)"

definition sign_bit :: "float32 \<Rightarrow> bool" where
  "sign_bit a = (case a of Val r \<Rightarrow> r < 0 | NegZero \<Rightarrow> True | PInf \<Rightarrow> False | NInf \<Rightarrow> True | NaN \<Rightarrow> False)"

definition is_nan :: "float32 \<Rightarrow> bool" where
  "is_nan a = (case a of NaN \<Rightarrow> True | _ \<Rightarrow> False)"

definition is_inf :: "float32 \<Rightarrow> bool" where
  "is_inf a = (case a of PInf \<Rightarrow> True | NInf \<Rightarrow> True | _ \<Rightarrow> False)"

definition is_zero :: "float32 \<Rightarrow> bool" where
  "is_zero a = (case a of Val r \<Rightarrow> r = 0 | NegZero \<Rightarrow> True | _ \<Rightarrow> False)"

definition is_finite :: "float32 \<Rightarrow> bool" where
  "is_finite a = (case a of Val r \<Rightarrow> True | NegZero \<Rightarrow> True | _ \<Rightarrow> False)"

definition signed_inf :: "bool \<Rightarrow> float32" where
  "signed_inf negative = (if negative then NInf else PInf)"

definition signed_zero :: "bool \<Rightarrow> float32" where
  "signed_zero negative = (if negative then NegZero else Val 0)"

text \<open>The nearest integer, a tie to the even one.\<close>

definition round_half_even :: "real \<Rightarrow> int" where
  "round_half_even y =
     (if y - of_int \<lfloor>y\<rfloor> < 1 / 2 then \<lfloor>y\<rfloor>
      else if 1 / 2 < y - of_int \<lfloor>y\<rfloor> then \<lfloor>y\<rfloor> + 1
      else if even \<lfloor>y\<rfloor> then \<lfloor>y\<rfloor> else \<lfloor>y\<rfloor> + 1)"

text \<open>
  Rounding to a significand of 24 bits with no bound on the exponent above and the
  exponent of the subnormal values below: the value is counted in units of the
  least subnormal value \<open>1 / 2 ^ 149\<close>, and the bits beyond the 24 leading ones are rounded
  away.
\<close>

definition least_subnormal :: real where
  "least_subnormal = 1 / 2 ^ 149"

definition round_magnitude :: "real \<Rightarrow> real" where
  "round_magnitude x =
     (let y = x / least_subnormal;
          shift = nat (bitlen \<lfloor>y\<rfloor> - 24)
      in of_int (round_half_even (y / 2 ^ shift)) * 2 ^ shift * least_subnormal)"

definition round_binary32 :: "real \<Rightarrow> real" where
  "round_binary32 x = (if x < 0 then - round_magnitude (- x) else round_magnitude x)"

text \<open>
  The result of an operation whose exact value is \<open>x\<close> and whose sign, when the
  result is a zero or an infinity, is \<open>negative\<close>. The format overflows to an
  infinity from \<open>2 ^ 128\<close> on.
\<close>

definition binary32_overflow :: real where
  "binary32_overflow = 2 ^ 128"

definition rounded :: "bool \<Rightarrow> real \<Rightarrow> float32" where
  "rounded negative x =
     (let y = round_binary32 x
      in if binary32_overflow \<le> \<bar>y\<bar> then signed_inf negative
         else if y = 0 then signed_zero negative
         else Val y)"

definition fneg :: "float32 \<Rightarrow> float32" where
  "fneg a = (case a of Val r \<Rightarrow> (if r = 0 then NegZero else Val (- r))
             | NegZero \<Rightarrow> Val 0 | PInf \<Rightarrow> NInf | NInf \<Rightarrow> PInf | NaN \<Rightarrow> NaN)"

definition fadd :: "float32 \<Rightarrow> float32 \<Rightarrow> float32" where
  "fadd a b =
     (if is_nan a \<or> is_nan b then NaN
      else if is_inf a then (if is_inf b \<and> sign_bit a \<noteq> sign_bit b then NaN else a)
      else if is_inf b then b
      else if float_value a + float_value b = 0
           then signed_zero (sign_bit a \<and> sign_bit b)
           else rounded (float_value a + float_value b < 0) (float_value a + float_value b))"

definition fsub :: "float32 \<Rightarrow> float32 \<Rightarrow> float32" where
  "fsub a b = fadd a (fneg b)"

definition fmul :: "float32 \<Rightarrow> float32 \<Rightarrow> float32" where
  "fmul a b =
     (if is_nan a \<or> is_nan b then NaN
      else if (is_inf a \<and> is_zero b) \<or> (is_zero a \<and> is_inf b) then NaN
      else if is_inf a \<or> is_inf b then signed_inf (sign_bit a \<noteq> sign_bit b)
      else rounded (sign_bit a \<noteq> sign_bit b) (float_value a * float_value b))"

definition fdiv :: "float32 \<Rightarrow> float32 \<Rightarrow> float32" where
  "fdiv a b =
     (if is_nan a \<or> is_nan b then NaN
      else if (is_inf a \<and> is_inf b) \<or> (is_zero a \<and> is_zero b) then NaN
      else if is_inf a \<or> is_zero b then signed_inf (sign_bit a \<noteq> sign_bit b)
      else if is_inf b then signed_zero (sign_bit a \<noteq> sign_bit b)
      else rounded (sign_bit a \<noteq> sign_bit b) (float_value a / float_value b))"

text \<open>The comparisons \<open><\<close> and \<open><=\<close> of C; both are false when an operand is NaN.\<close>

definition flt :: "float32 \<Rightarrow> float32 \<Rightarrow> bool" where
  "flt a b =
     (if is_nan a \<or> is_nan b then False
      else if a = PInf \<or> b = NInf then False
      else if a = NInf \<or> b = PInf then True
      else float_value a < float_value b)"

definition fle :: "float32 \<Rightarrow> float32 \<Rightarrow> bool" where
  "fle a b = (\<not> is_nan a \<and> \<not> is_nan b \<and> \<not> flt b a)"

text \<open>The conversion of an \<open>int\<close> to \<open>float\<close>.\<close>

definition float_of_int :: "int \<Rightarrow> float32" where
  "float_of_int i = rounded (i < 0) (real_of_int i)"

subsection \<open>Calls on the platform\<close>

datatype esp_log_level = ESP_LOGI | ESP_LOGW | ESP_LOGE

datatype log_arg = Arg_str string | Arg_int int | Arg_float float32 | Arg_ip "32 word"

text \<open>
  \<open>Log lvl fmt args\<close> is \<open>ESP_LOGx(TAG, fmt, args)\<close>;
  \<open>Esp_mqtt_client_publish topic data len qos retain\<close> is the call on
  \<open>mqtt_client\<close> with these arguments; \<open>VTaskDelay_ms ms\<close> is
  \<open>vTaskDelay(pdMS_TO_TICKS(ms))\<close>.
\<close>

datatype action =
    Log esp_log_level string "log_arg list"
  | Esp_wifi_connect
  | Esp_mqtt_client_publish string string "32 word" "32 word" bool
  | VTaskDelay_ms "32 word"

text \<open>\<open>snprintf(buf, n, ...)\<close> keeps at most \<open>n - 1\<close> bytes of the formatted text.\<close>

definition snprintf :: "nat \<Rightarrow> string \<Rightarrow> string" where
  "snprintf n s = take (n - 1) s"

subsection \<open>Wi-Fi event handler\<close>

definition WIFI_CONNECTED_BIT :: "32 word" where
  "WIFI_CONNECTED_BIT = 1"

definition WIFI_FAIL_BIT :: "32 word" where
  "WIFI_FAIL_BIT = 2"

record wifi_state =
  s_retry_num :: "32 word"
  s_wifi_event_group :: "32 word"

text \<open>
  The handler is registered for every \<open>WIFI_EVENT\<close> id and for
  \<open>IP_EVENT_STA_GOT_IP\<close>; \<open>WIFI_EVENT_other\<close> stands for the remaining ids.
\<close>

datatype wifi_event =
    WIFI_EVENT_STA_START
  | WIFI_EVENT_STA_DISCONNECTED
  | IP_EVENT_STA_GOT_IP "32 word"
  | WIFI_EVENT_other

definition xEventGroupSetBits :: "32 word \<Rightarrow> 32 word \<Rightarrow> 32 word" where
  "xEventGroupSetBits xEventGroup uxBitsToSet = xEventGroup OR uxBitsToSet"

definition event_handler :: "config \<Rightarrow> wifi_event \<Rightarrow> wifi_state \<Rightarrow> wifi_state \<times> action list" where
  "event_handler cfg ev s =
     (case ev of
        WIFI_EVENT_STA_START \<Rightarrow> (s, [Esp_wifi_connect])
      | WIFI_EVENT_STA_DISCONNECTED \<Rightarrow>
          (if s_retry_num s <s CONFIG_WIFI_MAXIMUM_RETRY cfg
           then (s\<lparr>s_retry_num := s_retry_num s + 1\<rparr>,
                 [Esp_wifi_connect,
                  Log ESP_LOGI ''Retry to connect to the AP'' [],
                  Log ESP_LOGI ''Connect to the AP fail'' []])
           else (s\<lparr>s_wifi_event_group :=
                      xEventGroupSetBits (s_wifi_event_group s) WIFI_FAIL_BIT\<rparr>,
                 [Log ESP_LOGI ''Connect to the AP fail'' []]))
      | IP_EVENT_STA_GOT_IP ip \<Rightarrow>
          (s\<lparr>s_retry_num := 0,
             s_wifi_event_group :=
               xEventGroupSetBits (s_wifi_event_group s) WIFI_CONNECTED_BIT\<rparr>,
           [Log ESP_LOGI ''Got IP:%d.%d.%d.%d'' [Arg_ip ip]])
      | WIFI_EVENT_other \<Rightarrow> (s, []))"

text \<open>
  \<open>s_retry_num = 0\<close> is the static initialiser; \<open>xEventGroupCreate\<close> in
  \<open>wifi_init_sta\<close> gives a group with no bit set.
\<close>

definition wifi_init :: wifi_state where
  "wifi_init = \<lparr>s_retry_num = 0, s_wifi_event_group = 0\<rparr>"

text \<open>
  The two signals, tested as \<open>wifi_init_sta\<close> tests them:
  \<open>bits & WIFI_CONNECTED_BIT\<close> and \<open>bits & WIFI_FAIL_BIT\<close>.
\<close>

definition link_ready :: "wifi_state \<Rightarrow> bool" where
  "link_ready s = (s_wifi_event_group s AND WIFI_CONNECTED_BIT \<noteq> 0)"

definition link_failed :: "wifi_state \<Rightarrow> bool" where
  "link_failed s = (s_wifi_event_group s AND WIFI_FAIL_BIT \<noteq> 0)"

text \<open>The event loop delivers the events one at a time.\<close>

fun wifi_run :: "config \<Rightarrow> wifi_event list \<Rightarrow> wifi_state \<Rightarrow> wifi_state" where
  "wifi_run cfg [] s = s"
| "wifi_run cfg (ev # evs) s = wifi_run cfg evs (fst (event_handler cfg ev s))"

text \<open>The states after each event of a sequence, in order.\<close>

fun wifi_trace :: "config \<Rightarrow> wifi_event list \<Rightarrow> wifi_state \<Rightarrow> wifi_state list" where
  "wifi_trace cfg [] s = []"
| "wifi_trace cfg (ev # evs) s =
     fst (event_handler cfg ev s) # wifi_trace cfg evs (fst (event_handler cfg ev s))"

subsection \<open>Measurement converter\<close>

text \<open>
  The constants \<open>0\<close> and \<open>100\<close> of the two comparisons and assignments are \<open>int\<close>
  values converted to \<open>float\<close>; \<open>100.0f\<close> is \<open>Val 100\<close>.
\<close>

definition calculate_percentage :: "config \<Rightarrow> float32 \<Rightarrow> float32" where
  "calculate_percentage cfg distance_cm =
     (let tank_height = float_of_int (sint (CONFIG_TANK_HEIGHT_CM cfg));
          salt_height = fsub tank_height distance_cm;
          percentage = fmul (fdiv salt_height tank_height) (Val 100);
          percentage = (if flt percentage (float_of_int 0) then float_of_int 0 else percentage);
          percentage = (if flt (float_of_int 100) percentage then float_of_int 100 else percentage)
      in percentage)"

text \<open>The formula of the specification, section 4.5, over the real numbers.\<close>

definition clamp :: "real \<Rightarrow> real \<Rightarrow> real \<Rightarrow> real" where
  "clamp x lo hi = max lo (min hi x)"

definition percentage_spec :: "real \<Rightarrow> real \<Rightarrow> real" where
  "percentage_spec tank_height distance = clamp (((tank_height - distance) / tank_height) * 100) 0 100"

subsection \<open>Mock sensor\<close>

text \<open>
  \<open>count\<close> is the function's static counter; \<open>count % 50\<close> is C's remainder, which
  truncates towards zero, converted to \<open>float\<close> for the product with \<open>1.5f\<close>. The
  function returns the distance, the new counter and its log line.
\<close>

definition read_distance_cm :: "32 word \<Rightarrow> float32 \<times> 32 word \<times> action list" where
  "read_distance_cm count =
     (let count = count + 1;
          distance = fadd (Val 10) (fmul (float_of_int (sint count smod 50)) (Val (3 / 2)))
      in (distance, count, [Log ESP_LOGI ''Mock sensor reading: %.1f cm'' [Arg_float distance]]))"

subsection \<open>MQTT event handler\<close>

datatype esp_mqtt_error_type_t =
    MQTT_ERROR_TYPE_TCP_TRANSPORT
  | MQTT_ERROR_TYPE_CONNECTION_REFUSED
  | MQTT_ERROR_TYPE_other

record esp_mqtt_error_codes_t =
  error_type :: esp_mqtt_error_type_t
  esp_transport_sock_errno :: "32 word"
  connect_return_code :: "32 word"

datatype esp_mqtt_event =
    MQTT_EVENT_CONNECTED
  | MQTT_EVENT_DISCONNECTED
  | MQTT_EVENT_ERROR esp_mqtt_error_codes_t
  | MQTT_EVENT_other

text \<open>
  The program points of \<open>sensor_task\<close> at which it can be scheduled out:
  the polling loop, the settle delay, the call of \<open>publish_ha_discovery\<close>, and the
  head of the \<open>while (1)\<close> loop.
\<close>

datatype phase = AwaitingSession | SettleDelay | PublishingDiscovery | Running

record sys_state =
  mqtt_connected :: bool
  phase :: phase
  count :: "32 word"

definition mqtt_event_handler :: "esp_mqtt_event \<Rightarrow> sys_state \<Rightarrow> sys_state \<times> action list" where
  "mqtt_event_handler event s =
     (case event of
        MQTT_EVENT_CONNECTED \<Rightarrow>
          (s\<lparr>mqtt_connected := True\<rparr>, [Log ESP_LOGI ''MQTT_EVENT_CONNECTED'' []])
      | MQTT_EVENT_DISCONNECTED \<Rightarrow>
          (s\<lparr>mqtt_connected := False\<rparr>, [Log ESP_LOGI ''MQTT_EVENT_DISCONNECTED'' []])
      | MQTT_EVENT_ERROR error_handle \<Rightarrow>
          (s, Log ESP_LOGI ''MQTT_EVENT_ERROR'' [] #
              (if error_type error_handle = MQTT_ERROR_TYPE_TCP_TRANSPORT
               then [Log ESP_LOGE ''Last error code: 0x%x''
                       [Arg_int (sint (esp_transport_sock_errno error_handle))]]
               else if error_type error_handle = MQTT_ERROR_TYPE_CONNECTION_REFUSED
               then [Log ESP_LOGE ''Connection refused error: 0x%x''
                       [Arg_int (sint (connect_return_code error_handle))]]
               else []))
      | MQTT_EVENT_other \<Rightarrow> (s, []))"

subsection \<open>Discovery publisher\<close>

definition distance_config_topic :: "string \<Rightarrow> string" where
  \<open>distance_config_topic client_id = ''homeassistant/sensor/'' @ client_id @ ''/distance/config''\<close>

definition distance_config_payload :: "string \<Rightarrow> string" where
  \<open>distance_config_payload client_id =
     ''{"name":"Salt Level Distance",''
     @ ''"state_topic":"homeassistant/sensor/'' @ client_id @ ''/state",''
     @ ''"unit_of_measurement":"cm",''
     @ ''"value_template":"{{ value_json.distance }}",''
     @ ''"unique_id":"'' @ client_id @ ''_distance",''
     @ ''"device":{"identifiers":["'' @ client_id @ ''"],''
     @ ''"name":"Water Softener Salt Level",''
     @ ''"model":"ESP32 HC-SR04",''
     @ ''"manufacturer":"DIY"}}''\<close>

definition percentage_config_topic :: "string \<Rightarrow> string" where
  \<open>percentage_config_topic client_id = ''homeassistant/sensor/'' @ client_id @ ''/percentage/config''\<close>

definition percentage_config_payload :: "string \<Rightarrow> string" where
  \<open>percentage_config_payload client_id =
     ''{"name":"Salt Level Percentage",''
     @ ''"state_topic":"homeassistant/sensor/'' @ client_id @ ''/state",''
     @ ''"unit_of_measurement":"%",''
     @ ''"value_template":"{{ value_json.percentage }}",''
     @ ''"unique_id":"'' @ client_id @ ''_percentage",''
     @ ''"device":{"identifiers":["'' @ client_id @ ''"]}}''\<close>

text \<open>
  \<open>config_topic\<close> is a buffer of 128 bytes and \<open>config_payload\<close> one of 512; the
  value that \<open>esp_mqtt_client_publish\<close> returns is dropped.
\<close>

definition publish_ha_discovery :: "config \<Rightarrow> sys_state \<Rightarrow> action list" where
  "publish_ha_discovery cfg s =
     (if \<not> mqtt_connected s
      then [Log ESP_LOGW ''MQTT not connected, skipping discovery'' []]
      else [Esp_mqtt_client_publish
              (snprintf 128 (distance_config_topic (CONFIG_MQTT_CLIENT_ID cfg)))
              (snprintf 512 (distance_config_payload (CONFIG_MQTT_CLIENT_ID cfg))) 0 1 True,
            Log ESP_LOGI ''Published distance sensor discovery'' [],
            Esp_mqtt_client_publish
              (snprintf 128 (percentage_config_topic (CONFIG_MQTT_CLIENT_ID cfg)))
              (snprintf 512 (percentage_config_payload (CONFIG_MQTT_CLIENT_ID cfg))) 0 1 True,
            Log ESP_LOGI ''Published percentage sensor discovery'' []])"

subsection \<open>Sensor task\<close>

text \<open>
  \<open>state_topic\<close> is a buffer of 128 bytes and \<open>payload\<close> one of 256. The conversion
  \<open>%.1f\<close> is the parameter \<open>f1\<close> of the task; the conversion of the C library is
  \<open>printf_1f\<close> below, and the firmware is the task with \<open>f1 = printf_1f\<close>.
\<close>

definition state_topic :: "config \<Rightarrow> string" where
  "state_topic cfg = snprintf 128 (''homeassistant/sensor/'' @ CONFIG_MQTT_CLIENT_ID cfg @ ''/state'')"

definition state_payload :: "(float32 \<Rightarrow> string) \<Rightarrow> float32 \<Rightarrow> float32 \<Rightarrow> string" where
  \<open>state_payload f1 distance percentage =
     snprintf 256 (''{"distance":'' @ f1 distance @ '',"percentage":'' @ f1 percentage @ ''}'')\<close>

text \<open>The line logged when the task starts, before its first step.\<close>

definition sensor_task_entry :: "action list" where
  "sensor_task_entry = [Log ESP_LOGI ''Waiting for MQTT connection...'' []]"

text \<open>
  One step of the task runs it from one program point to the next. Each step reads
  \<open>mqtt_connected\<close> at most once, so an event handler that runs during a step acts
  as if it ran just before or just after it. \<open>msg_id\<close> is what
  \<open>esp_mqtt_client_publish\<close> returns to the step.
\<close>

definition sensor_task_step ::
  "config \<Rightarrow> (float32 \<Rightarrow> string) \<Rightarrow> 32 word \<Rightarrow> sys_state \<Rightarrow> sys_state \<times> action list" where
  "sensor_task_step cfg f1 msg_id s =
     (case phase s of
        AwaitingSession \<Rightarrow>
          (if \<not> mqtt_connected s
           then (s, [VTaskDelay_ms 1000])
           else (s\<lparr>phase := SettleDelay\<rparr>, []))
      | SettleDelay \<Rightarrow>
          (s\<lparr>phase := PublishingDiscovery\<rparr>, [VTaskDelay_ms 2000])
      | PublishingDiscovery \<Rightarrow>
          (s\<lparr>phase := Running\<rparr>,
           [Log ESP_LOGI ''Publishing Home Assistant discovery messages...'' []]
           @ publish_ha_discovery cfg s
           @ [Log ESP_LOGI ''Discovery messages sent!'' []])
      | Running \<Rightarrow>
          (case read_distance_cm (count s) of (distance, count', sensor_log) \<Rightarrow>
             (let percentage = calculate_percentage cfg distance
              in (s\<lparr>count := count'\<rparr>,
                  sensor_log
                  @ [Log ESP_LOGI ''Distance: %.1f cm, Salt level: %.1f%%''
                       [Arg_float distance, Arg_float percentage]]
                  @ (if mqtt_connected s
                     then [Esp_mqtt_client_publish (state_topic cfg)
                             (state_payload f1 distance percentage) 0 0 False,
                           Log ESP_LOGI ''Published to MQTT, msg_id=%d'' [Arg_int (sint msg_id)]]
                     else [Log ESP_LOGW ''MQTT not connected, skipping publish'' []])
                  @ [VTaskDelay_ms (CONFIG_READING_INTERVAL_SEC cfg * 1000)]))))"

subsection \<open>The two contexts together\<close>

text \<open>
  \<open>mqtt_connected = false\<close> is the static initialiser, and so is \<open>count = 0\<close>.
\<close>

definition sys_init :: sys_state where
  "sys_init = \<lparr>mqtt_connected = False, phase = AwaitingSession, count = 0\<rparr>"

datatype sys_event = Mqtt_event esp_mqtt_event | Sensor_task_step "32 word"

definition sys_step ::
  "config \<Rightarrow> (float32 \<Rightarrow> string) \<Rightarrow> sys_event \<Rightarrow> sys_state \<Rightarrow> sys_state \<times> action list" where
  "sys_step cfg f1 ev s =
     (case ev of
        Mqtt_event event \<Rightarrow> mqtt_event_handler event s
      | Sensor_task_step msg_id \<Rightarrow> sensor_task_step cfg f1 msg_id s)"

text \<open>An execution: the final state and every call made, in order.\<close>

fun sys_run ::
  "config \<Rightarrow> (float32 \<Rightarrow> string) \<Rightarrow> sys_event list \<Rightarrow> sys_state \<Rightarrow> sys_state \<times> action list" where
  "sys_run cfg f1 [] s = (s, [])"
| "sys_run cfg f1 (ev # evs) s =
     (fst (sys_run cfg f1 evs (fst (sys_step cfg f1 ev s))),
      snd (sys_step cfg f1 ev s) @ snd (sys_run cfg f1 evs (fst (sys_step cfg f1 ev s))))"

subsection \<open>Reading an execution\<close>

definition is_publish :: "action \<Rightarrow> bool" where
  "is_publish a = (case a of Esp_mqtt_client_publish topic data len qos retain \<Rightarrow> True | _ \<Rightarrow> False)"

text \<open>
  A discovery message is a retained publish; the measurement publish is the one
  that is not retained.
\<close>

definition is_discovery_publish :: "action \<Rightarrow> bool" where
  "is_discovery_publish a =
     (case a of Esp_mqtt_client_publish topic data len qos retain \<Rightarrow> retain | _ \<Rightarrow> False)"

text \<open>
  \<open>sensor_task\<close> logs one line just before it calls \<open>publish_ha_discovery\<close>; the
  number of these lines is the number of calls.
\<close>

definition discovery_invocations :: "action list \<Rightarrow> nat" where
  "discovery_invocations acts =
     length (filter (\<lambda>a. a = Log ESP_LOGI ''Publishing Home Assistant discovery messages...'' []) acts)"

text \<open>
  What \<open>publish_ha_discovery\<close> itself leaves in an execution: two retained publish
  calls when it finds the session connected, and otherwise its warning, counted
  here.
\<close>

definition discovery_skips :: "action list \<Rightarrow> nat" where
  "discovery_skips acts =
     length (filter (\<lambda>a. a = Log ESP_LOGW ''MQTT not connected, skipping discovery'' []) acts)"

text \<open>
  The number of times the session goes from disconnected to connected in a
  sequence of events, starting from the flag \<open>c\<close>.
\<close>

fun session_transitions :: "bool \<Rightarrow> sys_event list \<Rightarrow> nat" where
  "session_transitions c [] = 0"
| "session_transitions c (Mqtt_event MQTT_EVENT_CONNECTED # evs) =
     (if c then 0 else 1) + session_transitions True evs"
| "session_transitions c (Mqtt_event MQTT_EVENT_DISCONNECTED # evs) = session_transitions False evs"
| "session_transitions c (ev # evs) = session_transitions c evs"

text \<open>The order of the program points.\<close>

fun phase_rank :: "phase \<Rightarrow> nat" where
  "phase_rank AwaitingSession = 0"
| "phase_rank SettleDelay = 1"
| "phase_rank PublishingDiscovery = 2"
| "phase_rank Running = 3"

subsection \<open>The conversion \<open>%.1f\<close>\<close>

text \<open>
  For a finite value: sign, integer part, a point and one decimal, the exact value
  rounded to the nearest tenth and a tie to the even one. The negative zero, the
  infinities and NaN are printed as the C library prints them.
\<close>

definition decimal_digit :: "nat \<Rightarrow> char" where
  "decimal_digit n = ''0123456789'' ! n"

fun show_nat :: "nat \<Rightarrow> string" where
  "show_nat n = (if n < 10 then [decimal_digit n] else show_nat (n div 10) @ [decimal_digit (n mod 10)])"

declare show_nat.simps [simp del]

definition printf_1f :: "float32 \<Rightarrow> string" where
  "printf_1f x =
     (case x of
        Val r \<Rightarrow>
          (let tenths = nat (round_half_even (\<bar>r\<bar> * 10))
           in (if r < 0 then ''-'' else []) @ show_nat (tenths div 10) @ ''.'' @ show_nat (tenths mod 10))
      | NegZero \<Rightarrow> ''-0.0''
      | PInf \<Rightarrow> ''inf''
      | NInf \<Rightarrow> ''-inf''
      | NaN \<Rightarrow> ''nan'')"

text \<open>
  A one-decimal number: an optional minus sign, one digit or more, a point and one
  digit.
\<close>

definition is_digit :: "char \<Rightarrow> bool" where
  "is_digit c = (c \<in> set ''0123456789'')"

definition one_decimal :: "string \<Rightarrow> bool" where
  "one_decimal s =
     (case rev (if take 1 s = ''-'' then drop 1 s else s) of
        d # p # ds \<Rightarrow> is_digit d \<and> p = CHR ''.'' \<and> ds \<noteq> [] \<and> list_all is_digit ds
      | _ \<Rightarrow> False)"

subsection \<open>A concrete configuration\<close>

definition example_config :: config where
  "example_config =
     \<lparr>CONFIG_WIFI_MAXIMUM_RETRY = 2,
      CONFIG_MQTT_CLIENT_ID = ''salt_level_monitor'',
      CONFIG_TANK_HEIGHT_CM = 100,
      CONFIG_READING_INTERVAL_SEC = 60\<rparr>"

text \<open>
  The same with a tank of 1000 cm. At the reading 14.5 cm the exact quotient is
  98.55; the three rounded operations give 12917145 / 131072, a little below it.
\<close>

definition tall_tank_config :: config where
  "tall_tank_config = example_config\<lparr>CONFIG_TANK_HEIGHT_CM := 1000\<rparr>"

text \<open>
  The session connects, the task runs up to its first measurement, the session
  drops for one cycle and connects again.
\<close>

definition reconnect_trace :: "sys_event list" where
  "reconnect_trace =
     [Mqtt_event MQTT_EVENT_CONNECTED,
      Sensor_task_step 0, Sensor_task_step 0, Sensor_task_step 0,
      Sensor_task_step 1,
      Mqtt_event MQTT_EVENT_DISCONNECTED,
      Sensor_task_step 0,
      Mqtt_event MQTT_EVENT_CONNECTED,
      Sensor_task_step 2]"

text \<open>The session drops during the settle delay of the task.\<close>

definition early_drop_trace :: "sys_event list" where
  "early_drop_trace =
     [Mqtt_event MQTT_EVENT_CONNECTED,
      Sensor_task_step 0, Sensor_task_step 0,
      Mqtt_event MQTT_EVENT_DISCONNECTED,
      Sensor_task_step 0,
      Mqtt_event MQTT_EVENT_CONNECTED,
      Sensor_task_step 1]"

text \<open>The delays of an execution, in milliseconds.\<close>

fun delays :: "action list \<Rightarrow> 32 word list" where
  "delays [] = []"
| "delays (VTaskDelay_ms ms # acts) = ms # delays acts"
| "delays (a # acts) = delays acts"

text \<open>A state at the head of the measurement loop, the session connected.\<close>

definition running_state :: sys_state where
  "running_state = \<lparr>mqtt_connected = True, phase = Running, count = 0\<rparr>"

subsection \<open>Quantities of the proofs\<close>

text \<open>
  The number of bits that rounding drops from a value counted in units of the
  least subnormal value, and the rounding of such a value.
\<close>

definition binary32_shift :: "real \<Rightarrow> nat" where
  "binary32_shift y = nat (bitlen \<lfloor>y\<rfloor> - 24)"

definition round_units :: "real \<Rightarrow> real" where
  "round_units y = of_int (round_half_even (y / 2 ^ binary32_shift y)) * 2 ^ binary32_shift y"

text \<open>
  The values other than NaN in the order of the comparisons, as real numbers: an
  infinity is the overflow threshold with its sign, and an operation saturates
  there.
\<close>

definition float_key :: "float32 \<Rightarrow> real" where
  "float_key a = (case a of Val r \<Rightarrow> r | NegZero \<Rightarrow> 0 | PInf \<Rightarrow> binary32_overflow | NInf \<Rightarrow> - binary32_overflow | NaN \<Rightarrow> 0)"

definition in_format :: "float32 \<Rightarrow> bool" where
  "in_format a = (case a of Val r \<Rightarrow> \<bar>r\<bar> < binary32_overflow | NaN \<Rightarrow> False | _ \<Rightarrow> True)"

definition saturate :: "real \<Rightarrow> real" where
  "saturate x = max (- binary32_overflow) (min (binary32_overflow) x)"

definition round_sat :: "real \<Rightarrow> real" where
  "round_sat x = saturate (round_binary32 x)"

definition div_sat :: "real \<Rightarrow> real \<Rightarrow> real" where
  "div_sat k t = (if binary32_overflow \<le> \<bar>k\<bar> then k else round_sat (k / t))"

definition mul_sat :: "real \<Rightarrow> real \<Rightarrow> real" where
  "mul_sat k c = (if binary32_overflow \<le> \<bar>k\<bar> then k else round_sat (k * c))"

text \<open>
  The formula of the specification with each of its three operations rounded to
  binary32.
\<close>

definition percentage_binary32 :: "real \<Rightarrow> real \<Rightarrow> real" where
  "percentage_binary32 tank_height distance =
     clamp (mul_sat (div_sat (round_sat (tank_height - distance)) tank_height) 100) 0 100"

text \<open>The two \<open>if\<close> statements of \<open>calculate_percentage\<close>.\<close>

definition clamp_ifs :: "float32 \<Rightarrow> float32" where
  "clamp_ifs percentage =
     (let percentage = (if flt percentage (float_of_int 0) then float_of_int 0 else percentage);
          percentage = (if flt (float_of_int 100) percentage then float_of_int 100 else percentage)
      in percentage)"

definition percentage_in_range :: "float32 \<Rightarrow> bool" where
  "percentage_in_range a = (is_finite a \<and> 0 \<le> float_value a \<and> float_value a \<le> 100)"

section \<open>Properties\<close>

subsection \<open>Rounding to binary32\<close>

lemma round_half_even_int [simp]: "round_half_even (of_int n) = n"
  by (simp add: round_half_even_def)

lemma round_half_even_mono:
  assumes "a \<le> b"
  shows "round_half_even a \<le> round_half_even b"
proof -
  have f: "\<lfloor>a\<rfloor> \<le> \<lfloor>b\<rfloor>" using assms by (rule floor_mono)
  show ?thesis
  proof (cases "\<lfloor>a\<rfloor> = \<lfloor>b\<rfloor>")
    case True
    then show ?thesis using assms
      by (auto simp add: round_half_even_def)
  next
    case False
    with f have "\<lfloor>a\<rfloor> + 1 \<le> \<lfloor>b\<rfloor>" by simp
    moreover have "round_half_even a \<le> \<lfloor>a\<rfloor> + 1"
      by (simp add: round_half_even_def)
    moreover have "\<lfloor>b\<rfloor> \<le> round_half_even b"
      by (simp add: round_half_even_def)
    ultimately show ?thesis by linarith
  qed
qed

lemma round_half_even_near: "\<bar>of_int (round_half_even y) - y\<bar> \<le> 1 / 2"
  unfolding round_half_even_def
  by (auto simp add: abs_le_iff)

lemma least_subnormal_pos: "0 < least_subnormal"
  by (simp add: least_subnormal_def)

lemma round_magnitude_shift:
  "round_magnitude x =
     of_int (round_half_even (x / least_subnormal / 2 ^ binary32_shift (x / least_subnormal)))
       * 2 ^ binary32_shift (x / least_subnormal) * least_subnormal"
  by (simp add: round_magnitude_def binary32_shift_def Let_def)

lemma binary32_shift_upper:
  assumes "0 \<le> y"
  shows "y < 2 ^ (binary32_shift y + 24)"
proof -
  define w where "w = int (binary32_shift y) + 24"
  have "bitlen \<lfloor>y\<rfloor> \<le> w"
    by (simp add: w_def binary32_shift_def)
  then have "\<lfloor>y\<rfloor> < 2 ^ nat w"
    by (simp add: bitlen_le_iff_power)
  then have "y < real_of_int (2 ^ nat w)"
    by (simp only: floor_less_iff)
  then have "y < 2 ^ nat w" by simp
  moreover have "nat w = binary32_shift y + 24"
    by (simp add: w_def nat_add_distrib)
  ultimately show ?thesis by simp
qed

lemma binary32_shift_lower:
  assumes "0 < binary32_shift y"
  shows "2 ^ (binary32_shift y + 23) \<le> y"
proof -
  have b: "bitlen \<lfloor>y\<rfloor> = int (binary32_shift y) + 24"
    using assms by (simp add: binary32_shift_def)
  then have "int (binary32_shift y) + 24 \<le> bitlen \<lfloor>y\<rfloor>" by simp
  then have "2 ^ (nat (int (binary32_shift y) + 24) - 1) \<le> \<lfloor>y\<rfloor>"
    by (simp add: bitlen_ge_iff_power)
  moreover have "nat (int (binary32_shift y) + 24) - 1 = binary32_shift y + 23"
    by (simp add: nat_add_distrib)
  ultimately have "(2::int) ^ (binary32_shift y + 23) \<le> \<lfloor>y\<rfloor>" by simp
  then have "real_of_int (2 ^ (binary32_shift y + 23)) \<le> y"
    by (simp only: le_floor_iff)
  then show ?thesis by simp
qed

lemma binary32_shift_mono:
  assumes "y1 \<le> y2"
  shows "binary32_shift y1 \<le> binary32_shift y2"
proof -
  have "\<lfloor>y1\<rfloor> \<le> \<lfloor>y2\<rfloor>" using assms by (rule floor_mono)
  then have "bitlen \<lfloor>y1\<rfloor> \<le> bitlen \<lfloor>y2\<rfloor>"
    by (simp add: bitlen_def floorlog_mono)
  then show ?thesis by (simp add: binary32_shift_def)
qed

lemma round_half_even_nonneg:
  assumes "0 \<le> y"
  shows "0 \<le> round_half_even y"
  using round_half_even_mono [OF assms] round_half_even_int [of 0] by simp

lemma round_magnitude_nonneg:
  assumes "0 \<le> x"
  shows "0 \<le> round_magnitude x"
proof -
  have "0 \<le> x / least_subnormal / 2 ^ binary32_shift (x / least_subnormal)"
    using assms least_subnormal_pos by simp
  then have "0 \<le> round_half_even (x / least_subnormal / 2 ^ binary32_shift (x / least_subnormal))"
    by (rule round_half_even_nonneg)
  then show ?thesis
    using least_subnormal_pos by (simp add: round_magnitude_shift)
qed

lemma round_magnitude_units:
  "round_magnitude x = round_units (x / least_subnormal) * least_subnormal"
  by (simp add: round_magnitude_shift round_units_def)

lemma round_units_upper:
  assumes "0 \<le> y"
  shows "round_units y \<le> 2 ^ (binary32_shift y + 24)"
proof -
  let ?s = "binary32_shift y"
  have "y < 2 ^ (?s + 24)" using assms by (rule binary32_shift_upper)
  then have "y / 2 ^ ?s \<le> 2 ^ 24"
    by (simp add: field_simps power_add)
  then have "round_half_even (y / 2 ^ ?s) \<le> round_half_even (of_int (2 ^ 24))"
    using round_half_even_mono [of "y / 2 ^ ?s" "of_int (2 ^ 24)"] by simp
  then have "round_half_even (y / 2 ^ ?s) \<le> 2 ^ 24"
    by (simp only: round_half_even_int)
  then have "real_of_int (round_half_even (y / 2 ^ ?s)) \<le> real_of_int (2 ^ 24)"
    by (simp only: of_int_le_iff)
  then have "real_of_int (round_half_even (y / 2 ^ ?s)) * 2 ^ ?s \<le> 2 ^ 24 * 2 ^ ?s"
    by (simp add: mult_right_mono)
  then show ?thesis by (simp add: round_units_def power_add mult.commute)
qed

lemma round_units_lower:
  assumes "0 < binary32_shift y"
  shows "2 ^ (binary32_shift y + 23) \<le> round_units y"
proof -
  let ?s = "binary32_shift y"
  have "2 ^ (?s + 23) \<le> y" using assms by (rule binary32_shift_lower)
  then have "2 ^ 23 \<le> y / 2 ^ ?s"
    by (simp add: field_simps power_add)
  then have "round_half_even (of_int (2 ^ 23)) \<le> round_half_even (y / 2 ^ ?s)"
    using round_half_even_mono [of "of_int (2 ^ 23)" "y / 2 ^ ?s"] by simp
  then have "2 ^ 23 \<le> round_half_even (y / 2 ^ ?s)"
    by (simp only: round_half_even_int)
  then have "real_of_int (2 ^ 23) \<le> real_of_int (round_half_even (y / 2 ^ ?s))"
    by (simp only: of_int_le_iff)
  then have "2 ^ 23 * 2 ^ ?s \<le> real_of_int (round_half_even (y / 2 ^ ?s)) * 2 ^ ?s"
    by (simp add: mult_right_mono)
  then show ?thesis by (simp add: round_units_def power_add mult.commute)
qed

lemma round_units_mono:
  assumes "0 \<le> y1" and "y1 \<le> y2"
  shows "round_units y1 \<le> round_units y2"
proof (cases "binary32_shift y1 = binary32_shift y2")
  case True
  have "y1 / 2 ^ binary32_shift y2 \<le> y2 / 2 ^ binary32_shift y2"
    using assms(2) by (simp add: divide_right_mono)
  then have "round_half_even (y1 / 2 ^ binary32_shift y2)
      \<le> round_half_even (y2 / 2 ^ binary32_shift y2)"
    by (rule round_half_even_mono)
  then show ?thesis
    by (simp add: round_units_def True mult_right_mono)
next
  case False
  with binary32_shift_mono [OF assms(2)]
  have less: "binary32_shift y1 < binary32_shift y2" by simp
  then have pos: "0 < binary32_shift y2" by simp
  have "round_units y1 \<le> 2 ^ (binary32_shift y1 + 24)"
    using assms(1) by (rule round_units_upper)
  also have "\<dots> \<le> (2::real) ^ (binary32_shift y2 + 23)"
    using less by (intro power_increasing) simp_all
  also have "\<dots> \<le> round_units y2"
    using pos by (rule round_units_lower)
  finally show ?thesis .
qed

lemma round_magnitude_mono:
  assumes "0 \<le> x1" and "x1 \<le> x2"
  shows "round_magnitude x1 \<le> round_magnitude x2"
proof -
  have "round_units (x1 / least_subnormal) \<le> round_units (x2 / least_subnormal)"
    using assms least_subnormal_pos by (intro round_units_mono) (simp_all add: divide_right_mono)
  then show ?thesis
    using least_subnormal_pos by (simp add: round_magnitude_units)
qed

lemma round_binary32_mono:
  assumes "x1 \<le> x2"
  shows "round_binary32 x1 \<le> round_binary32 x2"
proof -
  consider "x1 < 0" "x2 < 0" | "x1 < 0" "0 \<le> x2" | "0 \<le> x1" by linarith
  then show ?thesis
  proof cases
    case 1
    then have "round_magnitude (- x2) \<le> round_magnitude (- x1)"
      using assms by (intro round_magnitude_mono) simp_all
    with 1 show ?thesis by (simp add: round_binary32_def)
  next
    case 2
    then have "0 \<le> round_magnitude (- x1)" "0 \<le> round_magnitude x2"
      by (simp_all add: round_magnitude_nonneg)
    with 2 show ?thesis by (simp add: round_binary32_def)
  next
    case 3
    then have "round_magnitude x1 \<le> round_magnitude x2"
      using assms by (intro round_magnitude_mono) simp_all
    with 3 assms show ?thesis by (simp add: round_binary32_def)
  qed
qed

lemma binary32_shift_eq:
  assumes "2 ^ (s + 23) \<le> y" and "y < 2 ^ (s + 24)"
  shows "binary32_shift y = s"
proof -
  have "(2::real) ^ (s + 23) = real_of_int (2 ^ (s + 23))" by simp
  with assms(1) have "(2::int) ^ (s + 23) \<le> \<lfloor>y\<rfloor>"
    by (simp only: le_floor_iff)
  then have lo: "int s + 24 \<le> bitlen \<lfloor>y\<rfloor>"
    by (simp add: bitlen_ge_iff_power nat_add_distrib add.commute)
  have "(2::real) ^ (s + 24) = real_of_int (2 ^ (s + 24))" by simp
  with assms(2) have "\<lfloor>y\<rfloor> < 2 ^ (s + 24)"
    by (simp only: floor_less_iff)
  then have hi: "bitlen \<lfloor>y\<rfloor> \<le> int s + 24"
    by (simp add: bitlen_le_iff_power nat_add_distrib add.commute)
  from lo hi show ?thesis by (simp add: binary32_shift_def)
qed

lemma binary32_shift_small:
  assumes "y < 2 ^ 24"
  shows "binary32_shift y = 0"
proof -
  have "(2::real) ^ 24 = real_of_int (2 ^ 24)" by simp
  with assms have "\<lfloor>y\<rfloor> < 2 ^ 24"
    by (simp only: floor_less_iff)
  then have "bitlen \<lfloor>y\<rfloor> \<le> 24"
    by (simp add: bitlen_le_iff_power)
  then show ?thesis by (simp add: binary32_shift_def)
qed

lemma round_units_exact_less:
  assumes "0 \<le> n" and "n < 2 ^ 24"
  shows "round_units (of_int n * 2 ^ k) = of_int n * 2 ^ k"
proof -
  define y where "y = real_of_int n * 2 ^ k"
  define s where "s = binary32_shift y"
  have n: "real_of_int n < 2 ^ 24"
    using assms(2) by (metis of_int_less_iff of_int_numeral of_int_power)
  have "s \<le> k"
  proof (rule ccontr)
    assume "\<not> s \<le> k"
    then have pos: "0 < binary32_shift y" and big: "k + 1 \<le> s"
      by (simp_all add: s_def)
    have "(2::real) ^ (k + 24) \<le> 2 ^ (s + 23)"
      using big by (intro power_increasing) simp_all
    also have "\<dots> \<le> y"
      unfolding s_def using pos by (rule binary32_shift_lower)
    finally have "(2::real) ^ 24 * 2 ^ k \<le> real_of_int n * 2 ^ k"
      by (simp add: y_def power_add mult.commute)
    then have "(2::real) ^ 24 \<le> real_of_int n" by simp
    with n show False by simp
  qed
  then have "(2::real) ^ (k - s) = 2 ^ k / 2 ^ s"
    by (simp add: power_diff)
  then have m: "y / 2 ^ s = of_int (n * 2 ^ (k - s))"
    by (simp add: y_def)
  have "round_units y = of_int (round_half_even (y / 2 ^ s)) * 2 ^ s"
    by (simp add: round_units_def s_def)
  also have "\<dots> = of_int (n * 2 ^ (k - s)) * 2 ^ s"
    by (simp only: m round_half_even_int)
  also have "\<dots> = y / 2 ^ s * 2 ^ s" by (simp only: m)
  also have "\<dots> = y" by simp
  finally show ?thesis by (simp add: y_def)
qed

lemma round_units_exact:
  assumes "0 \<le> n" and "n \<le> 2 ^ 24"
  shows "round_units (of_int n * 2 ^ k) = of_int n * 2 ^ k"
proof (cases "n = 2 ^ 24")
  case True
  have "round_units (of_int (2 ^ 23) * 2 ^ (k + 1)) = of_int (2 ^ 23) * 2 ^ (k + 1)"
    by (rule round_units_exact_less) simp_all
  then show ?thesis by (simp add: True)
next
  case False
  with assms(2) have "n < 2 ^ 24" by simp
  with assms(1) show ?thesis by (rule round_units_exact_less)
qed

text \<open>The rounded value is a value of the format: rounding it again changes nothing.\<close>

lemma round_units_form:
  assumes "0 \<le> y"
  shows "\<exists>n. 0 \<le> n \<and> n \<le> 2 ^ 24 \<and> round_units y = of_int n * 2 ^ binary32_shift y"
proof -
  let ?s = "binary32_shift y"
  let ?n = "round_half_even (y / 2 ^ ?s)"
  have "0 \<le> y / 2 ^ ?s" using assms by simp
  then have "round_half_even (of_int 0) \<le> ?n"
    using round_half_even_mono [of "of_int 0" "y / 2 ^ ?s"] by simp
  then have n0: "0 \<le> ?n" by (simp only: round_half_even_int)
  have "y < 2 ^ (?s + 24)" using assms by (rule binary32_shift_upper)
  then have "y / 2 ^ ?s \<le> of_int (2 ^ 24)"
    by (simp add: field_simps power_add)
  then have "?n \<le> round_half_even (of_int (2 ^ 24))"
    by (rule round_half_even_mono)
  then have n1: "?n \<le> 2 ^ 24" by (simp only: round_half_even_int)
  from n0 n1 show ?thesis by (auto simp add: round_units_def)
qed

lemma round_magnitude_exact:
  assumes "0 \<le> n" and "n \<le> 2 ^ 24"
  shows "round_magnitude (of_int n * 2 ^ k * least_subnormal) = of_int n * 2 ^ k * least_subnormal"
proof -
  have "of_int n * 2 ^ k * least_subnormal / least_subnormal = real_of_int n * 2 ^ k"
    using least_subnormal_pos by simp
  then show ?thesis
    by (simp only: round_magnitude_units round_units_exact [OF assms])
qed

lemma round_magnitude_form:
  assumes "0 \<le> x"
  shows "\<exists>n. 0 \<le> n \<and> n \<le> 2 ^ 24
           \<and> round_magnitude x = of_int n * 2 ^ binary32_shift (x / least_subnormal) * least_subnormal"
proof -
  have "0 \<le> x / least_subnormal" using assms least_subnormal_pos by simp
  then show ?thesis
    using round_units_form [of "x / least_subnormal"] by (auto simp add: round_magnitude_units)
qed

lemma round_magnitude_pow2_mult:
  assumes "0 \<le> n" and "n \<le> 2 ^ 24"
  shows "round_magnitude (of_int n * 2 ^ j) = of_int n * 2 ^ j"
proof -
  have "real_of_int n * 2 ^ (j + 149) * least_subnormal = real_of_int n * 2 ^ j"
    by (simp add: least_subnormal_def power_add)
  with round_magnitude_exact [OF assms, of "j + 149"] show ?thesis
    by (simp only:)
qed

lemma round_magnitude_int:
  assumes "0 \<le> n" and "n \<le> 2 ^ 24"
  shows "round_magnitude (of_int n) = of_int n"
  using round_magnitude_pow2_mult [OF assms, of 0] by simp

lemma round_magnitude_half:
  assumes "0 \<le> n" and "n \<le> 2 ^ 24"
  shows "round_magnitude (of_int n / 2) = of_int n / 2"
proof -
  have "real_of_int n * 2 ^ 148 * least_subnormal = real_of_int n / 2"
    by (simp add: least_subnormal_def)
  with round_magnitude_exact [OF assms, of 148] show ?thesis
    by (simp only:)
qed

lemma round_binary32_int:
  assumes "\<bar>n\<bar> \<le> 2 ^ 24"
  shows "round_binary32 (of_int n) = of_int n"
proof (cases "n < 0")
  case True
  then have "round_magnitude (of_int (- n)) = of_int (- n)"
    using assms by (intro round_magnitude_int) simp_all
  with True show ?thesis by (simp add: round_binary32_def)
next
  case False
  then have "round_magnitude (of_int n) = of_int n"
    using assms by (intro round_magnitude_int) simp_all
  with False show ?thesis by (simp add: round_binary32_def)
qed

lemma round_binary32_half:
  assumes "\<bar>n\<bar> \<le> 2 ^ 24"
  shows "round_binary32 (of_int n / 2) = of_int n / 2"
proof (cases "n < 0")
  case True
  then have "round_magnitude (of_int (- n) / 2) = of_int (- n) / 2"
    using assms by (intro round_magnitude_half) simp_all
  with True show ?thesis by (simp add: round_binary32_def)
next
  case False
  then have "round_magnitude (of_int n / 2) = of_int n / 2"
    using assms by (intro round_magnitude_half) simp_all
  with False show ?thesis by (simp add: round_binary32_def)
qed

lemma round_binary32_pow2_mult:
  assumes "0 \<le> n" and "n \<le> 2 ^ 24"
  shows "round_binary32 (of_int n * 2 ^ j) = of_int n * 2 ^ j"
proof -
  have "\<not> real_of_int n * 2 ^ j < 0"
    using assms(1) by (simp add: not_less)
  then show ?thesis
    by (simp add: round_binary32_def round_magnitude_pow2_mult [OF assms])
qed

text \<open>Evaluation at a value whose binade is given: \<open>s + 24\<close> bits before rounding.\<close>

lemma round_binary32_eval:
  assumes "2 ^ (s + 23) \<le> x * 2 ^ 149" and "x * 2 ^ 149 < 2 ^ (s + 24)"
  shows "round_binary32 x = of_int (round_half_even (x * 2 ^ 149 / 2 ^ s)) * 2 ^ s / 2 ^ 149"
proof -
  have u: "x / least_subnormal = x * 2 ^ 149"
    by (simp add: least_subnormal_def)
  have "0 < x * 2 ^ 149"
    using assms(1) by (meson less_le_trans zero_less_numeral zero_less_power)
  then have "\<not> x < 0" by (simp add: zero_less_mult_iff)
  moreover have "binary32_shift (x * 2 ^ 149) = s"
    using assms by (rule binary32_shift_eq)
  ultimately have "round_binary32 x
      = of_int (round_half_even (x * 2 ^ 149 / 2 ^ s)) * 2 ^ s * least_subnormal"
    by (simp only: round_binary32_def round_magnitude_shift u if_False)
  then show ?thesis by (simp add: least_subnormal_def)
qed

lemma binary32_overflow_pos: "0 < binary32_overflow"
  by (simp add: binary32_overflow_def)

lemma round_magnitude_zero [simp]: "round_magnitude 0 = 0"
  using round_magnitude_int [of 0] by simp

lemma round_binary32_zero [simp]: "round_binary32 0 = 0"
  by (simp add: round_binary32_def)

lemma round_binary32_sign:
  "x \<le> 0 \<Longrightarrow> round_binary32 x \<le> 0" "0 \<le> x \<Longrightarrow> 0 \<le> round_binary32 x"
  using round_binary32_mono [of x 0] round_binary32_mono [of 0 x] by simp_all

lemma saturate_mono: "x \<le> y \<Longrightarrow> saturate x \<le> saturate y"
  by (simp add: saturate_def max_def min_def)

lemma saturate_bounds: "- binary32_overflow \<le> saturate x" "saturate x \<le> binary32_overflow"
  using binary32_overflow_pos by (simp_all add: saturate_def max_def min_def)

lemma round_sat_mono: "x \<le> y \<Longrightarrow> round_sat x \<le> round_sat y"
  by (simp add: round_sat_def saturate_mono round_binary32_mono)

lemma round_sat_bounds: "- binary32_overflow \<le> round_sat x" "round_sat x \<le> binary32_overflow"
  by (simp_all add: round_sat_def saturate_bounds)

lemma div_sat_bounds:
  assumes "\<bar>k\<bar> \<le> binary32_overflow"
  shows "\<bar>div_sat k t\<bar> \<le> binary32_overflow"
  using assms round_sat_bounds [of "k / t"] by (simp add: div_sat_def abs_le_iff)

lemma mul_sat_bounds:
  assumes "\<bar>k\<bar> \<le> binary32_overflow"
  shows "\<bar>mul_sat k c\<bar> \<le> binary32_overflow"
  using assms round_sat_bounds [of "k * c"] by (simp add: mul_sat_def abs_le_iff)

lemma div_sat_mono:
  assumes "0 < t" and "\<bar>k1\<bar> \<le> binary32_overflow" and "\<bar>k2\<bar> \<le> binary32_overflow" and "k1 \<le> k2"
  shows "div_sat k1 t \<le> div_sat k2 t"
proof -
  have m: "round_sat (k1 / t) \<le> round_sat (k2 / t)"
    using assms(1,4) by (intro round_sat_mono) (simp add: divide_right_mono)
  show ?thesis
    using assms(2-4) m round_sat_bounds [of "k1 / t"] round_sat_bounds [of "k2 / t"]
    by (auto simp add: div_sat_def abs_le_iff split: if_splits)
qed

lemma mul_sat_mono:
  assumes "0 < c" and "\<bar>k1\<bar> \<le> binary32_overflow" and "\<bar>k2\<bar> \<le> binary32_overflow" and "k1 \<le> k2"
  shows "mul_sat k1 c \<le> mul_sat k2 c"
proof -
  have m: "round_sat (k1 * c) \<le> round_sat (k2 * c)"
    using assms(1,4) by (intro round_sat_mono) (simp add: mult_right_mono)
  show ?thesis
    using assms(2-4) m round_sat_bounds [of "k1 * c"] round_sat_bounds [of "k2 * c"]
    by (auto simp add: mul_sat_def abs_le_iff split: if_splits)
qed

lemma rounded_key:
  assumes "x < 0 \<longrightarrow> negative" and "0 < x \<longrightarrow> \<not> negative"
  shows "float_key (rounded negative x) = round_sat x \<and> in_format (rounded negative x)"
proof -
  consider "x < 0" | "x = 0" | "0 < x" by linarith
  then show ?thesis
  proof cases
    case 1
    then have "round_binary32 x \<le> 0" by (simp add: round_binary32_sign)
    with 1 assms binary32_overflow_pos show ?thesis
      by (auto simp add: rounded_def Let_def signed_inf_def signed_zero_def float_key_def
            in_format_def round_sat_def saturate_def max_def min_def)
  next
    case 2
    with binary32_overflow_pos show ?thesis
      by (simp add: rounded_def Let_def signed_zero_def float_key_def in_format_def
            round_sat_def saturate_def)
  next
    case 3
    then have "0 \<le> round_binary32 x" by (simp add: round_binary32_sign)
    with 3 assms binary32_overflow_pos show ?thesis
      by (auto simp add: rounded_def Let_def signed_inf_def signed_zero_def float_key_def
            in_format_def round_sat_def saturate_def max_def min_def)
  qed
qed

lemma round_magnitude_idem:
  assumes "0 \<le> y"
  shows "round_magnitude (round_magnitude y) = round_magnitude y"
proof -
  obtain n where n: "0 \<le> n" "n \<le> 2 ^ 24"
    "round_magnitude y = of_int n * 2 ^ binary32_shift (y / least_subnormal) * least_subnormal"
    using round_magnitude_form [OF assms] by blast
  show ?thesis
    by (simp only: n(3) round_magnitude_exact [OF n(1,2)])
qed

lemma round_binary32_idem: "round_binary32 (round_binary32 x) = round_binary32 x"
proof (cases "x < 0")
  case True
  then have "0 \<le> round_magnitude (- x)" by (simp add: round_magnitude_nonneg)
  then show ?thesis
    using True round_magnitude_idem [of "- x"]
    by (cases "round_magnitude (- x) = 0") (simp_all add: round_binary32_def)
next
  case False
  then have "0 \<le> round_magnitude x" by (simp add: round_magnitude_nonneg)
  then show ?thesis
    using False round_magnitude_idem [of x] by (simp add: round_binary32_def)
qed

text \<open>The tank height as a \<open>float\<close>, for a configured height above 0.\<close>

lemma tank_height_float:
  assumes "0 < i" and "i < 2 ^ 31"
  shows "\<exists>t. float_of_int i = Val t \<and> 1 \<le> t \<and> t \<le> 2 ^ 31
           \<and> round_binary32 t = t \<and> round_binary32 (t / 2) = t / 2"
proof -
  define t where "t = round_binary32 (of_int i)"
  have "round_binary32 (of_int 1) \<le> t"
    unfolding t_def using assms(1) by (intro round_binary32_mono) simp
  then have lo: "1 \<le> t"
    using round_binary32_int [of 1] by simp
  have "t \<le> round_binary32 (of_int 1 * 2 ^ 31)"
    unfolding t_def using assms(2) by (intro round_binary32_mono) simp
  then have hi: "t \<le> 2 ^ 31"
    using round_binary32_pow2_mult [of 1 31] by simp
  have idem: "round_binary32 t = t"
    by (simp add: t_def round_binary32_idem)
  have half: "round_binary32 (t / 2) = t / 2"
  proof -
    define y where "y = real_of_int i / least_subnormal"
    have i1: "1 \<le> real_of_int i" using assms(1) by simp
    have "1 / least_subnormal \<le> y"
      unfolding y_def using i1 least_subnormal_pos by (intro divide_right_mono) simp_all
    then have y149: "2 ^ 149 \<le> y" by (simp add: least_subnormal_def)
    then have y0: "0 \<le> y" by (meson order_trans zero_le_numeral zero_le_power)
    have "(2::real) ^ 149 < 2 ^ (binary32_shift y + 24)"
      using y149 binary32_shift_upper [OF y0] by linarith
    then have "149 < binary32_shift y + 24"
      by (simp only: power_strict_increasing_iff one_less_numeral_iff semiring_norm)
    then obtain k where k: "binary32_shift y = Suc k"
      by (cases "binary32_shift y") simp_all
    obtain n where n: "0 \<le> n" "n \<le> 2 ^ 24"
      "round_magnitude (of_int i) = of_int n * 2 ^ binary32_shift y * least_subnormal"
      using round_magnitude_form [of "of_int i"] assms(1) unfolding y_def by auto
    have "t = round_magnitude (of_int i)"
      using assms(1) by (simp add: t_def round_binary32_def)
    then have "t = of_int n * 2 ^ Suc k * least_subnormal"
      by (simp only: n(3) k)
    then have t2: "t / 2 = of_int n * 2 ^ k * least_subnormal" by simp
    have "\<not> t / 2 < 0" using lo by simp
    then have "round_binary32 (t / 2) = round_magnitude (t / 2)"
      by (simp add: round_binary32_def)
    also have "\<dots> = t / 2"
      by (simp only: t2 round_magnitude_exact [OF n(1,2)])
    finally show ?thesis .
  qed
  have "t < binary32_overflow" using hi by (simp add: binary32_overflow_def)
  then have "float_of_int i = Val t"
    using lo assms(1) by (simp add: float_of_int_def rounded_def t_def [symmetric] Let_def)
  with lo hi idem half show ?thesis by blast
qed

lemma float_of_int_small:
  assumes "\<bar>i\<bar> \<le> 2 ^ 24"
  shows "float_of_int i = Val (of_int i)"
proof -
  have "\<bar>real_of_int i\<bar> \<le> 2 ^ 24"
    using assms by (metis of_int_abs of_int_le_iff of_int_numeral of_int_power)
  then have "\<bar>real_of_int i\<bar> < binary32_overflow"
    by (simp add: binary32_overflow_def)
  then show ?thesis
    using round_binary32_int [OF assms]
    by (simp add: float_of_int_def rounded_def Let_def signed_zero_def)
qed

lemma float_of_int_consts: "float_of_int 0 = Val 0" "float_of_int 100 = Val 100"
  using float_of_int_small [of 0] float_of_int_small [of 100] by simp_all

lemma fsub_key:
  assumes "is_finite d"
  shows "float_key (fsub (Val t) d) = round_sat (t - float_value d)
       \<and> in_format (fsub (Val t) d)"
proof -
  have z: "float_key (signed_zero n) = round_sat 0 \<and> in_format (signed_zero n)" for n
    using binary32_overflow_pos
    by (simp add: signed_zero_def float_key_def in_format_def round_sat_def saturate_def)
  show ?thesis
  proof (cases d)
    case (Val r)
    show ?thesis
    proof (cases "r = 0")
      case True
      then show ?thesis
        using z rounded_key [of t "t < 0"] Val
        by (simp add: fsub_def fneg_def fadd_def is_nan_def is_inf_def float_value_def)
    next
      case False
      then show ?thesis
        using z rounded_key [of "t - r" "t - r < 0"] Val
        by (simp add: fsub_def fneg_def fadd_def is_nan_def is_inf_def float_value_def)
    qed
  next
    case NegZero
    then show ?thesis
      using z rounded_key [of t "t < 0"]
      by (simp add: fsub_def fneg_def fadd_def is_nan_def is_inf_def float_value_def)
  qed (use assms in \<open>simp_all add: is_finite_def\<close>)
qed

lemma fdiv_key:
  assumes "in_format a" and "0 < t"
  shows "float_key (fdiv a (Val t)) = div_sat (float_key a) t \<and> in_format (fdiv a (Val t))"
proof (cases a)
  case (Val r)
  then have r: "\<bar>r\<bar> < binary32_overflow" using assms(1) by (simp add: in_format_def)
  have "r / t < 0 \<longleftrightarrow> r < 0" using assms(2) by (simp add: divide_less_0_iff)
  moreover have "0 < r / t \<longleftrightarrow> 0 < r" using assms(2) by (simp add: zero_less_divide_iff)
  ultimately have "float_key (rounded (r < 0) (r / t)) = round_sat (r / t)
      \<and> in_format (rounded (r < 0) (r / t))"
    by (intro rounded_key) auto
  then show ?thesis
    using Val r assms(2)
    by (simp add: fdiv_def is_nan_def is_inf_def is_zero_def sign_bit_def float_value_def
          float_key_def div_sat_def)
next
  case NegZero
  then show ?thesis
    using assms(2) binary32_overflow_pos
    by (simp add: fdiv_def is_nan_def is_inf_def is_zero_def sign_bit_def float_value_def
          float_key_def div_sat_def rounded_def signed_zero_def in_format_def round_sat_def
          saturate_def)
next
  case PInf
  then show ?thesis
    using assms(2) binary32_overflow_pos
    by (simp add: fdiv_def is_nan_def is_inf_def is_zero_def sign_bit_def
          float_key_def div_sat_def signed_inf_def in_format_def)
next
  case NInf
  then show ?thesis
    using assms(2) binary32_overflow_pos
    by (simp add: fdiv_def is_nan_def is_inf_def is_zero_def sign_bit_def
          float_key_def div_sat_def signed_inf_def in_format_def)
next
  case NaN
  with assms(1) show ?thesis by (simp add: in_format_def)
qed

lemma fmul_key:
  assumes "in_format a"
  shows "float_key (fmul a (Val 100)) = mul_sat (float_key a) 100 \<and> in_format (fmul a (Val 100))"
proof (cases a)
  case (Val r)
  then have r: "\<bar>r\<bar> < binary32_overflow" using assms(1) by (simp add: in_format_def)
  have "float_key (rounded (r < 0) (r * 100)) = round_sat (r * 100)
      \<and> in_format (rounded (r < 0) (r * 100))"
    by (intro rounded_key) (auto simp add: mult_less_0_iff zero_less_mult_iff)
  then show ?thesis
    using Val r
    by (simp add: fmul_def is_nan_def is_inf_def is_zero_def sign_bit_def float_value_def
          float_key_def mul_sat_def)
next
  case NegZero
  then show ?thesis
    using binary32_overflow_pos
    by (simp add: fmul_def is_nan_def is_inf_def is_zero_def sign_bit_def float_value_def
          float_key_def mul_sat_def rounded_def signed_zero_def in_format_def round_sat_def
          saturate_def)
next
  case PInf
  then show ?thesis
    using binary32_overflow_pos
    by (simp add: fmul_def is_nan_def is_inf_def is_zero_def sign_bit_def
          float_key_def mul_sat_def signed_inf_def in_format_def)
next
  case NInf
  then show ?thesis
    using binary32_overflow_pos
    by (simp add: fmul_def is_nan_def is_inf_def is_zero_def sign_bit_def
          float_key_def mul_sat_def signed_inf_def in_format_def)
next
  case NaN
  with assms show ?thesis by (simp add: in_format_def)
qed

lemma calculate_percentage_clamp_ifs:
  "calculate_percentage cfg d =
     clamp_ifs (fmul (fdiv (fsub (float_of_int (sint (CONFIG_TANK_HEIGHT_CM cfg))) d) (float_of_int (sint (CONFIG_TANK_HEIGHT_CM cfg)))) (Val 100))"
  by (simp add: calculate_percentage_def clamp_ifs_def Let_def)

lemma clamp_ifs_key:
  assumes "in_format p"
  shows "percentage_in_range (clamp_ifs p) \<and> float_value (clamp_ifs p) = clamp (float_key p) 0 100"
  using assms binary32_overflow_pos
  by (cases p)
    (auto simp add: clamp_ifs_def float_of_int_consts flt_def is_nan_def float_value_def
       float_key_def percentage_in_range_def is_finite_def in_format_def clamp_def Let_def
       binary32_overflow_def)

lemma round_magnitude_div_pow2:
  assumes "0 \<le> n" and "n \<le> 2 ^ 24" and "j \<le> 149"
  shows "round_magnitude (of_int n / 2 ^ j) = of_int n / 2 ^ j"
proof -
  have "(2::real) ^ (149 - j) = 2 ^ 149 / 2 ^ j"
    using assms(3) by (simp add: power_diff)
  then have "real_of_int n * 2 ^ (149 - j) * least_subnormal = real_of_int n / 2 ^ j"
    by (simp add: least_subnormal_def)
  with round_magnitude_exact [OF assms(1,2), of "149 - j"] show ?thesis
    by (simp only:)
qed

lemma round_binary32_div_pow2:
  assumes "\<bar>n\<bar> \<le> 2 ^ 24" and "j \<le> 149"
  shows "round_binary32 (of_int n / 2 ^ j) = of_int n / 2 ^ j"
proof (cases "n < 0")
  case True
  then have "round_magnitude (of_int (- n) / 2 ^ j) = of_int (- n) / 2 ^ j"
    using assms by (intro round_magnitude_div_pow2) simp_all
  moreover have "real_of_int n / 2 ^ j < 0"
    using True by (simp add: divide_less_0_iff)
  ultimately show ?thesis by (simp add: round_binary32_def)
next
  case False
  then have "round_magnitude (of_int n / 2 ^ j) = of_int n / 2 ^ j"
    using assms by (intro round_magnitude_div_pow2) simp_all
  moreover have "\<not> real_of_int n / 2 ^ j < 0"
    using False by (simp add: divide_less_0_iff not_less)
  ultimately show ?thesis by (simp add: round_binary32_def)
qed

lemma rounded_zero: "rounded negative 0 = signed_zero negative"
  using binary32_overflow_pos by (simp add: rounded_def Let_def)

lemma fsub_not_nan:
  assumes "\<not> is_nan d"
  shows "in_format (fsub (Val t) d)"
proof (cases d)
  case (Val r)
  then show ?thesis using fsub_key [of d t] by (simp add: is_finite_def)
next
  case NegZero
  then show ?thesis using fsub_key [of d t] by (simp add: is_finite_def)
next
  case PInf
  then show ?thesis
    by (simp add: fsub_def fneg_def fadd_def is_nan_def is_inf_def in_format_def)
next
  case NInf
  then show ?thesis
    by (simp add: fsub_def fneg_def fadd_def is_nan_def is_inf_def in_format_def)
next
  case NaN
  with assms show ?thesis by (simp add: is_nan_def)
qed

lemma calculate_percentage_range:
  assumes "0 < sint (CONFIG_TANK_HEIGHT_CM cfg)" and "\<not> is_nan d"
  shows "percentage_in_range (calculate_percentage cfg d)"
proof -
  have "sint (CONFIG_TANK_HEIGHT_CM cfg) < 2 ^ 31" using sint_lt [of "CONFIG_TANK_HEIGHT_CM cfg"] by simp
  with assms(1) obtain t where t: "float_of_int (sint (CONFIG_TANK_HEIGHT_CM cfg)) = Val t" "1 \<le> t"
    using tank_height_float [of "sint (CONFIG_TANK_HEIGHT_CM cfg)"] by blast
  then have t0: "0 < t" by simp
  have "in_format (fsub (Val t) d)" using assms(2) by (rule fsub_not_nan)
  then have "in_format (fdiv (fsub (Val t) d) (Val t))"
    using fdiv_key [OF _ t0] by blast
  then have "in_format (fmul (fdiv (fsub (Val t) d) (Val t)) (Val 100))"
    using fmul_key by blast
  then show ?thesis
    using clamp_ifs_key by (simp add: calculate_percentage_clamp_ifs t(1))
qed

lemma calculate_percentage_formula:
  assumes "0 < sint (CONFIG_TANK_HEIGHT_CM cfg)" and "is_finite d"
  shows "float_value (calculate_percentage cfg d)
       = percentage_binary32 (float_value (float_of_int (sint (CONFIG_TANK_HEIGHT_CM cfg)))) (float_value d)"
proof -
  have "sint (CONFIG_TANK_HEIGHT_CM cfg) < 2 ^ 31" using sint_lt [of "CONFIG_TANK_HEIGHT_CM cfg"] by simp
  with assms(1) obtain t where t: "float_of_int (sint (CONFIG_TANK_HEIGHT_CM cfg)) = Val t" "1 \<le> t"
    using tank_height_float [of "sint (CONFIG_TANK_HEIGHT_CM cfg)"] by blast
  then have t0: "0 < t" by simp
  from fsub_key [OF assms(2), of t]
  have 1: "float_key (fsub (Val t) d) = round_sat (t - float_value d)"
    "in_format (fsub (Val t) d)" by simp_all
  from fdiv_key [OF 1(2) t0]
  have 2: "float_key (fdiv (fsub (Val t) d) (Val t)) = div_sat (round_sat (t - float_value d)) t"
    "in_format (fdiv (fsub (Val t) d) (Val t))" by (simp_all add: 1(1))
  from fmul_key [OF 2(2)]
  have 3: "float_key (fmul (fdiv (fsub (Val t) d) (Val t)) (Val 100))
      = mul_sat (div_sat (round_sat (t - float_value d)) t) 100"
    "in_format (fmul (fdiv (fsub (Val t) d) (Val t)) (Val 100))" by (simp_all add: 2(1))
  from clamp_ifs_key [OF 3(2)] show ?thesis
    by (simp add: calculate_percentage_clamp_ifs t(1) 3(1) percentage_binary32_def float_value_def)
qed

lemma percentage_binary32_antimono:
  assumes "0 < t" and "v1 \<le> v2"
  shows "percentage_binary32 t v2 \<le> percentage_binary32 t v1"
proof -
  have b: "\<bar>round_sat x\<bar> \<le> binary32_overflow" for x
    using round_sat_bounds [of x] by (simp add: abs_le_iff)
  have "round_sat (t - v2) \<le> round_sat (t - v1)"
    using assms(2) by (intro round_sat_mono) simp
  then have "div_sat (round_sat (t - v2)) t \<le> div_sat (round_sat (t - v1)) t"
    using assms(1) b by (intro div_sat_mono) simp_all
  then have "mul_sat (div_sat (round_sat (t - v2)) t) 100
      \<le> mul_sat (div_sat (round_sat (t - v1)) t) 100"
    using b by (intro mul_sat_mono div_sat_bounds) simp_all
  then show ?thesis
    by (simp add: percentage_binary32_def clamp_def max_def min_def)
qed

lemma calculate_percentage_inf:
  assumes "0 < sint (CONFIG_TANK_HEIGHT_CM cfg)"
  shows "calculate_percentage cfg PInf = Val 0" "calculate_percentage cfg NInf = Val 100"
proof -
  have "sint (CONFIG_TANK_HEIGHT_CM cfg) < 2 ^ 31" using sint_lt [of "CONFIG_TANK_HEIGHT_CM cfg"] by simp
  with assms(1) obtain t where t: "float_of_int (sint (CONFIG_TANK_HEIGHT_CM cfg)) = Val t" "1 \<le> t"
    using tank_height_float [of "sint (CONFIG_TANK_HEIGHT_CM cfg)"] by blast
  then have t0: "0 < t" "t \<noteq> 0" "\<not> t < 0" by simp_all
  show "calculate_percentage cfg PInf = Val 0"
    using t0
    by (simp add: calculate_percentage_def t(1) float_of_int_consts fsub_def fneg_def fadd_def
          fdiv_def fmul_def flt_def is_nan_def is_inf_def is_zero_def sign_bit_def
          signed_inf_def float_value_def Let_def)
  show "calculate_percentage cfg NInf = Val 100"
    using t0
    by (simp add: calculate_percentage_def t(1) float_of_int_consts fsub_def fneg_def fadd_def
          fdiv_def fmul_def flt_def is_nan_def is_inf_def is_zero_def sign_bit_def
          signed_inf_def float_value_def Let_def)
qed

lemma calculate_percentage_nan: "calculate_percentage cfg NaN = NaN"
  by (simp add: calculate_percentage_def fsub_def fneg_def fadd_def fdiv_def fmul_def flt_def
        is_nan_def Let_def)

lemma percentage_order_binary32:
  assumes "0 < sint (CONFIG_TANK_HEIGHT_CM cfg)" and "fle d1 d2"
  shows "float_value (calculate_percentage cfg d2) \<le> float_value (calculate_percentage cfg d1)"
proof -
  have nn: "\<not> is_nan d1" "\<not> is_nan d2" and le: "\<not> flt d2 d1"
    using assms(2) by (simp_all add: fle_def)
  have "sint (CONFIG_TANK_HEIGHT_CM cfg) < 2 ^ 31" using sint_lt [of "CONFIG_TANK_HEIGHT_CM cfg"] by simp
  with assms(1) obtain t where t: "float_of_int (sint (CONFIG_TANK_HEIGHT_CM cfg)) = Val t" "1 \<le> t"
    using tank_height_float [of "sint (CONFIG_TANK_HEIGHT_CM cfg)"] by blast
  then have t0: "0 < t" by simp
  have r1: "percentage_in_range (calculate_percentage cfg d1)"
    and r2: "percentage_in_range (calculate_percentage cfg d2)"
    using assms(1) nn by (simp_all add: calculate_percentage_range)
  consider "d2 = PInf" | "d1 = NInf" | "is_finite d1" "is_finite d2"
    using nn le by (cases d1; cases d2) (simp_all add: is_nan_def flt_def is_finite_def)
  then show ?thesis
  proof cases
    case 1
    then show ?thesis
      using r1 calculate_percentage_inf(1) [OF assms(1)]
      by (simp add: percentage_in_range_def float_value_def)
  next
    case 2
    then show ?thesis
      using r2 calculate_percentage_inf(2) [OF assms(1)]
      by (simp add: percentage_in_range_def float_value_def)
  next
    case 3
    then have "float_value d1 \<le> float_value d2"
      using le by (cases d1; cases d2) (simp_all add: is_finite_def flt_def is_nan_def float_value_def)
    then have "percentage_binary32 t (float_value d2) \<le> percentage_binary32 t (float_value d1)"
      using t0 by (intro percentage_binary32_antimono)
    moreover have "float_value (float_of_int (sint (CONFIG_TANK_HEIGHT_CM cfg))) = t"
      by (simp add: t(1) float_value_def)
    ultimately show ?thesis
      by (simp only: calculate_percentage_formula [OF assms(1) 3(1)]
            calculate_percentage_formula [OF assms(1) 3(2)])
  qed
qed

lemma rounded_val:
  assumes "round_binary32 x = y" and "y \<noteq> 0" and "\<bar>y\<bar> < binary32_overflow"
  shows "rounded negative x = Val y"
  using assms by (simp add: rounded_def Let_def)

lemmas float_ops_defs =
  fsub_def fneg_def fadd_def fdiv_def fmul_def flt_def is_nan_def is_inf_def is_zero_def
  sign_bit_def float_value_def signed_zero_def signed_inf_def

lemma calculate_percentage_marks:
  assumes "0 < sint (CONFIG_TANK_HEIGHT_CM cfg)"
  shows "calculate_percentage cfg (Val 0) = Val 100"
    and "calculate_percentage cfg (float_of_int (sint (CONFIG_TANK_HEIGHT_CM cfg))) = Val 0"
    and "calculate_percentage cfg (Val (float_value (float_of_int (sint (CONFIG_TANK_HEIGHT_CM cfg))) / 2)) = Val 50"
proof -
  have "sint (CONFIG_TANK_HEIGHT_CM cfg) < 2 ^ 31" using sint_lt [of "CONFIG_TANK_HEIGHT_CM cfg"] by simp
  with assms(1) obtain t where t: "float_of_int (sint (CONFIG_TANK_HEIGHT_CM cfg)) = Val t" "1 \<le> t" "t \<le> 2 ^ 31"
    "round_binary32 t = t" "round_binary32 (t / 2) = t / 2"
    using tank_height_float [of "sint (CONFIG_TANK_HEIGHT_CM cfg)"] by blast
  then have t0: "0 < t" "t \<noteq> 0" "\<not> t < 0" "\<bar>t\<bar> < binary32_overflow"
    "\<bar>t / 2\<bar> < binary32_overflow"
    by (simp_all add: binary32_overflow_def)
  have r_t: "rounded n t = Val t" for n
    using t(4) t0 by (intro rounded_val) simp_all
  have r_half: "rounded n (t / 2) = Val (t / 2)" for n
    using t(5) t0 by (intro rounded_val) simp_all
  have r_1: "rounded n 1 = Val 1" for n
    using round_binary32_int [of 1] by (intro rounded_val) (simp_all add: binary32_overflow_def)
  have r_12: "rounded n (1 / 2) = Val (1 / 2)" for n
    using round_binary32_half [of 1] by (intro rounded_val) (simp_all add: binary32_overflow_def)
  have r_50: "rounded n 50 = Val 50" for n
    using round_binary32_int [of 50] by (intro rounded_val) (simp_all add: binary32_overflow_def)
  have r_100: "rounded n 100 = Val 100" for n
    using round_binary32_int [of 100] by (intro rounded_val) (simp_all add: binary32_overflow_def)
  show "calculate_percentage cfg (Val 0) = Val 100"
    using t0 by (simp add: calculate_percentage_def t(1) float_of_int_consts float_ops_defs
          r_t r_1 r_100 Let_def)
  show "calculate_percentage cfg (float_of_int (sint (CONFIG_TANK_HEIGHT_CM cfg))) = Val 0"
    using t0 by (simp add: calculate_percentage_def t(1) float_of_int_consts float_ops_defs
          rounded_zero Let_def)
  show "calculate_percentage cfg (Val (float_value (float_of_int (sint (CONFIG_TANK_HEIGHT_CM cfg))) / 2)) = Val 50"
    using t0 by (simp add: calculate_percentage_def t(1) float_of_int_consts float_ops_defs
          r_half r_12 r_50 Let_def)
qed

lemma round_eleven_tenths: "round_binary32 (11 / 10) = 9227469 / 8388608"
  by (simp add: round_binary32_eval [where s = 126] round_half_even_def)

lemma round_110: "round_binary32 (9227469 / 8388608 * 100) = 110"
  by (simp add: round_binary32_eval [where s = 132] round_half_even_def)

lemma round_six_tenths: "round_binary32 (6 / 10) = 5033165 / 8388608"
  by (simp add: round_binary32_eval [where s = 125] round_half_even_def)

lemma round_60: "round_binary32 (5033165 / 8388608 * 100) = 15728641 / 262144"
  by (simp add: round_binary32_eval [where s = 131] round_half_even_def)

lemma calculate_percentage_scenarios:
  assumes "sint (CONFIG_TANK_HEIGHT_CM cfg) = 100"
  shows "calculate_percentage cfg (Val 25) = Val 75"
    and "calculate_percentage cfg (Val 150) = Val 0"
    and "calculate_percentage cfg (Val (- 10)) = Val 100"
    and "calculate_percentage cfg (Val 40) = Val (15728641 / 262144)"
proof -
  have int: "rounded n (of_int k) = Val (of_int k)" if "k \<noteq> 0" "\<bar>k\<bar> \<le> 1000" for n k
  proof -
    have "\<bar>real_of_int k\<bar> \<le> 1000" using that(2) by linarith
    then show ?thesis
      using that round_binary32_int [of k]
      by (intro rounded_val) (simp_all add: binary32_overflow_def)
  qed
  have r_34: "rounded n (3 / 4) = Val (3 / 4)" for n
    using round_binary32_div_pow2 [of 3 2] by (intro rounded_val) (simp_all add: binary32_overflow_def)
  have r_m12: "rounded n (- (1 / 2)) = Val (- (1 / 2))" for n
    using round_binary32_half [of "- 1"] by (intro rounded_val) (simp_all add: binary32_overflow_def)
  have r_11: "rounded n (11 / 10) = Val (9227469 / 8388608)" for n
    using round_eleven_tenths by (intro rounded_val) (simp_all add: binary32_overflow_def)
  have r_110: "rounded n (9227469 / 8388608 * 100) = Val 110" for n
    using round_110 by (intro rounded_val) (simp_all add: binary32_overflow_def)
  have r_6: "rounded n (6 / 10) = Val (5033165 / 8388608)" for n
    using round_six_tenths by (intro rounded_val) (simp_all add: binary32_overflow_def)
  have r_60: "rounded n (5033165 / 8388608 * 100) = Val (15728641 / 262144)" for n
    using round_60 by (intro rounded_val) (simp_all add: binary32_overflow_def)
  show "calculate_percentage cfg (Val 25) = Val 75"
    using int [of 75] r_34
    by (simp add: calculate_percentage_def assms float_of_int_consts float_ops_defs Let_def)
  show "calculate_percentage cfg (Val 150) = Val 0"
    using int [of "- 50"] r_m12
    by (simp add: calculate_percentage_def assms float_of_int_consts float_ops_defs Let_def)
  show "calculate_percentage cfg (Val (- 10)) = Val 100"
    using int [of 110] r_11 r_110
    by (simp add: calculate_percentage_def assms float_of_int_consts float_ops_defs Let_def)
  show "calculate_percentage cfg (Val 40) = Val (15728641 / 262144)"
    using int [of 60] r_6 r_60
    by (simp add: calculate_percentage_def assms float_of_int_consts float_ops_defs Let_def)
qed

lemma round_units_error:
  assumes "0 \<le> y"
  shows "\<bar>round_units y - y\<bar> \<le> 1 / 2 + y / 2 ^ 24"
proof -
  define s where "s = binary32_shift y"
  have "\<bar>of_int (round_half_even (y / 2 ^ s)) - y / 2 ^ s\<bar> \<le> 1 / 2"
    by (rule round_half_even_near)
  then have "\<bar>of_int (round_half_even (y / 2 ^ s)) - y / 2 ^ s\<bar> * 2 ^ s \<le> 1 / 2 * 2 ^ s"
    by (intro mult_right_mono) simp_all
  moreover have "\<bar>of_int (round_half_even (y / 2 ^ s)) - y / 2 ^ s\<bar> * 2 ^ s
      = \<bar>round_units y - y\<bar>"
  proof -
    have "\<bar>of_int (round_half_even (y / 2 ^ s)) - y / 2 ^ s\<bar> * 2 ^ s
        = \<bar>(of_int (round_half_even (y / 2 ^ s)) - y / 2 ^ s) * 2 ^ s\<bar>"
      by (simp add: abs_mult)
    also have "(of_int (round_half_even (y / 2 ^ s)) - y / 2 ^ s) * 2 ^ s = round_units y - y"
      by (simp add: round_units_def s_def algebra_simps)
    finally show ?thesis .
  qed
  ultimately have e: "\<bar>round_units y - y\<bar> \<le> 2 ^ s / 2" by simp
  show ?thesis
  proof (cases "s = 0")
    case True
    with e assms show ?thesis by simp
  next
    case False
    then have "2 ^ (s + 23) \<le> y"
      using binary32_shift_lower [of y] by (simp add: s_def)
    then have "(2::real) ^ s / 2 \<le> y / 2 ^ 24"
      by (simp add: power_add)
    with e show ?thesis by linarith
  qed
qed

lemma round_magnitude_error:
  assumes "0 \<le> x"
  shows "\<bar>round_magnitude x - x\<bar> \<le> (1 + x) / 2 ^ 24"
proof -
  have "\<bar>round_units (x / least_subnormal) - x / least_subnormal\<bar>
      \<le> 1 / 2 + x / least_subnormal / 2 ^ 24"
    using assms least_subnormal_pos by (intro round_units_error) simp
  then have "\<bar>round_units (x / least_subnormal) - x / least_subnormal\<bar> * least_subnormal
      \<le> (1 / 2 + x / least_subnormal / 2 ^ 24) * least_subnormal"
    using least_subnormal_pos by (intro mult_right_mono) simp_all
  moreover have "\<bar>round_units (x / least_subnormal) - x / least_subnormal\<bar> * least_subnormal
      = \<bar>round_magnitude x - x\<bar>"
  proof -
    have "\<bar>round_units (x / least_subnormal) - x / least_subnormal\<bar> * least_subnormal
        = \<bar>(round_units (x / least_subnormal) - x / least_subnormal) * least_subnormal\<bar>"
      using least_subnormal_pos by (simp add: abs_mult)
    also have "(round_units (x / least_subnormal) - x / least_subnormal) * least_subnormal
        = round_magnitude x - x"
      using least_subnormal_pos by (simp add: round_magnitude_units algebra_simps)
    finally show ?thesis .
  qed
  moreover have "(1 / 2 + x / least_subnormal / 2 ^ 24) * least_subnormal
      = least_subnormal / 2 + x / 2 ^ 24"
    using least_subnormal_pos by (simp add: algebra_simps)
  moreover have "least_subnormal / 2 \<le> 1 / 2 ^ 24"
    by (simp add: least_subnormal_def)
  ultimately have "\<bar>round_magnitude x - x\<bar> \<le> 1 / 2 ^ 24 + x / 2 ^ 24" by linarith
  then show ?thesis by (simp add: add_divide_distrib)
qed

lemma round_binary32_error: "\<bar>round_binary32 x - x\<bar> \<le> (1 + \<bar>x\<bar>) / 16777216"
proof (cases "x < 0")
  case True
  have "- round_magnitude (- x) - x = - (round_magnitude (- x) - (- x))" by simp
  then have "\<bar>- round_magnitude (- x) - x\<bar> = \<bar>round_magnitude (- x) - (- x)\<bar>"
    by (simp only: abs_minus)
  then show ?thesis
    using True round_magnitude_error [of "- x"] by (simp add: round_binary32_def)
next
  case False
  then show ?thesis
    using round_magnitude_error [of x] by (simp add: round_binary32_def)
qed

lemma round_sat_error:
  assumes "\<bar>x\<bar> \<le> 2 ^ 33"
  shows "\<bar>round_sat x - x\<bar> \<le> (1 + \<bar>x\<bar>) / 16777216" and "\<bar>round_sat x\<bar> < binary32_overflow"
proof -
  have e: "\<bar>round_binary32 x - x\<bar> \<le> (1 + \<bar>x\<bar>) / 16777216" by (rule round_binary32_error)
  have "(1 + \<bar>x\<bar>) / 16777216 \<le> 1 + \<bar>x\<bar>" by (simp add: field_simps)
  moreover have "(2::real) ^ 34 = 2 * 2 ^ 33" by simp
  ultimately have "\<bar>round_binary32 x\<bar> \<le> 2 ^ 34 + 1" using e assms by linarith
  moreover have "(2::real) ^ 34 + 1 < binary32_overflow" by (simp add: binary32_overflow_def)
  ultimately have b: "\<bar>round_binary32 x\<bar> < binary32_overflow" by linarith
  then have "round_sat x = round_binary32 x"
    by (simp add: round_sat_def saturate_def max_def min_def abs_less_iff)
  with e b show "\<bar>round_sat x - x\<bar> \<le> (1 + \<bar>x\<bar>) / 16777216"
    and "\<bar>round_sat x\<bar> < binary32_overflow" by simp_all
qed

lemma clamp_lipschitz: "\<bar>clamp x lo hi - clamp y lo hi\<bar> \<le> \<bar>x - y\<bar>"
  unfolding clamp_def max_def min_def by (auto simp add: abs_if)

lemma percentage_binary32_error_near:
  assumes "1 \<le> t" and "t \<le> 2 ^ 31" and "\<bar>t - v\<bar> \<le> 2 * t"
  shows "\<bar>mul_sat (div_sat (round_sat (t - v)) t) 100 - (t - v) / t * 100\<bar> \<le> 1101 / 16777216"
proof -
  define a where "a = t - v"
  define s1 where "s1 = round_sat a"
  define s2 where "s2 = round_sat (s1 / t)"
  define s3 where "s3 = round_sat (s2 * 100)"
  have t0: "0 < t" using assms(1) by simp
  have a: "\<bar>a\<bar> \<le> 2 * t" using assms(3) by (simp add: a_def)
  then have a33: "\<bar>a\<bar> \<le> 2 ^ 33" using assms(2) by simp
  have e1: "\<bar>s1 - a\<bar> \<le> (1 + \<bar>a\<bar>) / 16777216" and b1: "\<bar>s1\<bar> < binary32_overflow"
    using round_sat_error [OF a33] by (simp_all add: s1_def)
  have "(1 + \<bar>a\<bar>) \<le> 3 * t" using a assms(1) by linarith
  then have "(1 + \<bar>a\<bar>) / 16777216 \<le> 3 * t / 16777216" by (simp add: divide_right_mono)
  with e1 have e1': "\<bar>s1 - a\<bar> \<le> 3 / 16777216 * t" by simp
  have "\<bar>s1 / t - a / t\<bar> = \<bar>s1 - a\<bar> / t"
    using t0 by (simp add: diff_divide_distrib [symmetric])
  also have "\<dots> \<le> 3 / 16777216"
    using e1' t0 by (simp add: pos_divide_le_eq)
  finally have q: "\<bar>s1 / t - a / t\<bar> \<le> 3 / 16777216" .
  have "\<bar>a / t\<bar> \<le> 2" using a t0 by (simp add: pos_divide_le_eq)
  with q have qb: "\<bar>s1 / t\<bar> \<le> 3" by linarith
  then have q33: "\<bar>s1 / t\<bar> \<le> 2 ^ 33" by simp
  have e2: "\<bar>s2 - s1 / t\<bar> \<le> (1 + \<bar>s1 / t\<bar>) / 16777216" and b2: "\<bar>s2\<bar> < binary32_overflow"
    using round_sat_error [OF q33] by (simp_all add: s2_def)
  have "(1 + \<bar>s1 / t\<bar>) / 16777216 \<le> 4 / 16777216"
    using qb by (intro divide_right_mono) linarith+
  with e2 have e2': "\<bar>s2 - s1 / t\<bar> \<le> 4 / 16777216" by linarith
  with q have e2a: "\<bar>s2 - a / t\<bar> \<le> 7 / 16777216" by linarith
  from e2' qb have s2b: "\<bar>s2\<bar> \<le> 4" by linarith
  then have m33: "\<bar>s2 * 100\<bar> \<le> 2 ^ 33" by (simp add: abs_mult)
  have e3: "\<bar>s3 - s2 * 100\<bar> \<le> (1 + \<bar>s2 * 100\<bar>) / 16777216"
    using round_sat_error [OF m33] by (simp_all add: s3_def)
  have "\<bar>s2 * 100\<bar> = \<bar>s2\<bar> * 100" by (simp add: abs_mult)
  then have "(1 + \<bar>s2 * 100\<bar>) / 16777216 \<le> 401 / 16777216"
    using s2b by (intro divide_right_mono) linarith+
  with e3 have e3': "\<bar>s3 - s2 * 100\<bar> \<le> 401 / 16777216" by linarith
  have "s2 * 100 - a / t * 100 = (s2 - a / t) * 100"
    by (simp only: left_diff_distrib)
  then have "\<bar>s2 * 100 - a / t * 100\<bar> = \<bar>s2 - a / t\<bar> * 100"
    by (simp only: abs_mult)
  with e2a have "\<bar>s2 * 100 - a / t * 100\<bar> \<le> 700 / 16777216" by simp
  with e3' have "\<bar>s3 - a / t * 100\<bar> \<le> 1101 / 16777216" by linarith
  moreover have "mul_sat (div_sat (round_sat (t - v)) t) 100 = s3"
    using b1 b2 by (simp add: mul_sat_def div_sat_def s3_def s2_def s1_def a_def)
  ultimately show ?thesis by (simp add: a_def)
qed

lemma percentage_binary32_error:
  assumes "1 \<le> t" and "t \<le> 2 ^ 31"
  shows "\<bar>percentage_binary32 t v - percentage_spec t v\<bar> \<le> 1 / 10000"
proof -
  have t0: "0 < t" using assms(1) by simp
  have near: "\<bar>percentage_binary32 t w - percentage_spec t w\<bar> \<le> 1101 / 16777216"
    if "\<bar>t - w\<bar> \<le> 2 * t" for w
    using percentage_binary32_error_near [OF assms that]
      clamp_lipschitz [of "mul_sat (div_sat (round_sat (t - w)) t) 100" 0 100 "(t - w) / t * 100"]
    by (simp only: percentage_binary32_def percentage_spec_def)
  have range: "0 \<le> percentage_binary32 t w \<and> percentage_binary32 t w \<le> 100" for w
    by (simp add: percentage_binary32_def clamp_def max_def min_def)
  consider "v < - t" | "2 * t < v" | "\<bar>t - v\<bar> \<le> 2 * t" by linarith
  then show ?thesis
  proof cases
    case 1
    have "percentage_spec t (- t) = 100"
      using t0 by (simp add: percentage_spec_def clamp_def)
    moreover have "\<bar>t - - t\<bar> \<le> 2 * t" using t0 by simp
    ultimately have "100 - 1101 / 16777216 \<le> percentage_binary32 t (- t)"
      using near [of "- t"] by linarith
    moreover have "percentage_binary32 t (- t) \<le> percentage_binary32 t v"
      using 1 t0 by (intro percentage_binary32_antimono) simp_all
    moreover have "100 \<le> (t - v) / t * 100"
      using 1 t0 by (simp add: pos_le_divide_eq)
    then have "percentage_spec t v = 100"
      by (simp add: percentage_spec_def clamp_def max_def min_def)
    ultimately show ?thesis using range [of v] by linarith
  next
    case 2
    have "percentage_spec t (2 * t) = 0"
      using t0 by (simp add: percentage_spec_def clamp_def)
    moreover have "\<bar>t - 2 * t\<bar> \<le> 2 * t" using t0 by simp
    ultimately have "percentage_binary32 t (2 * t) \<le> 1101 / 16777216"
      using near [of "2 * t"] by linarith
    moreover have "percentage_binary32 t v \<le> percentage_binary32 t (2 * t)"
      using 2 t0 by (intro percentage_binary32_antimono) simp_all
    moreover have "(t - v) / t * 100 \<le> 0"
      using 2 t0 by (simp add: divide_le_0_iff mult_le_0_iff)
    then have "percentage_spec t v = 0"
      by (simp add: percentage_spec_def clamp_def max_def min_def)
    ultimately show ?thesis using range [of v] by linarith
  next
    case 3
    from near [OF 3] show ?thesis by linarith
  qed
qed

subsection \<open>Measurement converter\<close>

text \<open>
  Claim C2 as stated fails: \<open>calculate_percentage\<close> computes in binary32, and with a
  tank of 100 cm the distance 40 gives 15728641 / 262144 (about 60.0000038), not
  the 60 of the clamped formula. The quotient 0.6 is not a value of the format, and
  the product of its rounded value with 100 is not 60.
\<close>

theorem calculate_percentage_exact_counterexample:
  "sint (CONFIG_TANK_HEIGHT_CM example_config) = 100
   \<and> calculate_percentage example_config (Val 40) = Val (15728641 / 262144)
   \<and> percentage_spec 100 40 = 60
   \<and> float_value (calculate_percentage example_config (Val 40))
       \<noteq> percentage_spec (real_of_int (sint (CONFIG_TANK_HEIGHT_CM example_config)))
            (float_value (Val 40))"
proof -
  have h: "sint (CONFIG_TANK_HEIGHT_CM example_config) = 100"
    by (simp add: example_config_def)
  have c: "calculate_percentage example_config (Val 40) = Val (15728641 / 262144)"
    using h by (rule calculate_percentage_scenarios(4))
  have s: "percentage_spec 100 40 = 60"
    by (simp add: percentage_spec_def clamp_def)
  show ?thesis
    by (simp add: h c s float_value_def)
qed

text \<open>
  Claim C2, amended. For a configured tank height above 0: for every distance
  other than NaN the result is a finite value between 0 and 100; for every finite
  distance it is the clamped formula with each of the subtraction, the division
  and the product rounded to binary32, and it differs from the clamped formula
  over the real numbers, taken at the tank height as a \<open>float\<close>, by at most 0.0001;
  the tank height as a \<open>float\<close> is the configured one up to 16777216 cm. The
  distance 0 gives exactly 100, the tank height exactly 0 and half the tank height
  exactly 50; with a tank of 100 cm, 25 gives exactly 75, 150 gives 0 and -10
  gives 100. A NaN distance gives NaN, an infinite one 0 or 100.
\<close>

theorem calculate_percentage_clamped:
  assumes "0 < sint (CONFIG_TANK_HEIGHT_CM cfg)"
  shows "(\<not> is_nan d \<longrightarrow>
            is_finite (calculate_percentage cfg d)
          \<and> 0 \<le> float_value (calculate_percentage cfg d)
          \<and> float_value (calculate_percentage cfg d) \<le> 100)
       \<and> (is_finite d \<longrightarrow>
            float_value (calculate_percentage cfg d)
              = percentage_binary32 (float_value (float_of_int (sint (CONFIG_TANK_HEIGHT_CM cfg))))
                  (float_value d)
          \<and> \<bar>float_value (calculate_percentage cfg d)
              - percentage_spec (float_value (float_of_int (sint (CONFIG_TANK_HEIGHT_CM cfg))))
                  (float_value d)\<bar> \<le> 1 / 10000)
       \<and> (sint (CONFIG_TANK_HEIGHT_CM cfg) \<le> 16777216 \<longrightarrow>
            float_of_int (sint (CONFIG_TANK_HEIGHT_CM cfg))
              = Val (real_of_int (sint (CONFIG_TANK_HEIGHT_CM cfg))))
       \<and> calculate_percentage cfg (Val 0) = Val 100
       \<and> calculate_percentage cfg (float_of_int (sint (CONFIG_TANK_HEIGHT_CM cfg))) = Val 0
       \<and> calculate_percentage cfg
            (Val (float_value (float_of_int (sint (CONFIG_TANK_HEIGHT_CM cfg))) / 2)) = Val 50
       \<and> (sint (CONFIG_TANK_HEIGHT_CM cfg) = 100 \<longrightarrow>
            calculate_percentage cfg (Val 25) = Val 75
          \<and> calculate_percentage cfg (Val 150) = Val 0
          \<and> calculate_percentage cfg (Val (- 10)) = Val 100)
       \<and> calculate_percentage cfg NaN = NaN
       \<and> calculate_percentage cfg PInf = Val 0
       \<and> calculate_percentage cfg NInf = Val 100"
proof -
  let ?h = "sint (CONFIG_TANK_HEIGHT_CM cfg)"
  have "?h < 2 ^ 31" using sint_lt [of "CONFIG_TANK_HEIGHT_CM cfg"] by simp
  with assms obtain t where t: "float_of_int ?h = Val t" "1 \<le> t" "t \<le> 2 ^ 31"
    using tank_height_float [of ?h] by blast
  have tv: "float_value (float_of_int ?h) = t"
    by (simp add: t(1) float_value_def)
  have range: "\<not> is_nan d \<longrightarrow>
            is_finite (calculate_percentage cfg d)
          \<and> 0 \<le> float_value (calculate_percentage cfg d)
          \<and> float_value (calculate_percentage cfg d) \<le> 100"
    using calculate_percentage_range [OF assms, of d] by (simp add: percentage_in_range_def)
  have formula: "is_finite d \<longrightarrow>
            float_value (calculate_percentage cfg d)
              = percentage_binary32 (float_value (float_of_int ?h)) (float_value d)
          \<and> \<bar>float_value (calculate_percentage cfg d)
              - percentage_spec (float_value (float_of_int ?h)) (float_value d)\<bar> \<le> 1 / 10000"
  proof
    assume f: "is_finite d"
    have "\<bar>percentage_binary32 t (float_value d) - percentage_spec t (float_value d)\<bar> \<le> 1 / 10000"
      using t(2,3) by (rule percentage_binary32_error)
    then show "float_value (calculate_percentage cfg d)
              = percentage_binary32 (float_value (float_of_int ?h)) (float_value d)
          \<and> \<bar>float_value (calculate_percentage cfg d)
              - percentage_spec (float_value (float_of_int ?h)) (float_value d)\<bar> \<le> 1 / 10000"
      by (simp only: calculate_percentage_formula [OF assms f] tv)
  qed
  have height: "?h \<le> 16777216 \<longrightarrow> float_of_int ?h = Val (real_of_int ?h)"
    using assms float_of_int_small [of ?h] by simp
  have marks: "calculate_percentage cfg (Val 0) = Val 100"
    "calculate_percentage cfg (float_of_int ?h) = Val 0"
    "calculate_percentage cfg (Val (float_value (float_of_int ?h) / 2)) = Val 50"
    using assms by (rule calculate_percentage_marks)+
  have scen: "?h = 100 \<longrightarrow>
            calculate_percentage cfg (Val 25) = Val 75
          \<and> calculate_percentage cfg (Val 150) = Val 0
          \<and> calculate_percentage cfg (Val (- 10)) = Val 100"
    using calculate_percentage_scenarios(1-3) [of cfg] by blast
  have special: "calculate_percentage cfg NaN = NaN"
    "calculate_percentage cfg PInf = Val 0" "calculate_percentage cfg NInf = Val 100"
    using calculate_percentage_nan calculate_percentage_inf [OF assms] by simp_all
  from range formula height marks scen special show ?thesis by blast
qed

theorem calculate_percentage_clamped_witness:
  "0 < sint (CONFIG_TANK_HEIGHT_CM example_config)
   \<and> sint (CONFIG_TANK_HEIGHT_CM example_config) = 100
   \<and> \<not> is_nan (Val 40) \<and> is_finite (Val 40)
   \<and> float_of_int (sint (CONFIG_TANK_HEIGHT_CM example_config)) = Val 100
   \<and> is_finite (calculate_percentage example_config (Val 40))
   \<and> 0 \<le> float_value (calculate_percentage example_config (Val 40))
   \<and> float_value (calculate_percentage example_config (Val 40)) \<le> 100
   \<and> float_value (calculate_percentage example_config (Val 40)) = percentage_binary32 100 40
   \<and> \<bar>float_value (calculate_percentage example_config (Val 40)) - percentage_spec 100 40\<bar>
       \<le> 1 / 10000
   \<and> calculate_percentage example_config (Val 0) = Val 100
   \<and> calculate_percentage example_config (Val 100) = Val 0
   \<and> calculate_percentage example_config (Val 50) = Val 50
   \<and> calculate_percentage example_config (Val 25) = Val 75
   \<and> calculate_percentage example_config (Val 150) = Val 0
   \<and> calculate_percentage example_config (Val (- 10)) = Val 100"
proof -
  have h: "sint (CONFIG_TANK_HEIGHT_CM example_config) = 100"
    by (simp add: example_config_def)
  then have pos: "0 < sint (CONFIG_TANK_HEIGHT_CM example_config)" by simp
  have d: "\<not> is_nan (Val 40)" "is_finite (Val 40)"
    by (simp_all add: is_nan_def is_finite_def)
  have t: "float_of_int (sint (CONFIG_TANK_HEIGHT_CM example_config)) = Val 100"
    by (simp add: h float_of_int_consts)
  have v: "float_value (Val 100) = 100" "float_value (Val 40) = 40" "(100::real) / 2 = 50"
    by (simp_all add: float_value_def)
  note c = calculate_percentage_clamped [OF pos, of "Val 40", unfolded t v]
  have range: "is_finite (calculate_percentage example_config (Val 40))
      \<and> 0 \<le> float_value (calculate_percentage example_config (Val 40))
      \<and> float_value (calculate_percentage example_config (Val 40)) \<le> 100"
    using c d(1) by blast
  have formula: "float_value (calculate_percentage example_config (Val 40)) = percentage_binary32 100 40
      \<and> \<bar>float_value (calculate_percentage example_config (Val 40)) - percentage_spec 100 40\<bar>
           \<le> 1 / 10000"
    using c d(2) by blast
  have marks: "calculate_percentage example_config (Val 0) = Val 100
      \<and> calculate_percentage example_config (Val 100) = Val 0
      \<and> calculate_percentage example_config (Val 50) = Val 50"
    using c by blast
  have scen: "calculate_percentage example_config (Val 25) = Val 75
      \<and> calculate_percentage example_config (Val 150) = Val 0
      \<and> calculate_percentage example_config (Val (- 10)) = Val 100"
    using c h by blast
  from pos h d t range formula marks scen show ?thesis by blast
qed

text \<open>
  Claim C9. For a configured tank height above 0 and distances \<open>d1 <= d2\<close> in the
  comparison of C (so neither is NaN; they may be infinite),
  \<open>calculate_percentage(d2) <= calculate_percentage(d1)\<close>, again in the comparison
  of C.
\<close>

theorem calculate_percentage_antimono:
  assumes "0 < sint (CONFIG_TANK_HEIGHT_CM cfg)" and "fle d1 d2"
  shows "fle (calculate_percentage cfg d2) (calculate_percentage cfg d1)"
proof -
  have nn: "\<not> is_nan d1" "\<not> is_nan d2"
    using assms(2) by (simp_all add: fle_def)
  have r1: "percentage_in_range (calculate_percentage cfg d1)"
    and r2: "percentage_in_range (calculate_percentage cfg d2)"
    using assms(1) nn by (simp_all add: calculate_percentage_range)
  have "float_value (calculate_percentage cfg d2) \<le> float_value (calculate_percentage cfg d1)"
    using assms by (rule percentage_order_binary32)
  with r1 r2 show ?thesis
    by (cases "calculate_percentage cfg d1"; cases "calculate_percentage cfg d2")
      (simp_all add: percentage_in_range_def is_finite_def fle_def flt_def is_nan_def
         float_value_def)
qed

theorem calculate_percentage_antimono_witness:
  "0 < sint (CONFIG_TANK_HEIGHT_CM example_config) \<and> fle (Val 25) (Val 40)
   \<and> calculate_percentage example_config (Val 25) = Val 75
   \<and> calculate_percentage example_config (Val 40) = Val (15728641 / 262144)
   \<and> fle (Val (15728641 / 262144)) (Val 75)"
proof -
  have h: "sint (CONFIG_TANK_HEIGHT_CM example_config) = 100"
    by (simp add: example_config_def)
  have le: "fle (Val 25) (Val 40)"
    by (simp add: fle_def flt_def is_nan_def float_value_def)
  from calculate_percentage_antimono [of example_config "Val 25" "Val 40"] h le
  show ?thesis
    by (simp add: calculate_percentage_scenarios(1,4) [OF h])
qed

subsection \<open>Wi-Fi link\<close>

lemma sint_succ_of_sless:
  fixes x m :: "32 word"
  assumes "x <s m"
  shows "sint (x + 1) = sint x + 1"
proof -
  have "sint x < sint m" using assms by (simp add: word_sless_alt)
  moreover have "sint m < 2 ^ 31" using sint_lt [of m] by simp
  moreover have "- (2 ^ 31) \<le> sint x" using sint_ge [of x] by simp
  ultimately have r: "- (2 ^ 31) \<le> sint x + 1 \<and> sint x + 1 < 2 ^ 31" by linarith
  have "sint (x + 1) = signed_take_bit 31 (sint x + 1)"
    by (simp add: sint_word_ariths)
  also have "\<dots> = sint x + 1"
    using r by (simp add: signed_take_bit_int_eq_self)
  finally show ?thesis .
qed

lemma succ_sle_of_sless:
  fixes x m :: "32 word"
  assumes "x <s m"
  shows "x + 1 \<le>s m"
  using assms sint_succ_of_sless [OF assms] by (simp add: word_sle_eq word_sless_alt)

lemma event_handler_retry_bounded:
  assumes "0 \<le>s CONFIG_WIFI_MAXIMUM_RETRY cfg"
    and "s_retry_num s \<le>s CONFIG_WIFI_MAXIMUM_RETRY cfg"
  shows "s_retry_num (fst (event_handler cfg ev s)) \<le>s CONFIG_WIFI_MAXIMUM_RETRY cfg"
  using assms by (cases ev) (simp_all add: event_handler_def succ_sle_of_sless)

lemma wifi_trace_retry_bounded:
  assumes "0 \<le>s CONFIG_WIFI_MAXIMUM_RETRY cfg"
    and "s_retry_num s \<le>s CONFIG_WIFI_MAXIMUM_RETRY cfg"
  shows "\<forall>s' \<in> set (wifi_trace cfg evs s). s_retry_num s' \<le>s CONFIG_WIFI_MAXIMUM_RETRY cfg"
  using assms(2)
proof (induction evs arbitrary: s)
  case Nil
  then show ?case by simp
next
  case (Cons ev evs)
  have "s_retry_num (fst (event_handler cfg ev s)) \<le>s CONFIG_WIFI_MAXIMUM_RETRY cfg"
    using assms(1) Cons.prems by (rule event_handler_retry_bounded)
  with Cons.IH show ?case by simp
qed

text \<open>
  Claim C10. When the configured maximum is not negative, \<open>s_retry_num\<close> is at most
  \<open>CONFIG_WIFI_MAXIMUM_RETRY\<close> at the start and after every event of every
  sequence of events delivered to \<open>event_handler\<close>.
\<close>

theorem retry_counter_bounded:
  assumes "0 \<le>s CONFIG_WIFI_MAXIMUM_RETRY cfg"
  shows "s_retry_num wifi_init \<le>s CONFIG_WIFI_MAXIMUM_RETRY cfg
       \<and> (\<forall>s \<in> set (wifi_trace cfg evs wifi_init). s_retry_num s \<le>s CONFIG_WIFI_MAXIMUM_RETRY cfg)"
proof -
  have "s_retry_num wifi_init \<le>s CONFIG_WIFI_MAXIMUM_RETRY cfg"
    using assms by (simp add: wifi_init_def)
  then show ?thesis using wifi_trace_retry_bounded [OF assms] by blast
qed

theorem retry_counter_bounded_witness:
  "0 \<le>s CONFIG_WIFI_MAXIMUM_RETRY example_config
   \<and> map (sint \<circ> s_retry_num)
        (wifi_trace example_config
           [WIFI_EVENT_STA_START, WIFI_EVENT_STA_DISCONNECTED, WIFI_EVENT_STA_DISCONNECTED,
            WIFI_EVENT_STA_DISCONNECTED, IP_EVENT_STA_GOT_IP 0, WIFI_EVENT_STA_DISCONNECTED]
           wifi_init) = [0, 1, 2, 2, 0, 1]
   \<and> list_all (\<lambda>s. s_retry_num s \<le>s CONFIG_WIFI_MAXIMUM_RETRY example_config)
        (wifi_trace example_config
           [WIFI_EVENT_STA_START, WIFI_EVENT_STA_DISCONNECTED, WIFI_EVENT_STA_DISCONNECTED,
            WIFI_EVENT_STA_DISCONNECTED, IP_EVENT_STA_GOT_IP 0, WIFI_EVENT_STA_DISCONNECTED]
           wifi_init)"
  using retry_counter_bounded [of example_config
           "[WIFI_EVENT_STA_START, WIFI_EVENT_STA_DISCONNECTED, WIFI_EVENT_STA_DISCONNECTED,
            WIFI_EVENT_STA_DISCONNECTED, IP_EVENT_STA_GOT_IP 0, WIFI_EVENT_STA_DISCONNECTED]"]
  by (simp add: example_config_def wifi_init_def event_handler_def word_sle_eq word_sless_alt
        xEventGroupSetBits_def)

lemma set_fail_keeps_ready: "(g OR WIFI_FAIL_BIT) AND WIFI_CONNECTED_BIT = g AND WIFI_CONNECTED_BIT"
  by (simp add: WIFI_FAIL_BIT_def WIFI_CONNECTED_BIT_def word_ao_dist)

lemma set_ready_keeps_fail: "(g OR WIFI_CONNECTED_BIT) AND WIFI_FAIL_BIT = g AND WIFI_FAIL_BIT"
  by (simp add: WIFI_FAIL_BIT_def WIFI_CONNECTED_BIT_def word_ao_dist)

lemma signal_bits_nonzero: "WIFI_FAIL_BIT \<noteq> 0" "WIFI_CONNECTED_BIT \<noteq> 0"
  by (simp_all add: WIFI_FAIL_BIT_def WIFI_CONNECTED_BIT_def)

lemma set_fail_sets: "(g OR WIFI_FAIL_BIT) AND WIFI_FAIL_BIT \<noteq> 0"
  by (simp add: word_ao_absorbs signal_bits_nonzero)

lemma set_ready_sets: "(g OR WIFI_CONNECTED_BIT) AND WIFI_CONNECTED_BIT \<noteq> 0"
  by (simp add: word_ao_absorbs signal_bits_nonzero)

lemma set_fail_idem:
  assumes "g AND WIFI_FAIL_BIT \<noteq> 0"
  shows "g OR WIFI_FAIL_BIT = g"
proof -
  have b: "bit g (1::nat)"
    using assms and_exp_eq_0_iff_not_bit [of g 1] by (simp add: WIFI_FAIL_BIT_def)
  show ?thesis
    unfolding WIFI_FAIL_BIT_def
    by (rule bit_eqI) (use b in \<open>auto simp add: bit_or_iff bit_2_iff\<close>)
qed

lemma event_handler_keeps_failed:
  assumes "link_failed s"
  shows "link_failed (fst (event_handler cfg ev s))"
  using assms
  by (cases ev)
    (simp_all add: event_handler_def link_failed_def xEventGroupSetBits_def
       set_fail_sets set_ready_keeps_fail signal_bits_nonzero)

lemma wifi_run_keeps_failed:
  assumes "link_failed s"
  shows "link_failed (wifi_run cfg evs s)"
  using assms
proof (induction evs arbitrary: s)
  case Nil
  then show ?case by simp
next
  case (Cons ev evs)
  then show ?case by (simp add: event_handler_keeps_failed)
qed

text \<open>
  Claim C4. \<open>IP_EVENT_STA_GOT_IP\<close> sets \<open>s_retry_num\<close> to 0 and raises the
  connected bit. \<open>WIFI_EVENT_STA_DISCONNECTED\<close> with \<open>s_retry_num\<close> below the
  maximum adds one to it (without overflow) and calls \<open>esp_wifi_connect\<close> once;
  otherwise it raises the fail bit, leaves the counter and does not reconnect.
  The fail bit is latched: no sequence of events clears it, so it goes from clear
  to set at most once, and a further disconnect in a failed state with the
  retries used up leaves the state as it is.
\<close>

theorem link_event_steps:
  "s_retry_num (fst (event_handler cfg (IP_EVENT_STA_GOT_IP ip) s)) = 0
   \<and> link_ready (fst (event_handler cfg (IP_EVENT_STA_GOT_IP ip) s))
   \<and> (s_retry_num s <s CONFIG_WIFI_MAXIMUM_RETRY cfg \<longrightarrow>
         fst (event_handler cfg WIFI_EVENT_STA_DISCONNECTED s) = s\<lparr>s_retry_num := s_retry_num s + 1\<rparr>
       \<and> sint (s_retry_num s + 1) = sint (s_retry_num s) + 1
       \<and> filter (\<lambda>a. a = Esp_wifi_connect) (snd (event_handler cfg WIFI_EVENT_STA_DISCONNECTED s))
            = [Esp_wifi_connect])
   \<and> (\<not> s_retry_num s <s CONFIG_WIFI_MAXIMUM_RETRY cfg \<longrightarrow>
         link_failed (fst (event_handler cfg WIFI_EVENT_STA_DISCONNECTED s))
       \<and> s_retry_num (fst (event_handler cfg WIFI_EVENT_STA_DISCONNECTED s)) = s_retry_num s
       \<and> Esp_wifi_connect \<notin> set (snd (event_handler cfg WIFI_EVENT_STA_DISCONNECTED s)))
   \<and> (link_failed s \<longrightarrow> link_failed (wifi_run cfg evs s))
   \<and> (link_failed s \<and> \<not> s_retry_num s <s CONFIG_WIFI_MAXIMUM_RETRY cfg \<longrightarrow>
         fst (event_handler cfg WIFI_EVENT_STA_DISCONNECTED s) = s)"
proof -
  have got_ip: "s_retry_num (fst (event_handler cfg (IP_EVENT_STA_GOT_IP ip) s)) = 0
      \<and> link_ready (fst (event_handler cfg (IP_EVENT_STA_GOT_IP ip) s))"
    by (simp add: event_handler_def link_ready_def xEventGroupSetBits_def set_ready_sets signal_bits_nonzero)
  have retry: "s_retry_num s <s CONFIG_WIFI_MAXIMUM_RETRY cfg \<longrightarrow>
         fst (event_handler cfg WIFI_EVENT_STA_DISCONNECTED s) = s\<lparr>s_retry_num := s_retry_num s + 1\<rparr>
       \<and> sint (s_retry_num s + 1) = sint (s_retry_num s) + 1
       \<and> filter (\<lambda>a. a = Esp_wifi_connect) (snd (event_handler cfg WIFI_EVENT_STA_DISCONNECTED s))
            = [Esp_wifi_connect]"
    by (simp add: event_handler_def sint_succ_of_sless)
  have exhausted: "\<not> s_retry_num s <s CONFIG_WIFI_MAXIMUM_RETRY cfg \<longrightarrow>
         link_failed (fst (event_handler cfg WIFI_EVENT_STA_DISCONNECTED s))
       \<and> s_retry_num (fst (event_handler cfg WIFI_EVENT_STA_DISCONNECTED s)) = s_retry_num s
       \<and> Esp_wifi_connect \<notin> set (snd (event_handler cfg WIFI_EVENT_STA_DISCONNECTED s))"
    by (simp add: event_handler_def link_failed_def xEventGroupSetBits_def set_fail_sets signal_bits_nonzero)
  have latched: "link_failed s \<longrightarrow> link_failed (wifi_run cfg evs s)"
    using wifi_run_keeps_failed by blast
  have idem: "link_failed s \<and> \<not> s_retry_num s <s CONFIG_WIFI_MAXIMUM_RETRY cfg \<longrightarrow>
         fst (event_handler cfg WIFI_EVENT_STA_DISCONNECTED s) = s"
    by (simp add: event_handler_def link_failed_def xEventGroupSetBits_def set_fail_idem)
  from got_ip retry exhausted latched idem show ?thesis by blast
qed

theorem link_event_steps_witness:
  "s_retry_num wifi_init <s CONFIG_WIFI_MAXIMUM_RETRY example_config
   \<and> event_handler example_config WIFI_EVENT_STA_DISCONNECTED wifi_init
       = (\<lparr>s_retry_num = 1, s_wifi_event_group = 0\<rparr>,
          [Esp_wifi_connect,
           Log ESP_LOGI ''Retry to connect to the AP'' [],
           Log ESP_LOGI ''Connect to the AP fail'' []])
   \<and> \<not> s_retry_num \<lparr>s_retry_num = 2, s_wifi_event_group = 0\<rparr>
         <s CONFIG_WIFI_MAXIMUM_RETRY example_config
   \<and> event_handler example_config WIFI_EVENT_STA_DISCONNECTED
         \<lparr>s_retry_num = 2, s_wifi_event_group = 0\<rparr>
       = (\<lparr>s_retry_num = 2, s_wifi_event_group = 2\<rparr>,
          [Log ESP_LOGI ''Connect to the AP fail'' []])
   \<and> link_failed \<lparr>s_retry_num = 2, s_wifi_event_group = 2\<rparr>
   \<and> fst (event_handler example_config WIFI_EVENT_STA_DISCONNECTED
              \<lparr>s_retry_num = 2, s_wifi_event_group = 2\<rparr>)
       = \<lparr>s_retry_num = 2, s_wifi_event_group = 2\<rparr>
   \<and> wifi_run example_config
        [WIFI_EVENT_STA_DISCONNECTED, IP_EVENT_STA_GOT_IP 0, WIFI_EVENT_STA_DISCONNECTED]
        \<lparr>s_retry_num = 2, s_wifi_event_group = 2\<rparr>
       = \<lparr>s_retry_num = 1, s_wifi_event_group = 3\<rparr>
   \<and> link_failed \<lparr>s_retry_num = 1, s_wifi_event_group = 3\<rparr>"
  using link_event_steps [where cfg = example_config and s = wifi_init and ip = 0 and evs = "[]"]
        link_event_steps [where cfg = example_config and ip = 0
           and s = "\<lparr>s_retry_num = 2, s_wifi_event_group = 0\<rparr>" and evs = "[]"]
        link_event_steps [where cfg = example_config and ip = 0
           and s = "\<lparr>s_retry_num = 2, s_wifi_event_group = 2\<rparr>"
           and evs = "[WIFI_EVENT_STA_DISCONNECTED, IP_EVENT_STA_GOT_IP 0, WIFI_EVENT_STA_DISCONNECTED]"]
  by (simp add: example_config_def wifi_init_def event_handler_def word_sless_alt
        xEventGroupSetBits_def link_failed_def WIFI_FAIL_BIT_def WIFI_CONNECTED_BIT_def)

subsection \<open>Steps of the sensor task\<close>

lemma mqtt_event_handler_keeps_task:
  "phase (fst (mqtt_event_handler event s)) = phase s
   \<and> count (fst (mqtt_event_handler event s)) = count s"
  by (cases event) (simp_all add: mqtt_event_handler_def)

lemma mqtt_event_handler_silent:
  "filter is_publish (snd (mqtt_event_handler event s)) = []
   \<and> discovery_invocations (snd (mqtt_event_handler event s)) = 0"
  by (cases event)
    (simp_all add: mqtt_event_handler_def is_publish_def discovery_invocations_def)

lemma is_discovery_is_publish: "is_discovery_publish a \<Longrightarrow> is_publish a"
  by (cases a) (simp_all add: is_discovery_publish_def is_publish_def)

lemma filter_discovery_of_no_publish:
  "filter is_publish acts = [] \<Longrightarrow> filter is_discovery_publish acts = []"
  by (auto simp add: filter_empty_conv dest: is_discovery_is_publish)

lemma publish_ha_discovery_publishes:
  "filter is_publish (publish_ha_discovery cfg s) =
     (if mqtt_connected s
      then [Esp_mqtt_client_publish
              (snprintf 128 (distance_config_topic (CONFIG_MQTT_CLIENT_ID cfg)))
              (snprintf 512 (distance_config_payload (CONFIG_MQTT_CLIENT_ID cfg))) 0 1 True,
            Esp_mqtt_client_publish
              (snprintf 128 (percentage_config_topic (CONFIG_MQTT_CLIENT_ID cfg)))
              (snprintf 512 (percentage_config_payload (CONFIG_MQTT_CLIENT_ID cfg))) 0 1 True]
      else [])"
  by (simp add: publish_ha_discovery_def is_publish_def)

lemma publish_ha_discovery_count:
  "length (filter is_discovery_publish (publish_ha_discovery cfg s)) = (if mqtt_connected s then 2 else 0)"
  by (simp add: publish_ha_discovery_def is_discovery_publish_def)

lemma publish_ha_discovery_no_marker:
  "discovery_invocations (publish_ha_discovery cfg s) = 0"
  by (simp add: publish_ha_discovery_def discovery_invocations_def)

lemma discovery_invocations_append:
  "discovery_invocations (xs @ ys) = discovery_invocations xs + discovery_invocations ys"
  by (simp add: discovery_invocations_def)

lemma step_awaiting:
  assumes "phase s = AwaitingSession"
  shows "sensor_task_step cfg f1 r s =
           (if \<not> mqtt_connected s then (s, [VTaskDelay_ms 1000]) else (s\<lparr>phase := SettleDelay\<rparr>, []))"
  using assms by (simp add: sensor_task_step_def)

lemma step_settle:
  assumes "phase s = SettleDelay"
  shows "sensor_task_step cfg f1 r s = (s\<lparr>phase := PublishingDiscovery\<rparr>, [VTaskDelay_ms 2000])"
  using assms by (simp add: sensor_task_step_def)

lemma step_discovery:
  assumes "phase s = PublishingDiscovery"
  shows "sensor_task_step cfg f1 r s =
           (s\<lparr>phase := Running\<rparr>,
            [Log ESP_LOGI ''Publishing Home Assistant discovery messages...'' []]
            @ publish_ha_discovery cfg s
            @ [Log ESP_LOGI ''Discovery messages sent!'' []])"
  using assms by (simp add: sensor_task_step_def)

lemma step_running:
  assumes "phase s = Running"
  shows "sensor_task_step cfg f1 r s =
           (s\<lparr>count := fst (snd (read_distance_cm (count s)))\<rparr>,
            snd (snd (read_distance_cm (count s)))
            @ [Log ESP_LOGI ''Distance: %.1f cm, Salt level: %.1f%%''
                 [Arg_float (fst (read_distance_cm (count s))),
                  Arg_float (calculate_percentage cfg (fst (read_distance_cm (count s))))]]
            @ (if mqtt_connected s
               then [Esp_mqtt_client_publish (state_topic cfg)
                       (state_payload f1 (fst (read_distance_cm (count s)))
                          (calculate_percentage cfg (fst (read_distance_cm (count s))))) 0 0 False,
                     Log ESP_LOGI ''Published to MQTT, msg_id=%d'' [Arg_int (sint r)]]
               else [Log ESP_LOGW ''MQTT not connected, skipping publish'' []])
            @ [VTaskDelay_ms (CONFIG_READING_INTERVAL_SEC cfg * 1000)])"
  using assms by (simp add: sensor_task_step_def Let_def split: prod.splits)

lemma read_distance_cm_log:
  "snd (snd (read_distance_cm c)) =
     [Log ESP_LOGI ''Mock sensor reading: %.1f cm'' [Arg_float (fst (read_distance_cm c))]]"
  by (simp add: read_distance_cm_def Let_def)

lemma step_running_publishes:
  assumes "phase s = Running"
  shows "filter is_publish (snd (sensor_task_step cfg f1 r s)) =
           (if mqtt_connected s
            then [Esp_mqtt_client_publish (state_topic cfg)
                    (state_payload f1 (fst (read_distance_cm (count s)))
                       (calculate_percentage cfg (fst (read_distance_cm (count s))))) 0 0 False]
            else [])"
  by (simp add: step_running [OF assms] read_distance_cm_log is_publish_def)

lemma step_running_quiet:
  assumes "phase s = Running"
  shows "phase (fst (sensor_task_step cfg f1 r s)) = Running
       \<and> filter is_discovery_publish (snd (sensor_task_step cfg f1 r s)) = []
       \<and> discovery_invocations (snd (sensor_task_step cfg f1 r s)) = 0"
  by (simp add: step_running [OF assms] assms read_distance_cm_log is_discovery_publish_def
        discovery_invocations_def)

lemma discovery_invocations_Nil: "discovery_invocations [] = 0"
  by (simp add: discovery_invocations_def)

lemma discovery_invocations_Cons:
  "discovery_invocations (a # acts) =
     (if a = Log ESP_LOGI ''Publishing Home Assistant discovery messages...'' [] then 1 else 0)
     + discovery_invocations acts"
  by (simp add: discovery_invocations_def)

lemma sys_step_running:
  assumes "phase s = Running"
  shows "phase (fst (sys_step cfg f1 ev s)) = Running
       \<and> filter is_discovery_publish (snd (sys_step cfg f1 ev s)) = []
       \<and> discovery_invocations (snd (sys_step cfg f1 ev s)) = 0"
proof (cases ev)
  case (Mqtt_event event)
  then show ?thesis
    using assms mqtt_event_handler_keeps_task [of event s] mqtt_event_handler_silent [of event s]
    by (simp add: sys_step_def filter_discovery_of_no_publish)
next
  case (Sensor_task_step r)
  then show ?thesis
    using step_running_quiet [OF assms] by (simp add: sys_step_def)
qed

lemma sys_run_running:
  assumes "phase s = Running"
  shows "phase (fst (sys_run cfg f1 evs s)) = Running
       \<and> filter is_discovery_publish (snd (sys_run cfg f1 evs s)) = []
       \<and> discovery_invocations (snd (sys_run cfg f1 evs s)) = 0"
  using assms
proof (induction evs arbitrary: s)
  case Nil
  then show ?case by (simp add: discovery_invocations_def)
next
  case (Cons ev evs)
  from sys_step_running [OF Cons.prems]
  have step: "phase (fst (sys_step cfg f1 ev s)) = Running"
    "filter is_discovery_publish (snd (sys_step cfg f1 ev s)) = []"
    "discovery_invocations (snd (sys_step cfg f1 ev s)) = 0"
    by simp_all
  from Cons.IH [OF step(1)] step show ?case
    by (simp add: discovery_invocations_append)
qed

lemma sys_step_before_running:
  assumes "phase s \<noteq> Running"
  shows "(phase (fst (sys_step cfg f1 ev s)) \<noteq> Running
          \<and> filter is_discovery_publish (snd (sys_step cfg f1 ev s)) = []
          \<and> discovery_invocations (snd (sys_step cfg f1 ev s)) = 0)
       \<or> (phase (fst (sys_step cfg f1 ev s)) = Running
          \<and> length (filter is_discovery_publish (snd (sys_step cfg f1 ev s))) \<le> 2
          \<and> discovery_invocations (snd (sys_step cfg f1 ev s)) = 1)"
proof (cases ev)
  case (Mqtt_event event)
  then show ?thesis
    using assms mqtt_event_handler_keeps_task [of event s] mqtt_event_handler_silent [of event s]
    by (simp add: sys_step_def filter_discovery_of_no_publish)
next
  case (Sensor_task_step r)
  show ?thesis
  proof (cases "phase s")
    case AwaitingSession
    then show ?thesis using Sensor_task_step
      by (simp add: sys_step_def step_awaiting discovery_invocations_def is_discovery_publish_def)
  next
    case SettleDelay
    then show ?thesis using Sensor_task_step
      by (simp add: sys_step_def step_settle discovery_invocations_def is_discovery_publish_def)
  next
    case PublishingDiscovery
    then show ?thesis using Sensor_task_step
      by (simp add: sys_step_def step_discovery discovery_invocations_append
            discovery_invocations_Cons discovery_invocations_Nil
            publish_ha_discovery_no_marker publish_ha_discovery_count is_discovery_publish_def)
  next
    case Running
    with assms show ?thesis by simp
  qed
qed

lemma sys_run_invocations:
  assumes "phase s \<noteq> Running"
  shows "discovery_invocations (snd (sys_run cfg f1 evs s)) =
           (if phase (fst (sys_run cfg f1 evs s)) = Running then 1 else 0)"
  using assms
proof (induction evs arbitrary: s)
  case Nil
  then show ?case by (simp add: discovery_invocations_def)
next
  case (Cons ev evs)
  show ?case
  proof (cases "phase (fst (sys_step cfg f1 ev s)) = Running")
    case True
    with sys_step_before_running [OF Cons.prems, of cfg f1 ev]
    have "discovery_invocations (snd (sys_step cfg f1 ev s)) = 1" by simp
    with sys_run_running [OF True, of cfg f1 evs] show ?thesis
      by (simp add: discovery_invocations_append)
  next
    case False
    with sys_step_before_running [OF Cons.prems, of cfg f1 ev]
    have "discovery_invocations (snd (sys_step cfg f1 ev s)) = 0" by simp
    with Cons.IH [OF False] show ?thesis
      by (simp add: discovery_invocations_append)
  qed
qed

lemma sys_run_messages:
  "length (filter is_discovery_publish (snd (sys_run cfg f1 evs s))) \<le> 2
   \<and> (filter is_discovery_publish (snd (sys_run cfg f1 evs s)) \<noteq> []
        \<longrightarrow> phase (fst (sys_run cfg f1 evs s)) = Running)"
proof (induction evs arbitrary: s)
  case Nil
  show ?case by simp
next
  case (Cons ev evs)
  show ?case
  proof (cases "phase s = Running")
    case True
    from sys_run_running [OF True, of cfg f1 "ev # evs"] show ?thesis by simp
  next
    case before: False
    show ?thesis
    proof (cases "phase (fst (sys_step cfg f1 ev s)) = Running")
      case True
      with sys_step_before_running [OF before, of cfg f1 ev]
      have "length (filter is_discovery_publish (snd (sys_step cfg f1 ev s))) \<le> 2" by simp
      with sys_run_running [OF True, of cfg f1 evs] show ?thesis by simp
    next
      case False
      with sys_step_before_running [OF before, of cfg f1 ev]
      have "filter is_discovery_publish (snd (sys_step cfg f1 ev s)) = []" by simp
      with Cons.IH [of "fst (sys_step cfg f1 ev s)"] show ?thesis by simp
    qed
  qed
qed

lemma sys_run_append:
  "sys_run cfg f1 (evs1 @ evs2) s =
     (fst (sys_run cfg f1 evs2 (fst (sys_run cfg f1 evs1 s))),
      snd (sys_run cfg f1 evs1 s) @ snd (sys_run cfg f1 evs2 (fst (sys_run cfg f1 evs1 s))))"
  by (induction evs1 arbitrary: s) simp_all

lemma sys_step_phase_rank:
  "phase_rank (phase s) \<le> phase_rank (phase (fst (sys_step cfg f1 ev s)))"
proof (cases ev)
  case (Mqtt_event event)
  then show ?thesis
    using mqtt_event_handler_keeps_task [of event s] by (simp add: sys_step_def)
next
  case (Sensor_task_step r)
  then show ?thesis
    by (cases "phase s")
      (simp_all add: sys_step_def step_awaiting step_settle step_discovery step_running)
qed

lemma sys_run_phase_rank:
  "phase_rank (phase s) \<le> phase_rank (phase (fst (sys_run cfg f1 evs s)))"
proof (induction evs arbitrary: s)
  case Nil
  show ?case by simp
next
  case (Cons ev evs)
  have "phase_rank (phase s) \<le> phase_rank (phase (fst (sys_step cfg f1 ev s)))"
    by (rule sys_step_phase_rank)
  also have "\<dots> \<le> phase_rank (phase (fst (sys_run cfg f1 evs (fst (sys_step cfg f1 ev s)))))"
    by (rule Cons.IH)
  finally show ?case by simp
qed

lemma snprintf_fits: "length s < n \<Longrightarrow> snprintf n s = s"
  by (simp add: snprintf_def)

lemma step_publish_needs_session:
  assumes "a \<in> set (snd (sensor_task_step cfg f1 r s))" and "is_publish a"
  shows "mqtt_connected s"
proof (cases "phase s")
  case AwaitingSession
  with assms show ?thesis
    by (simp add: step_awaiting is_publish_def split: if_splits)
next
  case SettleDelay
  with assms show ?thesis by (simp add: step_settle is_publish_def)
next
  case PublishingDiscovery
  with assms show ?thesis
    by (auto simp add: step_discovery publish_ha_discovery_def is_publish_def split: if_splits)
next
  case Running
  have "a \<in> set (filter is_publish (snd (sensor_task_step cfg f1 r s)))"
    using assms by simp
  then show ?thesis
    by (simp only: step_running_publishes [OF Running]) (simp split: if_splits)
qed

subsection \<open>Readings and their conversion\<close>

lemma read_distance_cm_value:
  "\<exists>k. - 49 \<le> k \<and> k \<le> 49 \<and> fst (read_distance_cm c) = Val (real_of_int (20 + 3 * k) / 2)"
proof -
  define k where "k = sint (c + 1) smod 50"
  have "k \<in> {- \<bar>50\<bar> + 1..\<bar>50\<bar> - 1}"
    unfolding k_def by (rule smod_int_range) simp
  then have k: "- 49 \<le> k" "k \<le> 49" by simp_all
  then have "\<bar>k\<bar> \<le> 2 ^ 24" by simp
  then have conv: "float_of_int k = Val (of_int k)" by (rule float_of_int_small)
  have prod: "fmul (Val (of_int k)) (Val (3 / 2)) = Val (real_of_int (3 * k) / 2)"
  proof -
    have e: "real_of_int k * (3 / 2) = real_of_int (3 * k) / 2" by simp
    have "fmul (Val (of_int k)) (Val (3 / 2)) = rounded (k < 0) (real_of_int k * (3 / 2))"
      by (simp add: fmul_def is_nan_def is_inf_def is_zero_def sign_bit_def float_value_def)
    also have "\<dots> = Val (real_of_int (3 * k) / 2)"
    proof (cases "k = 0")
      case True
      then show ?thesis by (simp add: rounded_zero signed_zero_def)
    next
      case False
      have "\<bar>3 * k\<bar> \<le> 2 ^ 24" using k by simp
      then have r: "round_binary32 (real_of_int (3 * k) / 2) = real_of_int (3 * k) / 2"
        by (rule round_binary32_half)
      have "\<bar>real_of_int (3 * k) / 2\<bar> \<le> 100" using k by simp
      then have b: "\<bar>real_of_int (3 * k) / 2\<bar> < binary32_overflow"
        by (simp add: binary32_overflow_def)
      have n: "real_of_int (3 * k) / 2 \<noteq> 0" using False by simp
      have "rounded (k < 0) (real_of_int (3 * k) / 2) = Val (real_of_int (3 * k) / 2)"
        using r n b by (rule rounded_val)
      then show ?thesis by (simp only: e)
    qed
    finally show ?thesis .
  qed
  have sum: "fadd (Val 10) (Val (real_of_int (3 * k) / 2)) = Val (real_of_int (20 + 3 * k) / 2)"
  proof -
    have e: "10 + real_of_int (3 * k) / 2 = real_of_int (20 + 3 * k) / 2" by simp
    have "\<bar>20 + 3 * k\<bar> \<le> 2 ^ 24" using k by simp
    then have r: "round_binary32 (real_of_int (20 + 3 * k) / 2) = real_of_int (20 + 3 * k) / 2"
      by (rule round_binary32_half)
    have "20 + 3 * k \<noteq> 0" by presburger
    then have n: "real_of_int (20 + 3 * k) / 2 \<noteq> 0" by simp
    have "\<bar>real_of_int (20 + 3 * k) / 2\<bar> \<le> 100" using k by simp
    then have b: "\<bar>real_of_int (20 + 3 * k) / 2\<bar> < binary32_overflow"
      by (simp add: binary32_overflow_def)
    have rd: "rounded negative (real_of_int (20 + 3 * k) / 2) = Val (real_of_int (20 + 3 * k) / 2)"
      for negative
      using r n b by (rule rounded_val)
    have gen: "fadd (Val 10) (Val x) = rounded (10 + x < 0) (10 + x)" if "10 + x \<noteq> 0" for x
      using that by (simp add: fadd_def is_nan_def is_inf_def float_value_def)
    have "10 + real_of_int (3 * k) / 2 \<noteq> 0" unfolding e by (rule n)
    from gen [OF this] show ?thesis by (simp only: e rd)
  qed
  have "fst (read_distance_cm c) = Val (real_of_int (20 + 3 * k) / 2)"
    by (simp only: read_distance_cm_def Let_def fst_conv k_def [symmetric] conv prod sum)
  with k show ?thesis by blast
qed

lemma read_distance_cm_finite:
  "is_finite (fst (read_distance_cm c)) \<and> \<bar>float_value (fst (read_distance_cm c))\<bar> \<le> 100"
proof -
  obtain k where k: "- 49 \<le> k" "k \<le> 49"
    "fst (read_distance_cm c) = Val (real_of_int (20 + 3 * k) / 2)"
    using read_distance_cm_value by blast
  have "\<bar>real_of_int (20 + 3 * k) / 2\<bar> \<le> 100" using k(1,2) by simp
  then show ?thesis by (simp add: k(3) is_finite_def float_value_def)
qed

lemma is_digit_decimal_digit:
  assumes "n < 10"
  shows "is_digit (decimal_digit n)"
  unfolding is_digit_def decimal_digit_def
  by (rule nth_mem) (use assms in simp)

lemma show_nat_digits: "list_all is_digit (show_nat n) \<and> show_nat n \<noteq> []"
proof (induction n rule: show_nat.induct)
  case (1 n)
  show ?case
  proof (cases "n < 10")
    case True
    then show ?thesis
      by (simp add: show_nat.simps [of n] is_digit_decimal_digit)
  next
    case False
    then show ?thesis
      using 1 by (simp add: show_nat.simps [of n] is_digit_decimal_digit)
  qed
qed

lemma show_nat_digit: "n < 10 \<Longrightarrow> show_nat n = [decimal_digit n]"
  by (simp add: show_nat.simps [of n])

lemma length_show_nat:
  assumes "n < 1000"
  shows "length (show_nat n) \<le> 3"
proof -
  have "n div 10 div 10 < 10" using assms by simp
  then show ?thesis
    by (simp add: show_nat.simps [of n] show_nat.simps [of "n div 10"]
          show_nat.simps [of "n div 10 div 10"])
qed

lemma is_digit_not_minus: "is_digit c \<Longrightarrow> c \<noteq> CHR ''-''"
  by (auto simp add: is_digit_def)

lemma one_decimal_digits:
  assumes "list_all is_digit ds" and "ds \<noteq> []" and "is_digit d"
  shows "one_decimal (ds @ ''.'' @ [d])" and "one_decimal (''-'' @ ds @ ''.'' @ [d])"
proof -
  obtain c cs where ds: "ds = c # cs" using assms(2) by (cases ds) simp_all
  then have "c \<noteq> CHR ''-''" using assms(1) by (simp add: is_digit_not_minus)
  then show "one_decimal (ds @ ''.'' @ [d])"
    using assms by (simp add: one_decimal_def ds)
  show "one_decimal (''-'' @ ds @ ''.'' @ [d])"
    using assms by (simp add: one_decimal_def ds)
qed

text \<open>The conversion of a finite value is a one-decimal number.\<close>

lemma printf_1f_one_decimal:
  assumes "is_finite a"
  shows "one_decimal (printf_1f a)"
proof (cases a)
  case (Val r)
  define tenths where "tenths = nat (round_half_even (\<bar>r\<bar> * 10))"
  have m: "show_nat (tenths mod 10) = [decimal_digit (tenths mod 10)]"
    by (simp add: show_nat_digit)
  have d: "is_digit (decimal_digit (tenths mod 10))"
    by (simp add: is_digit_decimal_digit)
  have "printf_1f a = (if r < 0 then ''-'' else []) @ show_nat (tenths div 10) @ ''.''
      @ [decimal_digit (tenths mod 10)]"
    by (simp add: Val printf_1f_def tenths_def [symmetric] Let_def m)
  then show ?thesis
    using one_decimal_digits [of "show_nat (tenths div 10)" "decimal_digit (tenths mod 10)"]
      show_nat_digits [of "tenths div 10"] d
    by (cases "r < 0") simp_all
next
  case NegZero
  then show ?thesis by (simp add: printf_1f_def one_decimal_def is_digit_def)
qed (use assms in \<open>simp_all add: is_finite_def\<close>)

text \<open>Up to 100 in magnitude it has at most six characters.\<close>

lemma length_printf_1f:
  assumes "is_finite a" and "\<bar>float_value a\<bar> \<le> 100"
  shows "length (printf_1f a) \<le> 6"
proof (cases a)
  case (Val r)
  define tenths where "tenths = nat (round_half_even (\<bar>r\<bar> * 10))"
  have "\<bar>r\<bar> * 10 \<le> of_int 1000" using assms(2) by (simp add: Val float_value_def)
  then have "round_half_even (\<bar>r\<bar> * 10) \<le> round_half_even (of_int 1000)"
    by (rule round_half_even_mono)
  then have "round_half_even (\<bar>r\<bar> * 10) \<le> 1000"
    by (simp only: round_half_even_int)
  then have "tenths \<le> 1000" by (simp add: tenths_def)
  then have "tenths div 10 < 1000" by simp
  then have "length (show_nat (tenths div 10)) \<le> 3" by (rule length_show_nat)
  moreover have "length (show_nat (tenths mod 10)) = 1" by (simp add: show_nat_digit)
  ultimately show ?thesis
    by (simp add: Val printf_1f_def tenths_def [symmetric] Let_def)
next
  case NegZero
  then show ?thesis by (simp add: printf_1f_def)
qed (use assms in \<open>simp_all add: is_finite_def\<close>)

lemma length_state_payload:
  assumes "length d \<le> 6" and "length p \<le> 6"
  shows \<open>length (''{"distance":'' @ d @ '',"percentage":'' @ p @ ''}'') < 256\<close>
  using assms by simp

text \<open>The two numbers of a measurement payload.\<close>

lemma reading_conversions:
  "one_decimal (printf_1f (fst (read_distance_cm c)))
   \<and> length (printf_1f (fst (read_distance_cm c))) \<le> 6"
  using read_distance_cm_finite [of c]
  by (simp add: printf_1f_one_decimal length_printf_1f)

text \<open>
  The percentage of a reading is in range whatever the configured tank height is:
  a reading is finite and not zero, so the quotient is not \<open>0 / 0\<close>.
\<close>

lemma rounded_in_format: "in_format (rounded negative x)"
  using binary32_overflow_pos
  by (simp add: rounded_def Let_def signed_inf_def signed_zero_def in_format_def)

lemma in_format_simps:
  "in_format PInf" "in_format NInf" "in_format NegZero" "in_format (Val 0)" "\<not> in_format NaN"
  using binary32_overflow_pos by (simp_all add: in_format_def)

lemma fdiv_in_format:
  assumes "in_format a" and "t \<noteq> 0"
  shows "in_format (fdiv a (Val t))"
  using assms
  by (cases a)
    (simp_all add: fdiv_def is_nan_def is_inf_def is_zero_def rounded_in_format
       signed_inf_def in_format_simps)

lemma float_of_int_negative:
  assumes "i < 0" and "- (2 ^ 31) \<le> i"
  shows "\<exists>t. float_of_int i = Val t \<and> t \<noteq> 0"
proof -
  define t where "t = round_binary32 (of_int i)"
  have "t \<le> round_binary32 (of_int (- 1))"
    unfolding t_def using assms(1) by (intro round_binary32_mono) simp
  then have hi: "t \<le> - 1"
    using round_binary32_int [of "- 1"] by simp
  have "round_magnitude (of_int 1 * 2 ^ 31) = of_int 1 * 2 ^ 31"
    by (rule round_magnitude_pow2_mult) simp_all
  then have "round_binary32 (- (2 ^ 31)) = - (2 ^ 31)"
    by (simp add: round_binary32_def)
  moreover have "round_binary32 (- (2 ^ 31)) \<le> t"
    unfolding t_def using assms(2) by (intro round_binary32_mono) simp
  ultimately have lo: "- (2 ^ 31) \<le> t" by simp
  have "\<bar>t\<bar> \<le> 2 ^ 31" using lo hi by simp
  then have "\<bar>t\<bar> < binary32_overflow" by (simp add: binary32_overflow_def)
  then have "float_of_int i = Val t"
    using hi by (simp add: float_of_int_def rounded_def t_def [symmetric] Let_def)
  with hi show ?thesis by auto
qed

lemma calculate_percentage_range_nonzero:
  assumes "sint (CONFIG_TANK_HEIGHT_CM cfg) \<noteq> 0" and "\<not> is_nan d"
  shows "percentage_in_range (calculate_percentage cfg d)"
proof (cases "0 < sint (CONFIG_TANK_HEIGHT_CM cfg)")
  case True
  then show ?thesis using assms(2) by (rule calculate_percentage_range)
next
  case False
  with assms(1) have "sint (CONFIG_TANK_HEIGHT_CM cfg) < 0" by simp
  moreover have "- (2 ^ 31) \<le> sint (CONFIG_TANK_HEIGHT_CM cfg)"
    using sint_ge [of "CONFIG_TANK_HEIGHT_CM cfg"] by simp
  ultimately obtain t where t: "float_of_int (sint (CONFIG_TANK_HEIGHT_CM cfg)) = Val t" "t \<noteq> 0"
    using float_of_int_negative by blast
  have "in_format (fsub (Val t) d)" using assms(2) by (rule fsub_not_nan)
  then have "in_format (fdiv (fsub (Val t) d) (Val t))"
    using t(2) by (rule fdiv_in_format)
  then have "in_format (fmul (fdiv (fsub (Val t) d) (Val t)) (Val 100))"
    using fmul_key by blast
  then show ?thesis
    using clamp_ifs_key by (simp add: calculate_percentage_clamp_ifs t(1))
qed

lemma calculate_percentage_no_height:
  assumes "sint (CONFIG_TANK_HEIGHT_CM cfg) = 0" and "v \<noteq> 0"
    and "round_binary32 (- v) = - v" and "\<bar>v\<bar> < binary32_overflow"
  shows "calculate_percentage cfg (Val v) = (if 0 < v then Val 0 else Val 100)"
proof -
  have "rounded negative (- v) = Val (- v)" for negative
    using assms(2-4) by (intro rounded_val) simp_all
  then show ?thesis
    using assms(2)
    by (simp add: calculate_percentage_def assms(1) float_of_int_consts float_ops_defs Let_def)
qed

lemma reading_percentage_in_range:
  "percentage_in_range (calculate_percentage cfg (fst (read_distance_cm c)))"
proof (cases "sint (CONFIG_TANK_HEIGHT_CM cfg) = 0")
  case True
  obtain k where k: "- 49 \<le> k" "k \<le> 49"
    "fst (read_distance_cm c) = Val (real_of_int (20 + 3 * k) / 2)"
    using read_distance_cm_value by blast
  define v where "v = real_of_int (20 + 3 * k) / 2"
  have "20 + 3 * k \<noteq> 0" by presburger
  then have n: "v \<noteq> 0" by (simp add: v_def)
  have "\<bar>- (20 + 3 * k)\<bar> \<le> 2 ^ 24" using k(1,2) by simp
  then have "round_binary32 (real_of_int (- (20 + 3 * k)) / 2) = real_of_int (- (20 + 3 * k)) / 2"
    by (rule round_binary32_half)
  moreover have "real_of_int (- (20 + 3 * k)) / 2 = - v"
    unfolding v_def by (simp only: of_int_minus minus_divide_left)
  ultimately have r: "round_binary32 (- v) = - v" by (simp only:)
  have "\<bar>v\<bar> \<le> 100" using k(1,2) by (simp add: v_def)
  then have b: "\<bar>v\<bar> < binary32_overflow" by (simp add: binary32_overflow_def)
  have "calculate_percentage cfg (Val v) = (if 0 < v then Val 0 else Val 100)"
    using True n r b by (rule calculate_percentage_no_height)
  then have "percentage_in_range (calculate_percentage cfg (Val v))"
    by (simp add: percentage_in_range_def is_finite_def float_value_def)
  then show ?thesis by (simp only: k(3) v_def)
next
  case False
  have "\<not> is_nan (fst (read_distance_cm c))"
    using read_distance_cm_finite [of c]
    by (cases "fst (read_distance_cm c)") (simp_all add: is_finite_def is_nan_def)
  with False show ?thesis by (rule calculate_percentage_range_nonzero)
qed

lemma percentage_conversions:
  "one_decimal (printf_1f (calculate_percentage cfg (fst (read_distance_cm c))))
   \<and> length (printf_1f (calculate_percentage cfg (fst (read_distance_cm c)))) \<le> 6"
  using reading_percentage_in_range [of cfg c]
  by (simp add: percentage_in_range_def printf_1f_one_decimal length_printf_1f)

text \<open>Readings of the examples.\<close>

lemma round_87_hundredths: "round_binary32 (87 / 100) = 7298089 / 8388608"
  by (simp add: round_binary32_eval [where s = 125] round_half_even_def)

lemma round_87: "round_binary32 (7298089 / 8388608 * 100) = 87"
  by (simp add: round_binary32_eval [where s = 132] round_half_even_def)

lemma round_885_thousandths: "round_binary32 (885 / 1000) = 3711959 / 4194304"
  by (simp add: round_binary32_eval [where s = 125] round_half_even_def)

lemma round_885_tenths: "round_binary32 (3711959 / 4194304 * 100) = 177 / 2"
  by (simp add: round_binary32_eval [where s = 132] round_half_even_def)

lemma round_9855: "round_binary32 (9855 / 10000) = 8266973 / 8388608"
  by (simp add: round_binary32_eval [where s = 125] round_half_even_def)

lemma round_9855_hundredths: "round_binary32 (8266973 / 8388608 * 100) = 12917145 / 131072"
  by (simp add: round_binary32_eval [where s = 132] round_half_even_def)

lemma read_distance_cm_examples:
  "read_distance_cm 0 = (Val (23 / 2), 1,
     [Log ESP_LOGI ''Mock sensor reading: %.1f cm'' [Arg_float (Val (23 / 2))]])"
  "read_distance_cm 1 = (Val 13, 2,
     [Log ESP_LOGI ''Mock sensor reading: %.1f cm'' [Arg_float (Val 13)]])"
  "read_distance_cm 2 = (Val (29 / 2), 3,
     [Log ESP_LOGI ''Mock sensor reading: %.1f cm'' [Arg_float (Val (29 / 2))]])"
proof -
  have c: "float_of_int 1 = Val 1" "float_of_int 2 = Val 2" "float_of_int 3 = Val 3"
    using float_of_int_small [of 1] float_of_int_small [of 2] float_of_int_small [of 3]
    by simp_all
  have r: "rounded n (3 / 2) = Val (3 / 2)" "rounded n 3 = Val 3" "rounded n (9 / 2) = Val (9 / 2)"
    "rounded n (23 / 2) = Val (23 / 2)" "rounded n 13 = Val 13" "rounded n (29 / 2) = Val (29 / 2)"
    for n
    using round_binary32_half [of 3] round_binary32_int [of 3] round_binary32_half [of 9]
      round_binary32_half [of 23] round_binary32_int [of 13] round_binary32_half [of 29]
    by (simp_all add: rounded_def binary32_overflow_def Let_def)
  show "read_distance_cm 0 = (Val (23 / 2), 1,
     [Log ESP_LOGI ''Mock sensor reading: %.1f cm'' [Arg_float (Val (23 / 2))]])"
    by (simp add: read_distance_cm_def signed_modulo_int_def c r float_ops_defs Let_def)
  show "read_distance_cm 1 = (Val 13, 2,
     [Log ESP_LOGI ''Mock sensor reading: %.1f cm'' [Arg_float (Val 13)]])"
    by (simp add: read_distance_cm_def signed_modulo_int_def c r float_ops_defs Let_def)
  show "read_distance_cm 2 = (Val (29 / 2), 3,
     [Log ESP_LOGI ''Mock sensor reading: %.1f cm'' [Arg_float (Val (29 / 2))]])"
    by (simp add: read_distance_cm_def signed_modulo_int_def c r float_ops_defs Let_def)
qed

lemma calculate_percentage_examples:
  "calculate_percentage example_config (Val (23 / 2)) = Val (177 / 2)"
  "calculate_percentage example_config (Val 13) = Val 87"
  "calculate_percentage tall_tank_config (Val (29 / 2)) = Val (12917145 / 131072)"
proof -
  have h: "sint (CONFIG_TANK_HEIGHT_CM example_config) = 100"
    "sint (CONFIG_TANK_HEIGHT_CM tall_tank_config) = 1000"
    by (simp_all add: tall_tank_config_def example_config_def)
  have t: "float_of_int 1000 = Val 1000"
    using float_of_int_small [of 1000] by simp
  have r: "rounded n (177 / 2) = Val (177 / 2)" "rounded n 87 = Val 87"
    "rounded n (1971 / 2) = Val (1971 / 2)"
    "rounded n (885 / 1000) = Val (3711959 / 4194304)"
    "rounded n (3711959 / 4194304 * 100) = Val (177 / 2)"
    "rounded n (87 / 100) = Val (7298089 / 8388608)"
    "rounded n (7298089 / 8388608 * 100) = Val 87"
    "rounded n (9855 / 10000) = Val (8266973 / 8388608)"
    "rounded n (8266973 / 8388608 * 100) = Val (12917145 / 131072)"
    for n
    using round_binary32_half [of 177] round_binary32_int [of 87] round_binary32_half [of 1971]
      round_885_thousandths round_885_tenths round_87_hundredths round_87
      round_9855 round_9855_hundredths
    by (simp_all add: rounded_def binary32_overflow_def Let_def)
  show "calculate_percentage example_config (Val (23 / 2)) = Val (177 / 2)"
    using r(1,4,5)
    by (simp add: calculate_percentage_def h float_of_int_consts float_ops_defs Let_def)
  show "calculate_percentage example_config (Val 13) = Val 87"
    using r(2,6,7)
    by (simp add: calculate_percentage_def h float_of_int_consts float_ops_defs Let_def)
  show "calculate_percentage tall_tank_config (Val (29 / 2)) = Val (12917145 / 131072)"
    using r(3,8,9)
    by (simp add: calculate_percentage_def h t float_of_int_consts float_ops_defs Let_def)
qed

lemma printf_1f_examples:
  "printf_1f (Val (23 / 2)) = ''11.5''" "printf_1f (Val (177 / 2)) = ''88.5''"
  "printf_1f (Val (29 / 2)) = ''14.5''" "printf_1f (Val (12917145 / 131072)) = ''98.5''"
  "printf_1f (Val (1971 / 20)) = ''98.6''"
  by (simp_all add: printf_1f_def round_half_even_def show_nat.simps decimal_digit_def Let_def)

text \<open>What the discovery publisher leaves in an execution.\<close>

lemma discovery_skips_append:
  "discovery_skips (xs @ ys) = discovery_skips xs + discovery_skips ys"
  by (simp add: discovery_skips_def)

lemma discovery_skips_Nil: "discovery_skips [] = 0"
  by (simp add: discovery_skips_def)

lemma discovery_skips_Cons:
  "discovery_skips (a # acts) =
     (if a = Log ESP_LOGW ''MQTT not connected, skipping discovery'' [] then 1 else 0)
     + discovery_skips acts"
  by (simp add: discovery_skips_def)

lemma publish_ha_discovery_discovery:
  "filter is_discovery_publish (publish_ha_discovery cfg s) =
     (if mqtt_connected s
      then [Esp_mqtt_client_publish
              (snprintf 128 (distance_config_topic (CONFIG_MQTT_CLIENT_ID cfg)))
              (snprintf 512 (distance_config_payload (CONFIG_MQTT_CLIENT_ID cfg))) 0 1 True,
            Esp_mqtt_client_publish
              (snprintf 128 (percentage_config_topic (CONFIG_MQTT_CLIENT_ID cfg)))
              (snprintf 512 (percentage_config_payload (CONFIG_MQTT_CLIENT_ID cfg))) 0 1 True]
      else [])"
  by (simp add: publish_ha_discovery_def is_discovery_publish_def)

lemma publish_ha_discovery_skips:
  "discovery_skips (publish_ha_discovery cfg s) = (if mqtt_connected s then 0 else 1)"
  by (simp add: publish_ha_discovery_def discovery_skips_def)

lemmas count_skips_simps =
  publish_ha_discovery_skips discovery_skips_append discovery_skips_Cons discovery_skips_Nil

lemma step_discovery_effects:
  assumes "phase s = PublishingDiscovery"
  shows "filter is_discovery_publish (snd (sensor_task_step cfg f1 r s))
           = filter is_discovery_publish (publish_ha_discovery cfg s)"
    and "discovery_skips (snd (sensor_task_step cfg f1 r s))
           = discovery_skips (publish_ha_discovery cfg s)"
    and "phase (fst (sensor_task_step cfg f1 r s)) = Running"
    and "mqtt_connected (fst (sensor_task_step cfg f1 r s)) = mqtt_connected s"
  by (simp_all add: step_discovery [OF assms] is_discovery_publish_def discovery_skips_def)

lemma step_discovery_outcome:
  assumes "phase s = PublishingDiscovery"
  shows "length (filter is_discovery_publish (snd (sensor_task_step cfg f1 r s)))
           + 2 * discovery_skips (snd (sensor_task_step cfg f1 r s)) = 2"
  by (simp add: step_discovery_effects [OF assms] publish_ha_discovery_discovery
        publish_ha_discovery_skips)

text \<open>Every other step and every event leave nothing of it.\<close>

lemma sys_step_no_discovery:
  assumes "phase s \<noteq> PublishingDiscovery \<or> ev = Mqtt_event event"
  shows "filter is_discovery_publish (snd (sys_step cfg f1 ev s)) = []
       \<and> discovery_skips (snd (sys_step cfg f1 ev s)) = 0
       \<and> (phase (fst (sys_step cfg f1 ev s)) = Running \<longleftrightarrow> phase s = Running)"
proof (cases ev)
  case (Mqtt_event e)
  then show ?thesis
    by (cases e) (simp_all add: sys_step_def mqtt_event_handler_def is_discovery_publish_def
          discovery_skips_def)
next
  case (Sensor_task_step r)
  with assms have p: "phase s \<noteq> PublishingDiscovery" by simp
  show ?thesis
  proof (cases "phase s")
    case AwaitingSession
    then show ?thesis using Sensor_task_step
      by (simp add: sys_step_def step_awaiting discovery_skips_def is_discovery_publish_def)
  next
    case SettleDelay
    then show ?thesis using Sensor_task_step
      by (simp add: sys_step_def step_settle discovery_skips_def is_discovery_publish_def)
  next
    case PublishingDiscovery
    with p show ?thesis by simp
  next
    case Running
    then show ?thesis using Sensor_task_step
      by (simp add: sys_step_def step_running read_distance_cm_log discovery_skips_def
            is_discovery_publish_def)
  qed
qed

lemma sys_run_running_skips:
  assumes "phase s = Running"
  shows "discovery_skips (snd (sys_run cfg f1 evs s)) = 0"
  using assms
proof (induction evs arbitrary: s)
  case Nil
  then show ?case by (simp add: discovery_skips_def)
next
  case (Cons ev evs)
  have "phase s \<noteq> PublishingDiscovery \<or> ev = Mqtt_event MQTT_EVENT_other"
    using Cons.prems by simp
  from sys_step_no_discovery [OF this, of cfg f1] Cons.prems
  have step: "discovery_skips (snd (sys_step cfg f1 ev s)) = 0"
    "phase (fst (sys_step cfg f1 ev s)) = Running" by simp_all
  from Cons.IH [OF step(2)] step(1) show ?case
    by (simp add: discovery_skips_append)
qed

text \<open>
  Over an execution that starts before the measurement loop, the publisher has
  run once if the loop has been reached, and not at all otherwise.
\<close>

lemma sys_run_outcome:
  assumes "phase s \<noteq> Running"
  shows "length (filter is_discovery_publish (snd (sys_run cfg f1 evs s)))
           + 2 * discovery_skips (snd (sys_run cfg f1 evs s))
         = (if phase (fst (sys_run cfg f1 evs s)) = Running then 2 else 0)"
  using assms
proof (induction evs arbitrary: s)
  case Nil
  then show ?case by (simp add: discovery_skips_def)
next
  case (Cons ev evs)
  show ?case
  proof (cases "phase s = PublishingDiscovery \<and> (\<exists>r. ev = Sensor_task_step r)")
    case True
    then obtain r where ev: "ev = Sensor_task_step r" and p: "phase s = PublishingDiscovery"
      by blast
    have run: "phase (fst (sys_step cfg f1 ev s)) = Running"
      by (simp add: ev sys_step_def step_discovery_effects(3) [OF p])
    have "length (filter is_discovery_publish (snd (sys_step cfg f1 ev s)))
           + 2 * discovery_skips (snd (sys_step cfg f1 ev s)) = 2"
      using step_discovery_outcome [OF p, of cfg f1 r] by (simp add: ev sys_step_def)
    with sys_run_running [OF run, of cfg f1 evs] sys_run_running_skips [OF run, of cfg f1 evs]
    show ?thesis by (simp add: discovery_skips_append)
  next
    case False
    then have "phase s \<noteq> PublishingDiscovery \<or> ev = Mqtt_event (case ev of Mqtt_event e \<Rightarrow> e)"
      by (cases ev) simp_all
    from sys_step_no_discovery [OF this, of cfg f1] Cons.prems
    have step: "filter is_discovery_publish (snd (sys_step cfg f1 ev s)) = []"
      "discovery_skips (snd (sys_step cfg f1 ev s)) = 0"
      "phase (fst (sys_step cfg f1 ev s)) \<noteq> Running" by simp_all
    from Cons.IH [OF step(3)] step(1,2) show ?thesis
      by (simp add: discovery_skips_append)
  qed
qed

text \<open>
  While no \<open>MQTT_EVENT_DISCONNECTED\<close> arrives, the flag that let the task leave its
  polling loop is still set when the publisher runs.
\<close>

lemma sys_run_session_kept:
  assumes "Mqtt_event MQTT_EVENT_DISCONNECTED \<notin> set evs"
    and "phase s \<noteq> Running"
    and "phase s \<noteq> AwaitingSession \<longrightarrow> mqtt_connected s"
  shows "filter is_discovery_publish (snd (sys_run cfg f1 evs s)) =
           (if phase (fst (sys_run cfg f1 evs s)) = Running
            then [Esp_mqtt_client_publish
                    (snprintf 128 (distance_config_topic (CONFIG_MQTT_CLIENT_ID cfg)))
                    (snprintf 512 (distance_config_payload (CONFIG_MQTT_CLIENT_ID cfg))) 0 1 True,
                  Esp_mqtt_client_publish
                    (snprintf 128 (percentage_config_topic (CONFIG_MQTT_CLIENT_ID cfg)))
                    (snprintf 512 (percentage_config_payload (CONFIG_MQTT_CLIENT_ID cfg))) 0 1 True]
            else [])"
  using assms
proof (induction evs arbitrary: s)
  case Nil
  then show ?case by simp
next
  case (Cons ev evs)
  have rest: "Mqtt_event MQTT_EVENT_DISCONNECTED \<notin> set evs"
    and ev: "ev \<noteq> Mqtt_event MQTT_EVENT_DISCONNECTED"
    using Cons.prems(1) by auto
  show ?case
  proof (cases "phase s = PublishingDiscovery \<and> (\<exists>r. ev = Sensor_task_step r)")
    case True
    then obtain r where r: "ev = Sensor_task_step r" and p: "phase s = PublishingDiscovery"
      by blast
    have c: "mqtt_connected s" using Cons.prems(3) p by simp
    have run: "phase (fst (sys_step cfg f1 ev s)) = Running"
      by (simp add: r sys_step_def step_discovery_effects(3) [OF p])
    have "filter is_discovery_publish (snd (sys_step cfg f1 ev s))
        = filter is_discovery_publish (publish_ha_discovery cfg s)"
      by (simp add: r sys_step_def step_discovery_effects(1) [OF p])
    with sys_run_running [OF run, of cfg f1 evs] c show ?thesis
      by (simp add: publish_ha_discovery_discovery)
  next
    case False
    then have "phase s \<noteq> PublishingDiscovery \<or> ev = Mqtt_event (case ev of Mqtt_event e \<Rightarrow> e)"
      by (cases ev) simp_all
    from sys_step_no_discovery [OF this, of cfg f1] Cons.prems(2)
    have step: "filter is_discovery_publish (snd (sys_step cfg f1 ev s)) = []"
      "phase (fst (sys_step cfg f1 ev s)) \<noteq> Running" by simp_all
    have kept: "phase (fst (sys_step cfg f1 ev s)) \<noteq> AwaitingSession
        \<longrightarrow> mqtt_connected (fst (sys_step cfg f1 ev s))"
    proof (cases ev)
      case (Mqtt_event e)
      with ev have "e \<noteq> MQTT_EVENT_DISCONNECTED" by simp
      then show ?thesis
        using Cons.prems(3) Mqtt_event
        by (cases e) (simp_all add: sys_step_def mqtt_event_handler_def)
    next
      case (Sensor_task_step r)
      with False have "phase s \<noteq> PublishingDiscovery" by simp
      then show ?thesis
        using Cons.prems(2,3) Sensor_task_step
        by (cases "phase s") (simp_all add: sys_step_def step_awaiting step_settle)
    qed
    from Cons.IH [OF rest step(2) kept] step(1) show ?thesis by simp
  qed
qed

text \<open>
  Claim C3. A measurement cycle that finds \<open>mqtt_connected\<close> false makes no publish
  call, logs the skip, sleeps for the reading interval and is again at the head of
  the loop; a step of the task makes a publish call only if \<open>mqtt_connected\<close> is
  true when the step reads it; and the task never leaves the loop.
\<close>

theorem telemetry_skipped_when_disconnected:
  "(phase s = Running \<and> \<not> mqtt_connected s \<longrightarrow>
       filter is_publish (snd (sensor_task_step cfg f1 r s)) = []
     \<and> Log ESP_LOGW ''MQTT not connected, skipping publish'' []
          \<in> set (snd (sensor_task_step cfg f1 r s))
     \<and> last (snd (sensor_task_step cfg f1 r s))
          = VTaskDelay_ms (CONFIG_READING_INTERVAL_SEC cfg * 1000)
     \<and> phase (fst (sensor_task_step cfg f1 r s)) = Running)
   \<and> ((\<exists>a \<in> set (snd (sensor_task_step cfg f1 r s)). is_publish a) \<longrightarrow> mqtt_connected s)
   \<and> (phase s = Running \<longrightarrow> phase (fst (sys_run cfg f1 evs s)) = Running)"
proof -
  have skip: "phase s = Running \<and> \<not> mqtt_connected s \<longrightarrow>
       filter is_publish (snd (sensor_task_step cfg f1 r s)) = []
     \<and> Log ESP_LOGW ''MQTT not connected, skipping publish'' []
          \<in> set (snd (sensor_task_step cfg f1 r s))
     \<and> last (snd (sensor_task_step cfg f1 r s))
          = VTaskDelay_ms (CONFIG_READING_INTERVAL_SEC cfg * 1000)
     \<and> phase (fst (sensor_task_step cfg f1 r s)) = Running"
  proof
    assume a: "phase s = Running \<and> \<not> mqtt_connected s"
    then have run: "phase s = Running" and off: "\<not> mqtt_connected s" by simp_all
    have "filter is_publish (snd (sensor_task_step cfg f1 r s)) = []"
      using off by (simp add: step_running_publishes [OF run])
    moreover have "Log ESP_LOGW ''MQTT not connected, skipping publish'' []
          \<in> set (snd (sensor_task_step cfg f1 r s))"
      using off by (simp add: step_running [OF run])
    moreover have "last (snd (sensor_task_step cfg f1 r s))
          = VTaskDelay_ms (CONFIG_READING_INTERVAL_SEC cfg * 1000)"
      by (simp add: step_running [OF run])
    moreover have "phase (fst (sensor_task_step cfg f1 r s)) = Running"
      using step_running_quiet [OF run] by simp
    ultimately show "filter is_publish (snd (sensor_task_step cfg f1 r s)) = []
     \<and> Log ESP_LOGW ''MQTT not connected, skipping publish'' []
          \<in> set (snd (sensor_task_step cfg f1 r s))
     \<and> last (snd (sensor_task_step cfg f1 r s))
          = VTaskDelay_ms (CONFIG_READING_INTERVAL_SEC cfg * 1000)
     \<and> phase (fst (sensor_task_step cfg f1 r s)) = Running"
      by simp
  qed
  have gate: "(\<exists>a \<in> set (snd (sensor_task_step cfg f1 r s)). is_publish a) \<longrightarrow> mqtt_connected s"
    using step_publish_needs_session by blast
  have stay: "phase s = Running \<longrightarrow> phase (fst (sys_run cfg f1 evs s)) = Running"
    using sys_run_running by blast
  from skip gate stay show ?thesis by blast
qed

theorem telemetry_skipped_when_disconnected_witness:
  "phase \<lparr>mqtt_connected = False, phase = Running, count = 1\<rparr> = Running
   \<and> \<not> mqtt_connected \<lparr>mqtt_connected = False, phase = Running, count = 1\<rparr>
   \<and> sensor_task_step example_config printf_1f 0 \<lparr>mqtt_connected = False, phase = Running, count = 1\<rparr>
       = (\<lparr>mqtt_connected = False, phase = Running, count = 2\<rparr>,
          [Log ESP_LOGI ''Mock sensor reading: %.1f cm'' [Arg_float (Val 13)],
           Log ESP_LOGI ''Distance: %.1f cm, Salt level: %.1f%%''
             [Arg_float (Val 13), Arg_float (Val 87)],
           Log ESP_LOGW ''MQTT not connected, skipping publish'' [],
           VTaskDelay_ms 60000])
   \<and> filter is_publish
        (snd (sensor_task_step example_config printf_1f 0
                \<lparr>mqtt_connected = False, phase = Running, count = 1\<rparr>)) = []
   \<and> is_publish (Esp_mqtt_client_publish (state_topic example_config)
                    (state_payload printf_1f (Val (23 / 2)) (Val (177 / 2))) 0 0 False)
   \<and> Esp_mqtt_client_publish (state_topic example_config)
        (state_payload printf_1f (Val (23 / 2)) (Val (177 / 2))) 0 0 False
       \<in> set (snd (sensor_task_step example_config printf_1f 1
                      \<lparr>mqtt_connected = True, phase = Running, count = 0\<rparr>))
   \<and> phase (fst (sys_run example_config printf_1f reconnect_trace
                    \<lparr>mqtt_connected = False, phase = Running, count = 1\<rparr>)) = Running"
  using telemetry_skipped_when_disconnected
          [where s = "\<lparr>mqtt_connected = False, phase = Running, count = 1\<rparr>"
             and cfg = example_config and ?f1.0 = printf_1f and r = 0 and evs = reconnect_trace]
        telemetry_skipped_when_disconnected
          [where s = "\<lparr>mqtt_connected = True, phase = Running, count = 0\<rparr>"
             and cfg = example_config and ?f1.0 = printf_1f and r = 1 and evs = "[]"]
  by (simp add: step_running read_distance_cm_examples calculate_percentage_examples
        is_publish_def)
     (simp add: example_config_def)

lemmas run_example_simps =
  reconnect_trace_def sys_init_def sys_step_def mqtt_event_handler_def
  step_awaiting step_settle step_discovery step_running read_distance_cm_log

lemmas count_invocations_simps =
  publish_ha_discovery_no_marker discovery_invocations_append
  discovery_invocations_Cons discovery_invocations_Nil

subsection \<open>Discovery\<close>

text \<open>
  Claim C1 as stated fails: in \<open>reconnect_trace\<close> the session goes from
  disconnected to connected twice, and \<open>publish_ha_discovery\<close> is called once and
  two discovery messages are published, not twice and four.
\<close>

theorem discovery_per_transition_counterexample:
  "session_transitions (mqtt_connected sys_init) reconnect_trace = 2
   \<and> discovery_invocations (snd (sys_run example_config printf_1f reconnect_trace sys_init)) = 1
   \<and> length (filter is_discovery_publish
               (snd (sys_run example_config printf_1f reconnect_trace sys_init))) = 2
   \<and> discovery_invocations (snd (sys_run example_config printf_1f reconnect_trace sys_init))
       \<noteq> session_transitions (mqtt_connected sys_init) reconnect_trace
   \<and> length (filter is_discovery_publish
               (snd (sys_run example_config printf_1f reconnect_trace sys_init)))
       \<noteq> 2 * session_transitions (mqtt_connected sys_init) reconnect_trace"
proof -
  have "session_transitions (mqtt_connected sys_init) reconnect_trace = 2"
    by (simp add: reconnect_trace_def sys_init_def)
  moreover have "discovery_invocations
      (snd (sys_run example_config printf_1f reconnect_trace sys_init)) = 1"
    by (simp add: run_example_simps count_invocations_simps)
  moreover have "length (filter is_discovery_publish
      (snd (sys_run example_config printf_1f reconnect_trace sys_init))) = 2"
    by (simp add: run_example_simps publish_ha_discovery_count is_discovery_publish_def)
  ultimately show ?thesis by simp
qed

text \<open>
  Claim C1, amended. Discovery is published once per run of the task, on its first
  session, not once per reconnection. \<open>mqtt_event_handler\<close> only records the session
  in \<open>mqtt_connected\<close> and logs: it publishes nothing, whatever the event. Over
  every sequence of MQTT events and task steps from the initial state,
  \<open>publish_ha_discovery\<close> has run exactly once if the task has reached its
  measurement loop and not at all otherwise, and a run of it is either its two
  retained publish calls or its warning that the session is not connected. When no
  \<open>MQTT_EVENT_DISCONNECTED\<close> has arrived, the discovery messages of the execution
  are exactly the two of \<open>publish_ha_discovery\<close>, distance then percentage, once
  the loop is reached. From the measurement loop on, no sequence of events and
  steps publishes a discovery message or runs the publisher, whatever the session
  does.
\<close>

theorem discovery_once_per_task_run:
  "filter is_publish (snd (mqtt_event_handler event s)) = []
   \<and> fst (mqtt_event_handler MQTT_EVENT_CONNECTED s) = s\<lparr>mqtt_connected := True\<rparr>
   \<and> length (filter is_discovery_publish (snd (sys_run cfg f1 evs sys_init)))
         + 2 * discovery_skips (snd (sys_run cfg f1 evs sys_init))
       = (if phase (fst (sys_run cfg f1 evs sys_init)) = Running then 2 else 0)
   \<and> (Mqtt_event MQTT_EVENT_DISCONNECTED \<notin> set evs \<longrightarrow>
         filter is_discovery_publish (snd (sys_run cfg f1 evs sys_init)) =
           (if phase (fst (sys_run cfg f1 evs sys_init)) = Running
            then [Esp_mqtt_client_publish
                    (snprintf 128 (distance_config_topic (CONFIG_MQTT_CLIENT_ID cfg)))
                    (snprintf 512 (distance_config_payload (CONFIG_MQTT_CLIENT_ID cfg))) 0 1 True,
                  Esp_mqtt_client_publish
                    (snprintf 128 (percentage_config_topic (CONFIG_MQTT_CLIENT_ID cfg)))
                    (snprintf 512 (percentage_config_payload (CONFIG_MQTT_CLIENT_ID cfg))) 0 1 True]
            else []))
   \<and> (phase s = Running \<longrightarrow>
         filter is_discovery_publish (snd (sys_run cfg f1 evs s)) = []
       \<and> discovery_skips (snd (sys_run cfg f1 evs s)) = 0
       \<and> discovery_invocations (snd (sys_run cfg f1 evs s)) = 0)"
proof -
  have handler: "filter is_publish (snd (mqtt_event_handler event s)) = []"
    using mqtt_event_handler_silent by blast
  have flag: "fst (mqtt_event_handler MQTT_EVENT_CONNECTED s) = s\<lparr>mqtt_connected := True\<rparr>"
    by (simp add: mqtt_event_handler_def)
  have init: "phase sys_init \<noteq> Running" "phase sys_init \<noteq> AwaitingSession \<longrightarrow> mqtt_connected sys_init"
    by (simp_all add: sys_init_def)
  have once: "length (filter is_discovery_publish (snd (sys_run cfg f1 evs sys_init)))
         + 2 * discovery_skips (snd (sys_run cfg f1 evs sys_init))
       = (if phase (fst (sys_run cfg f1 evs sys_init)) = Running then 2 else 0)"
    using init(1) by (rule sys_run_outcome)
  have kept: "Mqtt_event MQTT_EVENT_DISCONNECTED \<notin> set evs \<longrightarrow>
         filter is_discovery_publish (snd (sys_run cfg f1 evs sys_init)) =
           (if phase (fst (sys_run cfg f1 evs sys_init)) = Running
            then [Esp_mqtt_client_publish
                    (snprintf 128 (distance_config_topic (CONFIG_MQTT_CLIENT_ID cfg)))
                    (snprintf 512 (distance_config_payload (CONFIG_MQTT_CLIENT_ID cfg))) 0 1 True,
                  Esp_mqtt_client_publish
                    (snprintf 128 (percentage_config_topic (CONFIG_MQTT_CLIENT_ID cfg)))
                    (snprintf 512 (percentage_config_payload (CONFIG_MQTT_CLIENT_ID cfg))) 0 1 True]
            else [])"
    using sys_run_session_kept [OF _ init] by blast
  have running: "phase s = Running \<longrightarrow>
         filter is_discovery_publish (snd (sys_run cfg f1 evs s)) = []
       \<and> discovery_skips (snd (sys_run cfg f1 evs s)) = 0
       \<and> discovery_invocations (snd (sys_run cfg f1 evs s)) = 0"
    using sys_run_running [of s cfg f1 evs] sys_run_running_skips [of s cfg f1 evs] by simp
  from handler flag once kept running show ?thesis by blast
qed

theorem discovery_once_per_task_run_witness:
  "Mqtt_event MQTT_EVENT_DISCONNECTED \<notin> set (take 5 reconnect_trace)
   \<and> phase (fst (sys_run example_config printf_1f (take 5 reconnect_trace) sys_init)) = Running
   \<and> filter is_discovery_publish
        (snd (sys_run example_config printf_1f (take 5 reconnect_trace) sys_init)) =
       [Esp_mqtt_client_publish
          (snprintf 128 (distance_config_topic (CONFIG_MQTT_CLIENT_ID example_config)))
          (snprintf 512 (distance_config_payload (CONFIG_MQTT_CLIENT_ID example_config))) 0 1 True,
        Esp_mqtt_client_publish
          (snprintf 128 (percentage_config_topic (CONFIG_MQTT_CLIENT_ID example_config)))
          (snprintf 512 (percentage_config_payload (CONFIG_MQTT_CLIENT_ID example_config))) 0 1 True]
   \<and> phase (fst (sys_run example_config printf_1f early_drop_trace sys_init)) = Running
   \<and> length (filter is_discovery_publish
               (snd (sys_run example_config printf_1f early_drop_trace sys_init)))
       + 2 * discovery_skips (snd (sys_run example_config printf_1f early_drop_trace sys_init)) = 2
   \<and> discovery_skips (snd (sys_run example_config printf_1f early_drop_trace sys_init)) = 1
   \<and> phase running_state = Running
   \<and> filter is_discovery_publish
        (snd (sys_run example_config printf_1f reconnect_trace running_state)) = []
   \<and> discovery_skips (snd (sys_run example_config printf_1f reconnect_trace running_state)) = 0"
proof -
  have a: "Mqtt_event MQTT_EVENT_DISCONNECTED \<notin> set (take 5 reconnect_trace)"
    by (simp add: reconnect_trace_def)
  have b: "phase (fst (sys_run example_config printf_1f (take 5 reconnect_trace) sys_init)) = Running"
    by (simp add: run_example_simps)
  have c: "phase (fst (sys_run example_config printf_1f early_drop_trace sys_init)) = Running"
    by (simp add: early_drop_trace_def run_example_simps)
  have d: "discovery_skips (snd (sys_run example_config printf_1f early_drop_trace sys_init)) = 1"
    by (simp add: early_drop_trace_def run_example_simps count_skips_simps)
  have e: "phase running_state = Running"
    by (simp add: running_state_def)
  from a b c d e
    discovery_once_per_task_run
      [where cfg = example_config and ?f1.0 = printf_1f and evs = "take 5 reconnect_trace"
         and s = running_state and event = MQTT_EVENT_CONNECTED]
    discovery_once_per_task_run
      [where cfg = example_config and ?f1.0 = printf_1f and evs = early_drop_trace
         and s = running_state and event = MQTT_EVENT_CONNECTED]
    discovery_once_per_task_run
      [where cfg = example_config and ?f1.0 = printf_1f and evs = reconnect_trace
         and s = running_state and event = MQTT_EVENT_CONNECTED]
  show ?thesis by simp
qed

text \<open>
  Claim C5. In every execution from the initial state, once a discovery message
  has been published no later part of the execution publishes another one, and
  \<open>publish_ha_discovery\<close> is called at most once; a measurement cycle neither
  calls it nor publishes a discovery message.
\<close>

theorem discovery_at_most_once:
  "((\<exists>a \<in> set (snd (sys_run cfg f1 evs1 sys_init)). is_discovery_publish a) \<longrightarrow>
       filter is_discovery_publish
         (snd (sys_run cfg f1 evs2 (fst (sys_run cfg f1 evs1 sys_init)))) = [])
   \<and> discovery_invocations (snd (sys_run cfg f1 (evs1 @ evs2) sys_init)) \<le> 1
   \<and> (phase s = Running \<longrightarrow>
         filter is_discovery_publish (snd (sensor_task_step cfg f1 r s)) = []
       \<and> discovery_invocations (snd (sensor_task_step cfg f1 r s)) = 0)"
proof -
  have first: "(\<exists>a \<in> set (snd (sys_run cfg f1 evs1 sys_init)). is_discovery_publish a) \<longrightarrow>
       filter is_discovery_publish
         (snd (sys_run cfg f1 evs2 (fst (sys_run cfg f1 evs1 sys_init)))) = []"
  proof
    assume "\<exists>a \<in> set (snd (sys_run cfg f1 evs1 sys_init)). is_discovery_publish a"
    then have "filter is_discovery_publish (snd (sys_run cfg f1 evs1 sys_init)) \<noteq> []"
      by (simp add: filter_empty_conv)
    with sys_run_messages [of cfg f1 evs1 sys_init]
    have "phase (fst (sys_run cfg f1 evs1 sys_init)) = Running" by simp
    then show "filter is_discovery_publish
         (snd (sys_run cfg f1 evs2 (fst (sys_run cfg f1 evs1 sys_init)))) = []"
      using sys_run_running by blast
  qed
  have "phase sys_init \<noteq> Running" by (simp add: sys_init_def)
  then have once: "discovery_invocations (snd (sys_run cfg f1 (evs1 @ evs2) sys_init)) \<le> 1"
    by (simp add: sys_run_invocations)
  have cycle: "phase s = Running \<longrightarrow>
         filter is_discovery_publish (snd (sensor_task_step cfg f1 r s)) = []
       \<and> discovery_invocations (snd (sensor_task_step cfg f1 r s)) = 0"
    using step_running_quiet by blast
  from first once cycle show ?thesis by blast
qed

theorem discovery_at_most_once_witness:
  "is_discovery_publish
     (Esp_mqtt_client_publish
        (snprintf 128 (distance_config_topic (CONFIG_MQTT_CLIENT_ID example_config)))
        (snprintf 512 (distance_config_payload (CONFIG_MQTT_CLIENT_ID example_config))) 0 1 True)
   \<and> Esp_mqtt_client_publish
        (snprintf 128 (distance_config_topic (CONFIG_MQTT_CLIENT_ID example_config)))
        (snprintf 512 (distance_config_payload (CONFIG_MQTT_CLIENT_ID example_config))) 0 1 True
      \<in> set (snd (sys_run example_config printf_1f (take 4 reconnect_trace) sys_init))
   \<and> filter is_discovery_publish
        (snd (sys_run example_config printf_1f (drop 4 reconnect_trace)
                (fst (sys_run example_config printf_1f (take 4 reconnect_trace) sys_init)))) = []
   \<and> phase running_state = Running
   \<and> filter is_discovery_publish
        (snd (sensor_task_step example_config printf_1f 7 running_state)) = []"
proof -
  have d: "is_discovery_publish
     (Esp_mqtt_client_publish
        (snprintf 128 (distance_config_topic (CONFIG_MQTT_CLIENT_ID example_config)))
        (snprintf 512 (distance_config_payload (CONFIG_MQTT_CLIENT_ID example_config))) 0 1 True)"
    by (simp add: is_discovery_publish_def)
  have m: "Esp_mqtt_client_publish
        (snprintf 128 (distance_config_topic (CONFIG_MQTT_CLIENT_ID example_config)))
        (snprintf 512 (distance_config_payload (CONFIG_MQTT_CLIENT_ID example_config))) 0 1 True
      \<in> set (snd (sys_run example_config printf_1f (take 4 reconnect_trace) sys_init))"
    by (simp add: run_example_simps publish_ha_discovery_def)
  have r: "phase running_state = Running"
    by (simp add: running_state_def)
  from d m r discovery_at_most_once
          [where cfg = example_config and ?f1.0 = printf_1f and ?evs1.0 = "take 4 reconnect_trace"
             and ?evs2.0 = "drop 4 reconnect_trace" and s = running_state and r = 7]
  show ?thesis by blast
qed

subsection \<open>Phases of the sensor task\<close>

text \<open>
  Claim C8. The task starts by polling: while \<open>mqtt_connected\<close> is false it sleeps
  1000 ms and polls again; once it is true the task sleeps 2000 ms; then, with no
  further delay, it logs, calls \<open>publish_ha_discovery\<close>, logs again and enters the
  measurement loop, whatever the flag is then and whatever the publish calls
  return. That step contains one run of the publisher: its two retained publish
  calls if the flag is set and its warning otherwise. No other step and no MQTT
  event contains one, so from the initial state the publisher has run exactly once
  when the loop is reached and not at all before. The task stays in the loop, and
  along every sequence of MQTT events and task steps the phase never goes back.
\<close>

theorem sensor_task_phase_order:
  "phase sys_init = AwaitingSession
   \<and> (phase s = AwaitingSession \<and> \<not> mqtt_connected s \<longrightarrow>
         sensor_task_step cfg f1 r s = (s, [VTaskDelay_ms 1000]))
   \<and> (phase s = AwaitingSession \<and> mqtt_connected s \<longrightarrow>
         sensor_task_step cfg f1 r s = (s\<lparr>phase := SettleDelay\<rparr>, []))
   \<and> (phase s = SettleDelay \<longrightarrow>
         sensor_task_step cfg f1 r s = (s\<lparr>phase := PublishingDiscovery\<rparr>, [VTaskDelay_ms 2000]))
   \<and> (phase s = PublishingDiscovery \<longrightarrow>
         sensor_task_step cfg f1 r s =
           (s\<lparr>phase := Running\<rparr>,
            [Log ESP_LOGI ''Publishing Home Assistant discovery messages...'' []]
            @ publish_ha_discovery cfg s
            @ [Log ESP_LOGI ''Discovery messages sent!'' []])
       \<and> length (filter is_discovery_publish (snd (sensor_task_step cfg f1 r s)))
           = (if mqtt_connected s then 2 else 0)
       \<and> discovery_skips (snd (sensor_task_step cfg f1 r s))
           = (if mqtt_connected s then 0 else 1)
       \<and> discovery_invocations (snd (sensor_task_step cfg f1 r s)) = 1
       \<and> delays (snd (sensor_task_step cfg f1 r s)) = [])
   \<and> (phase s \<noteq> PublishingDiscovery \<longrightarrow>
         filter is_discovery_publish (snd (sensor_task_step cfg f1 r s)) = []
       \<and> discovery_skips (snd (sensor_task_step cfg f1 r s)) = 0)
   \<and> filter is_discovery_publish (snd (mqtt_event_handler event s)) = []
   \<and> discovery_skips (snd (mqtt_event_handler event s)) = 0
   \<and> phase (fst (mqtt_event_handler event s)) = phase s
   \<and> length (filter is_discovery_publish (snd (sys_run cfg f1 evs sys_init)))
         + 2 * discovery_skips (snd (sys_run cfg f1 evs sys_init))
       = (if phase (fst (sys_run cfg f1 evs sys_init)) = Running then 2 else 0)
   \<and> (phase s = Running \<longrightarrow>
         phase (fst (sensor_task_step cfg f1 r s)) = Running
       \<and> discovery_invocations (snd (sensor_task_step cfg f1 r s)) = 0
       \<and> phase (fst (sys_run cfg f1 evs s)) = Running)
   \<and> phase_rank (phase s) \<le> phase_rank (phase (fst (sys_run cfg f1 evs s)))"
proof -
  have init: "phase sys_init = AwaitingSession"
    by (simp add: sys_init_def)
  have poll: "phase s = AwaitingSession \<and> \<not> mqtt_connected s \<longrightarrow>
         sensor_task_step cfg f1 r s = (s, [VTaskDelay_ms 1000])"
    by (simp add: step_awaiting)
  have seen: "phase s = AwaitingSession \<and> mqtt_connected s \<longrightarrow>
         sensor_task_step cfg f1 r s = (s\<lparr>phase := SettleDelay\<rparr>, [])"
    by (simp add: step_awaiting)
  have settle: "phase s = SettleDelay \<longrightarrow>
         sensor_task_step cfg f1 r s = (s\<lparr>phase := PublishingDiscovery\<rparr>, [VTaskDelay_ms 2000])"
    by (simp add: step_settle)
  have disc: "phase s = PublishingDiscovery \<longrightarrow>
         sensor_task_step cfg f1 r s =
           (s\<lparr>phase := Running\<rparr>,
            [Log ESP_LOGI ''Publishing Home Assistant discovery messages...'' []]
            @ publish_ha_discovery cfg s
            @ [Log ESP_LOGI ''Discovery messages sent!'' []])
       \<and> length (filter is_discovery_publish (snd (sensor_task_step cfg f1 r s)))
           = (if mqtt_connected s then 2 else 0)
       \<and> discovery_skips (snd (sensor_task_step cfg f1 r s))
           = (if mqtt_connected s then 0 else 1)
       \<and> discovery_invocations (snd (sensor_task_step cfg f1 r s)) = 1
       \<and> delays (snd (sensor_task_step cfg f1 r s)) = []"
  proof
    assume p: "phase s = PublishingDiscovery"
    have "sensor_task_step cfg f1 r s =
           (s\<lparr>phase := Running\<rparr>,
            [Log ESP_LOGI ''Publishing Home Assistant discovery messages...'' []]
            @ publish_ha_discovery cfg s
            @ [Log ESP_LOGI ''Discovery messages sent!'' []])"
      using p by (rule step_discovery)
    moreover have "length (filter is_discovery_publish (snd (sensor_task_step cfg f1 r s)))
           = (if mqtt_connected s then 2 else 0)"
      by (simp add: step_discovery_effects(1) [OF p] publish_ha_discovery_discovery)
    moreover have "discovery_skips (snd (sensor_task_step cfg f1 r s))
           = (if mqtt_connected s then 0 else 1)"
      by (simp add: step_discovery_effects(2) [OF p] publish_ha_discovery_skips)
    moreover have "discovery_invocations (snd (sensor_task_step cfg f1 r s)) = 1
       \<and> delays (snd (sensor_task_step cfg f1 r s)) = []"
      by (simp add: step_discovery [OF p] count_invocations_simps publish_ha_discovery_def)
    ultimately show "sensor_task_step cfg f1 r s =
           (s\<lparr>phase := Running\<rparr>,
            [Log ESP_LOGI ''Publishing Home Assistant discovery messages...'' []]
            @ publish_ha_discovery cfg s
            @ [Log ESP_LOGI ''Discovery messages sent!'' []])
       \<and> length (filter is_discovery_publish (snd (sensor_task_step cfg f1 r s)))
           = (if mqtt_connected s then 2 else 0)
       \<and> discovery_skips (snd (sensor_task_step cfg f1 r s))
           = (if mqtt_connected s then 0 else 1)
       \<and> discovery_invocations (snd (sensor_task_step cfg f1 r s)) = 1
       \<and> delays (snd (sensor_task_step cfg f1 r s)) = []"
      by blast
  qed
  have other: "phase s \<noteq> PublishingDiscovery \<longrightarrow>
         filter is_discovery_publish (snd (sensor_task_step cfg f1 r s)) = []
       \<and> discovery_skips (snd (sensor_task_step cfg f1 r s)) = 0"
    using sys_step_no_discovery [of s "Sensor_task_step r" MQTT_EVENT_other cfg f1]
    by (simp add: sys_step_def)
  have handler: "filter is_discovery_publish (snd (mqtt_event_handler event s)) = []
      \<and> discovery_skips (snd (mqtt_event_handler event s)) = 0
      \<and> phase (fst (mqtt_event_handler event s)) = phase s"
    using sys_step_no_discovery [of s "Mqtt_event event" event cfg f1]
      mqtt_event_handler_keeps_task [of event s]
    by (simp add: sys_step_def)
  have "phase sys_init \<noteq> Running" by (simp add: sys_init_def)
  then have once: "length (filter is_discovery_publish (snd (sys_run cfg f1 evs sys_init)))
         + 2 * discovery_skips (snd (sys_run cfg f1 evs sys_init))
       = (if phase (fst (sys_run cfg f1 evs sys_init)) = Running then 2 else 0)"
    by (rule sys_run_outcome)
  have run: "phase s = Running \<longrightarrow>
         phase (fst (sensor_task_step cfg f1 r s)) = Running
       \<and> discovery_invocations (snd (sensor_task_step cfg f1 r s)) = 0
       \<and> phase (fst (sys_run cfg f1 evs s)) = Running"
    using step_running_quiet sys_run_running by blast
  have mono: "phase_rank (phase s) \<le> phase_rank (phase (fst (sys_run cfg f1 evs s)))"
    by (rule sys_run_phase_rank)
  from init poll seen settle disc other handler once run mono show ?thesis by blast
qed

theorem sensor_task_phase_order_witness:
  "phase sys_init = AwaitingSession \<and> \<not> mqtt_connected sys_init
   \<and> sensor_task_step example_config printf_1f 0 sys_init = (sys_init, [VTaskDelay_ms 1000])
   \<and> sensor_task_step example_config printf_1f 0 (sys_init\<lparr>mqtt_connected := True\<rparr>)
       = (sys_init\<lparr>mqtt_connected := True, phase := SettleDelay\<rparr>, [])
   \<and> sensor_task_step example_config printf_1f 0
        (sys_init\<lparr>mqtt_connected := True, phase := SettleDelay\<rparr>)
       = (sys_init\<lparr>mqtt_connected := True, phase := PublishingDiscovery\<rparr>, [VTaskDelay_ms 2000])
   \<and> sensor_task_step example_config printf_1f 0
        (sys_init\<lparr>mqtt_connected := False, phase := PublishingDiscovery\<rparr>)
       = (sys_init\<lparr>mqtt_connected := False, phase := Running\<rparr>,
          [Log ESP_LOGI ''Publishing Home Assistant discovery messages...'' [],
           Log ESP_LOGW ''MQTT not connected, skipping discovery'' [],
           Log ESP_LOGI ''Discovery messages sent!'' []])
   \<and> length (filter is_discovery_publish
               (snd (sensor_task_step example_config printf_1f 0
                       (sys_init\<lparr>mqtt_connected := True, phase := PublishingDiscovery\<rparr>)))) = 2
   \<and> discovery_skips
        (snd (sensor_task_step example_config printf_1f 0
                (sys_init\<lparr>mqtt_connected := True, phase := PublishingDiscovery\<rparr>))) = 0
   \<and> phase (fst (sensor_task_step example_config printf_1f 0 running_state)) = Running
   \<and> filter is_discovery_publish
        (snd (sensor_task_step example_config printf_1f 0 running_state)) = []
   \<and> phase_rank (phase (fst (sys_run example_config printf_1f reconnect_trace sys_init))) = 3
   \<and> length (filter is_discovery_publish
               (snd (sys_run example_config printf_1f reconnect_trace sys_init)))
       + 2 * discovery_skips (snd (sys_run example_config printf_1f reconnect_trace sys_init)) = 2"
proof -
  let ?off = "sys_init\<lparr>mqtt_connected := False, phase := PublishingDiscovery\<rparr>"
  let ?on = "sys_init\<lparr>mqtt_connected := True, phase := PublishingDiscovery\<rparr>"
  have a: "phase sys_init = AwaitingSession \<and> \<not> mqtt_connected sys_init"
    by (simp add: sys_init_def)
  have b: "phase (sys_init\<lparr>mqtt_connected := True\<rparr>) = AwaitingSession
      \<and> mqtt_connected (sys_init\<lparr>mqtt_connected := True\<rparr>)"
    by (simp add: sys_init_def)
  have c: "phase (sys_init\<lparr>mqtt_connected := True, phase := SettleDelay\<rparr>) = SettleDelay"
    by simp
  have d: "phase ?off = PublishingDiscovery" "\<not> mqtt_connected ?off"
    "publish_ha_discovery example_config ?off
        = [Log ESP_LOGW ''MQTT not connected, skipping discovery'' []]"
    by (simp_all add: publish_ha_discovery_def)
  have e: "phase ?on = PublishingDiscovery" "mqtt_connected ?on"
    by simp_all
  have f: "phase running_state = Running" "phase running_state \<noteq> PublishingDiscovery"
    by (simp_all add: running_state_def)
  have g: "phase (fst (sys_run example_config printf_1f reconnect_trace sys_init)) = Running"
    by (simp add: run_example_simps)
  have poll: "sensor_task_step example_config printf_1f 0 sys_init = (sys_init, [VTaskDelay_ms 1000])"
    using a sensor_task_phase_order [where cfg = example_config and ?f1.0 = printf_1f and r = 0
      and s = sys_init and evs = reconnect_trace and event = MQTT_EVENT_CONNECTED]
    by blast
  have rank: "phase_rank (phase sys_init)
      \<le> phase_rank (phase (fst (sys_run example_config printf_1f reconnect_trace sys_init)))"
    and once: "length (filter is_discovery_publish
               (snd (sys_run example_config printf_1f reconnect_trace sys_init)))
       + 2 * discovery_skips (snd (sys_run example_config printf_1f reconnect_trace sys_init))
       = (if phase (fst (sys_run example_config printf_1f reconnect_trace sys_init)) = Running
          then 2 else 0)"
    using sensor_task_phase_order [where cfg = example_config and ?f1.0 = printf_1f and r = 0
      and s = sys_init and evs = reconnect_trace and event = MQTT_EVENT_CONNECTED]
    by blast+
  have seen: "sensor_task_step example_config printf_1f 0 (sys_init\<lparr>mqtt_connected := True\<rparr>)
       = (sys_init\<lparr>mqtt_connected := True, phase := SettleDelay\<rparr>, [])"
    using b sensor_task_phase_order [where cfg = example_config and ?f1.0 = printf_1f and r = 0
      and s = "sys_init\<lparr>mqtt_connected := True\<rparr>" and evs = "[]"
      and event = MQTT_EVENT_CONNECTED]
    by simp
  have settle: "sensor_task_step example_config printf_1f 0
        (sys_init\<lparr>mqtt_connected := True, phase := SettleDelay\<rparr>)
       = (sys_init\<lparr>mqtt_connected := True, phase := PublishingDiscovery\<rparr>, [VTaskDelay_ms 2000])"
    using c sensor_task_phase_order [where cfg = example_config and ?f1.0 = printf_1f and r = 0
      and s = "sys_init\<lparr>mqtt_connected := True, phase := SettleDelay\<rparr>" and evs = "[]"
      and event = MQTT_EVENT_CONNECTED]
    by simp
  have "sensor_task_step example_config printf_1f 0 ?off =
           (?off\<lparr>phase := Running\<rparr>,
            [Log ESP_LOGI ''Publishing Home Assistant discovery messages...'' []]
            @ publish_ha_discovery example_config ?off
            @ [Log ESP_LOGI ''Discovery messages sent!'' []])"
    using d(1) sensor_task_phase_order [where cfg = example_config and ?f1.0 = printf_1f and r = 0
      and s = ?off and evs = "[]" and event = MQTT_EVENT_CONNECTED]
    by blast
  then have skip: "sensor_task_step example_config printf_1f 0 ?off
       = (sys_init\<lparr>mqtt_connected := False, phase := Running\<rparr>,
          [Log ESP_LOGI ''Publishing Home Assistant discovery messages...'' [],
           Log ESP_LOGW ''MQTT not connected, skipping discovery'' [],
           Log ESP_LOGI ''Discovery messages sent!'' []])"
    by (simp add: d(3))
  have "length (filter is_discovery_publish (snd (sensor_task_step example_config printf_1f 0 ?on)))
           = (if mqtt_connected ?on then 2 else 0)
       \<and> discovery_skips (snd (sensor_task_step example_config printf_1f 0 ?on))
           = (if mqtt_connected ?on then 0 else 1)"
    using e(1) sensor_task_phase_order [where cfg = example_config and ?f1.0 = printf_1f and r = 0
      and s = ?on and evs = "[]" and event = MQTT_EVENT_CONNECTED]
    by blast
  then have two: "length (filter is_discovery_publish
               (snd (sensor_task_step example_config printf_1f 0 ?on))) = 2
       \<and> discovery_skips (snd (sensor_task_step example_config printf_1f 0 ?on)) = 0"
    by (simp only: e(2) if_True)
  have loop: "phase (fst (sensor_task_step example_config printf_1f 0 running_state)) = Running
      \<and> filter is_discovery_publish
           (snd (sensor_task_step example_config printf_1f 0 running_state)) = []"
    using f sensor_task_phase_order [where cfg = example_config and ?f1.0 = printf_1f and r = 0
      and s = running_state and evs = "[]" and event = MQTT_EVENT_CONNECTED]
    by blast
  have top: "phase_rank (phase (fst (sys_run example_config printf_1f reconnect_trace sys_init))) = 3"
    by (simp add: g)
  have one: "length (filter is_discovery_publish
               (snd (sys_run example_config printf_1f reconnect_trace sys_init)))
       + 2 * discovery_skips (snd (sys_run example_config printf_1f reconnect_trace sys_init)) = 2"
    using once g by simp
  from a poll seen settle skip two loop top one show ?thesis by blast
qed

subsection \<open>Published messages\<close>

lemma length_distance_config_topic: "length (distance_config_topic i) = 37 + length i"
  by (simp add: distance_config_topic_def)

lemma length_percentage_config_topic: "length (percentage_config_topic i) = 39 + length i"
  by (simp add: percentage_config_topic_def)

lemma length_distance_config_payload: "length (distance_config_payload i) = 280 + 3 * length i"
  by (simp add: distance_config_payload_def)

lemma length_percentage_config_payload: "length (percentage_config_payload i) = 205 + 3 * length i"
  by (simp add: percentage_config_payload_def)

lemma distance_payload_device_block:
  \<open>suffix (''"device":{"identifiers":["'' @ i
            @ ''"],"name":"Water Softener Salt Level","model":"ESP32 HC-SR04","manufacturer":"DIY"}}'')
     (distance_config_payload i)\<close>
  unfolding distance_config_payload_def
  by (simp add: suffix_def)

lemma percentage_payload_device_block:
  \<open>suffix (''"device":{"identifiers":["'' @ i @ ''"]}}'') (percentage_config_payload i)\<close>
  unfolding percentage_config_payload_def
  by (simp add: suffix_def)

lemma sint_interval_ms:
  fixes p :: "32 word"
  assumes "0 \<le> sint p" and "sint p \<le> 2147483"
  shows "sint (p * 1000) = sint p * 1000"
proof -
  have "sint (p * 1000) = signed_take_bit 31 (sint p * 1000)"
    by (simp add: sint_word_ariths)
  also have "\<dots> = sint p * 1000"
    using assms by (simp add: signed_take_bit_int_eq_self)
  finally show ?thesis .
qed

text \<open>
  Claim C6. When \<open>mqtt_connected\<close> is false \<open>publish_ha_discovery\<close> only logs a
  warning. When it is true it makes exactly two publish calls, for the distance and
  then the percentage entity, each with QoS 1 and retain true, the topic cut to the
  127 bytes and the payload to the 511 bytes that the buffers hold. For a client id
  of at most 77 bytes nothing is cut: the topics are
  \<open>homeassistant/sensor/<id>/distance/config\<close> and
  \<open>homeassistant/sensor/<id>/percentage/config\<close>, and the payloads are the two texts
  of \<open>distance_config_payload\<close> and \<open>percentage_config_payload\<close>; the first ends with
  the device block of identifiers, name, model and manufacturer, the second with a
  device block of identifiers only.
\<close>

theorem publish_ha_discovery_messages:
  \<open>(\<not> mqtt_connected s \<longrightarrow>
       publish_ha_discovery cfg s = [Log ESP_LOGW ''MQTT not connected, skipping discovery'' []])
   \<and> (mqtt_connected s \<longrightarrow>
       filter is_publish (publish_ha_discovery cfg s) =
         [Esp_mqtt_client_publish
            (snprintf 128 (''homeassistant/sensor/'' @ CONFIG_MQTT_CLIENT_ID cfg @ ''/distance/config''))
            (snprintf 512 (distance_config_payload (CONFIG_MQTT_CLIENT_ID cfg))) 0 1 True,
          Esp_mqtt_client_publish
            (snprintf 128 (''homeassistant/sensor/'' @ CONFIG_MQTT_CLIENT_ID cfg @ ''/percentage/config''))
            (snprintf 512 (percentage_config_payload (CONFIG_MQTT_CLIENT_ID cfg))) 0 1 True])
   \<and> (mqtt_connected s \<and> length (CONFIG_MQTT_CLIENT_ID cfg) \<le> 77 \<longrightarrow>
       filter is_publish (publish_ha_discovery cfg s) =
         [Esp_mqtt_client_publish
            (''homeassistant/sensor/'' @ CONFIG_MQTT_CLIENT_ID cfg @ ''/distance/config'')
            (distance_config_payload (CONFIG_MQTT_CLIENT_ID cfg)) 0 1 True,
          Esp_mqtt_client_publish
            (''homeassistant/sensor/'' @ CONFIG_MQTT_CLIENT_ID cfg @ ''/percentage/config'')
            (percentage_config_payload (CONFIG_MQTT_CLIENT_ID cfg)) 0 1 True])
   \<and> suffix (''"device":{"identifiers":["'' @ CONFIG_MQTT_CLIENT_ID cfg
               @ ''"],"name":"Water Softener Salt Level","model":"ESP32 HC-SR04","manufacturer":"DIY"}}'')
        (distance_config_payload (CONFIG_MQTT_CLIENT_ID cfg))
   \<and> suffix (''"device":{"identifiers":["'' @ CONFIG_MQTT_CLIENT_ID cfg @ ''"]}}'')
        (percentage_config_payload (CONFIG_MQTT_CLIENT_ID cfg))\<close>
proof -
  let ?i = "CONFIG_MQTT_CLIENT_ID cfg"
  have off: "\<not> mqtt_connected s \<longrightarrow>
       publish_ha_discovery cfg s = [Log ESP_LOGW ''MQTT not connected, skipping discovery'' []]"
    by (simp add: publish_ha_discovery_def)
  have on: "mqtt_connected s \<longrightarrow>
       filter is_publish (publish_ha_discovery cfg s) =
         [Esp_mqtt_client_publish
            (snprintf 128 (''homeassistant/sensor/'' @ ?i @ ''/distance/config''))
            (snprintf 512 (distance_config_payload ?i)) 0 1 True,
          Esp_mqtt_client_publish
            (snprintf 128 (''homeassistant/sensor/'' @ ?i @ ''/percentage/config''))
            (snprintf 512 (percentage_config_payload ?i)) 0 1 True]"
    by (simp add: publish_ha_discovery_publishes distance_config_topic_def
          percentage_config_topic_def)
  have fits: "length ?i \<le> 77 \<longrightarrow>
         snprintf 128 (''homeassistant/sensor/'' @ ?i @ ''/distance/config'')
           = ''homeassistant/sensor/'' @ ?i @ ''/distance/config''
       \<and> snprintf 128 (''homeassistant/sensor/'' @ ?i @ ''/percentage/config'')
           = ''homeassistant/sensor/'' @ ?i @ ''/percentage/config''
       \<and> snprintf 512 (distance_config_payload ?i) = distance_config_payload ?i
       \<and> snprintf 512 (percentage_config_payload ?i) = percentage_config_payload ?i"
    by (simp add: snprintf_fits length_distance_config_payload length_percentage_config_payload)
  have whole: "mqtt_connected s \<and> length ?i \<le> 77 \<longrightarrow>
       filter is_publish (publish_ha_discovery cfg s) =
         [Esp_mqtt_client_publish
            (''homeassistant/sensor/'' @ ?i @ ''/distance/config'')
            (distance_config_payload ?i) 0 1 True,
          Esp_mqtt_client_publish
            (''homeassistant/sensor/'' @ ?i @ ''/percentage/config'')
            (percentage_config_payload ?i) 0 1 True]"
    using on fits by simp
  from off on whole distance_payload_device_block [of ?i] percentage_payload_device_block [of ?i] show ?thesis by blast
qed

theorem publish_ha_discovery_messages_witness:
  \<open>\<not> mqtt_connected sys_init
   \<and> publish_ha_discovery example_config sys_init
       = [Log ESP_LOGW ''MQTT not connected, skipping discovery'' []]
   \<and> mqtt_connected running_state
   \<and> length (CONFIG_MQTT_CLIENT_ID example_config) \<le> 77
   \<and> filter is_publish (publish_ha_discovery example_config running_state) =
         [Esp_mqtt_client_publish
            ''homeassistant/sensor/salt_level_monitor/distance/config''
            ''{"name":"Salt Level Distance","state_topic":"homeassistant/sensor/salt_level_monitor/state","unit_of_measurement":"cm","value_template":"{{ value_json.distance }}","unique_id":"salt_level_monitor_distance","device":{"identifiers":["salt_level_monitor"],"name":"Water Softener Salt Level","model":"ESP32 HC-SR04","manufacturer":"DIY"}}''
            0 1 True,
          Esp_mqtt_client_publish
            ''homeassistant/sensor/salt_level_monitor/percentage/config''
            ''{"name":"Salt Level Percentage","state_topic":"homeassistant/sensor/salt_level_monitor/state","unit_of_measurement":"%","value_template":"{{ value_json.percentage }}","unique_id":"salt_level_monitor_percentage","device":{"identifiers":["salt_level_monitor"]}}''
            0 1 True]\<close>
proof -
  have a: "\<not> mqtt_connected sys_init" by (simp add: sys_init_def)
  have b: "mqtt_connected running_state" by (simp add: running_state_def)
  have c: "length (CONFIG_MQTT_CLIENT_ID example_config) \<le> 77"
    by (simp add: example_config_def)
  have i: "CONFIG_MQTT_CLIENT_ID example_config = ''salt_level_monitor''"
    by (simp add: example_config_def)
  have off: "publish_ha_discovery example_config sys_init
       = [Log ESP_LOGW ''MQTT not connected, skipping discovery'' []]"
    using a publish_ha_discovery_messages [where cfg = example_config and s = sys_init]
    by blast
  have on: "filter is_publish (publish_ha_discovery example_config running_state) =
         [Esp_mqtt_client_publish
            (''homeassistant/sensor/'' @ CONFIG_MQTT_CLIENT_ID example_config @ ''/distance/config'')
            (distance_config_payload (CONFIG_MQTT_CLIENT_ID example_config)) 0 1 True,
          Esp_mqtt_client_publish
            (''homeassistant/sensor/'' @ CONFIG_MQTT_CLIENT_ID example_config @ ''/percentage/config'')
            (percentage_config_payload (CONFIG_MQTT_CLIENT_ID example_config)) 0 1 True]"
    using b c publish_ha_discovery_messages [where cfg = example_config and s = running_state]
    by blast
  show ?thesis
    unfolding off on
    using a b c by (simp add: i distance_config_payload_def percentage_config_payload_def)
qed

text \<open>
  Claim C7. A measurement cycle of the firmware makes one publish call if
  \<open>mqtt_connected\<close> is true and none otherwise, with QoS 0 and retain false, the
  topic \<open>homeassistant/sensor/<id>/state\<close> cut to 127 bytes and the payload
  \<open>{"distance":<d>,"percentage":<p>}\<close>, with no space in it, where \<open><d>\<close> and \<open><p>\<close>
  are the distance read and the percentage that \<open>calculate_percentage\<close> returns
  for it, both as \<open>float\<close> values under the conversion \<open>%.1f\<close>. Both are
  one-decimal numbers, whatever the configuration and the counter of the sensor
  are; the payload has at most 39 bytes and the buffer of 256 cuts nothing. The
  cycle then sleeps once, for the reading interval times 1000 ms (computed in 32
  bits, exact up to 2147483 s). For a client id of at most 100 bytes the topic is
  not cut either.
\<close>

theorem telemetry_publish_shape:
  assumes "phase s = Running"
  shows \<open>let distance = fst (read_distance_cm (count s));
             percentage = calculate_percentage cfg distance
         in filter is_publish (snd (sensor_task_step cfg printf_1f r s)) =
              (if mqtt_connected s
               then [Esp_mqtt_client_publish
                       (snprintf 128 (''homeassistant/sensor/'' @ CONFIG_MQTT_CLIENT_ID cfg @ ''/state''))
                       (snprintf 256 (''{"distance":'' @ printf_1f distance
                                      @ '',"percentage":'' @ printf_1f percentage @ ''}''))
                       0 0 False]
               else [])
          \<and> one_decimal (printf_1f distance)
          \<and> one_decimal (printf_1f percentage)
          \<and> snprintf 256 (''{"distance":'' @ printf_1f distance
                           @ '',"percentage":'' @ printf_1f percentage @ ''}'')
              = ''{"distance":'' @ printf_1f distance
                @ '',"percentage":'' @ printf_1f percentage @ ''}''
          \<and> delays (snd (sensor_task_step cfg printf_1f r s)) = [CONFIG_READING_INTERVAL_SEC cfg * 1000]
          \<and> (0 \<le> sint (CONFIG_READING_INTERVAL_SEC cfg)
               \<and> sint (CONFIG_READING_INTERVAL_SEC cfg) \<le> 2147483 \<longrightarrow>
              sint (CONFIG_READING_INTERVAL_SEC cfg * 1000)
                = sint (CONFIG_READING_INTERVAL_SEC cfg) * 1000)
          \<and> (mqtt_connected s \<and> length (CONFIG_MQTT_CLIENT_ID cfg) \<le> 100 \<longrightarrow>
              filter is_publish (snd (sensor_task_step cfg printf_1f r s)) =
                [Esp_mqtt_client_publish
                   (''homeassistant/sensor/'' @ CONFIG_MQTT_CLIENT_ID cfg @ ''/state'')
                   (''{"distance":'' @ printf_1f distance
                    @ '',"percentage":'' @ printf_1f percentage @ ''}'')
                   0 0 False])\<close>
proof -
  define distance where "distance = fst (read_distance_cm (count s))"
  define percentage where "percentage = calculate_percentage cfg distance"
  define d where "d = printf_1f distance"
  define p where "p = printf_1f percentage"
  let ?i = "CONFIG_MQTT_CLIENT_ID cfg"
  have pub: \<open>filter is_publish (snd (sensor_task_step cfg printf_1f r s)) =
              (if mqtt_connected s
               then [Esp_mqtt_client_publish
                       (snprintf 128 (''homeassistant/sensor/'' @ ?i @ ''/state''))
                       (snprintf 256 (''{"distance":'' @ d @ '',"percentage":'' @ p @ ''}''))
                       0 0 False]
               else [])\<close>
    by (simp add: step_running_publishes [OF assms] state_topic_def state_payload_def
          distance_def percentage_def d_def p_def)
  have dist: "one_decimal d" "length d \<le> 6"
    using reading_conversions [of "count s"] by (simp_all add: d_def distance_def)
  have perc: "one_decimal p" "length p \<le> 6"
    using percentage_conversions [of cfg "count s"]
    by (simp_all add: p_def percentage_def distance_def)
  have \<open>length (''{"distance":'' @ d @ '',"percentage":'' @ p @ ''}'') < 256\<close>
    using dist(2) perc(2) by (rule length_state_payload)
  then have room: \<open>snprintf 256 (''{"distance":'' @ d @ '',"percentage":'' @ p @ ''}'')
                 = ''{"distance":'' @ d @ '',"percentage":'' @ p @ ''}''\<close>
    by (rule snprintf_fits)
  have del: "delays (snd (sensor_task_step cfg printf_1f r s)) = [CONFIG_READING_INTERVAL_SEC cfg * 1000]"
    by (simp add: step_running [OF assms] read_distance_cm_log)
  have ms: "0 \<le> sint (CONFIG_READING_INTERVAL_SEC cfg)
               \<and> sint (CONFIG_READING_INTERVAL_SEC cfg) \<le> 2147483 \<longrightarrow>
              sint (CONFIG_READING_INTERVAL_SEC cfg * 1000)
                = sint (CONFIG_READING_INTERVAL_SEC cfg) * 1000"
    using sint_interval_ms by blast
  have fits: \<open>length ?i \<le> 100 \<longrightarrow>
        snprintf 128 (''homeassistant/sensor/'' @ ?i @ ''/state'')
          = ''homeassistant/sensor/'' @ ?i @ ''/state''\<close>
    by (simp add: snprintf_fits)
  have whole: \<open>mqtt_connected s \<and> length ?i \<le> 100 \<longrightarrow>
              filter is_publish (snd (sensor_task_step cfg printf_1f r s)) =
                [Esp_mqtt_client_publish
                   (''homeassistant/sensor/'' @ ?i @ ''/state'')
                   (''{"distance":'' @ d @ '',"percentage":'' @ p @ ''}'')
                   0 0 False]\<close>
    using pub fits room by simp
  from pub dist(1) perc(1) room del ms whole show ?thesis
    unfolding Let_def distance_def [symmetric] percentage_def [symmetric]
      d_def [symmetric] p_def [symmetric]
    by blast
qed

theorem telemetry_publish_shape_witness:
  \<open>phase (running_state\<lparr>count := 2\<rparr>) = Running \<and> mqtt_connected (running_state\<lparr>count := 2\<rparr>)
   \<and> length (CONFIG_MQTT_CLIENT_ID tall_tank_config) \<le> 100
   \<and> 0 \<le> sint (CONFIG_READING_INTERVAL_SEC tall_tank_config)
   \<and> sint (CONFIG_READING_INTERVAL_SEC tall_tank_config) \<le> 2147483
   \<and> fst (read_distance_cm (count (running_state\<lparr>count := 2\<rparr>))) = Val (29 / 2)
   \<and> calculate_percentage tall_tank_config (Val (29 / 2)) = Val (12917145 / 131072)
   \<and> filter is_publish
        (snd (sensor_task_step tall_tank_config printf_1f 1 (running_state\<lparr>count := 2\<rparr>))) =
        [Esp_mqtt_client_publish ''homeassistant/sensor/salt_level_monitor/state''
           ''{"distance":14.5,"percentage":98.5}'' 0 0 False]
   \<and> one_decimal ''14.5'' \<and> one_decimal ''98.5''
   \<and> delays (snd (sensor_task_step tall_tank_config printf_1f 1 (running_state\<lparr>count := 2\<rparr>)))
       = [60000]
   \<and> sint (CONFIG_READING_INTERVAL_SEC tall_tank_config * 1000) = 60000\<close>
proof -
  have a: "phase (running_state\<lparr>count := 2\<rparr>) = Running"
    "mqtt_connected (running_state\<lparr>count := 2\<rparr>)"
    "count (running_state\<lparr>count := 2\<rparr>) = 2"
    by (simp_all add: running_state_def)
  have b: "length (CONFIG_MQTT_CLIENT_ID tall_tank_config) \<le> 100"
    "CONFIG_MQTT_CLIENT_ID tall_tank_config = ''salt_level_monitor''"
    "CONFIG_READING_INTERVAL_SEC tall_tank_config = 60"
    by (simp_all add: tall_tank_config_def example_config_def)
  have i: "0 \<le> sint (CONFIG_READING_INTERVAL_SEC tall_tank_config)"
    "sint (CONFIG_READING_INTERVAL_SEC tall_tank_config) \<le> 2147483"
    "sint (CONFIG_READING_INTERVAL_SEC tall_tank_config) = 60"
    by (simp_all add: b(3))
  have c: "fst (read_distance_cm 2) = Val (29 / 2)"
    by (simp add: read_distance_cm_examples)
  note shape = telemetry_publish_shape [where cfg = tall_tank_config
      and s = "running_state\<lparr>count := 2\<rparr>" and r = 1, OF a(1), unfolded Let_def a(3) c
        calculate_percentage_examples(3) printf_1f_examples]
  have pub: \<open>filter is_publish
        (snd (sensor_task_step tall_tank_config printf_1f 1 (running_state\<lparr>count := 2\<rparr>))) =
        [Esp_mqtt_client_publish
           (''homeassistant/sensor/'' @ CONFIG_MQTT_CLIENT_ID tall_tank_config @ ''/state'')
           (''{"distance":'' @ ''14.5'' @ '',"percentage":'' @ ''98.5'' @ ''}'')
           0 0 False]\<close>
    using shape a(2) b(1) by blast
  have dec: "one_decimal ''14.5''" "one_decimal ''98.5''"
    using shape by blast+
  have del: "delays (snd (sensor_task_step tall_tank_config printf_1f 1 (running_state\<lparr>count := 2\<rparr>)))
      = [CONFIG_READING_INTERVAL_SEC tall_tank_config * 1000]"
    using shape by blast
  have ms: "sint (CONFIG_READING_INTERVAL_SEC tall_tank_config * 1000)
      = sint (CONFIG_READING_INTERVAL_SEC tall_tank_config) * 1000"
    using shape i(1,2) by blast
  show ?thesis
    unfolding pub del ms using a dec c i by (simp add: b calculate_percentage_examples(3))
qed

end
